theory Spec2Isabelle
  imports Complex_Main
begin

section \<open>Numeric types and the numpy operations the filter uses\<close>

text \<open>
  The source computes with IEEE doubles. The embedding computes with the real numbers:
  every arithmetic operation on numbers is the exact one, so rounding, overflow and underflow
  are not modelled. Where Python raises (a division of Python floats by zero, a square root
  of a negative number, an index out of range, the inverse of a singular matrix) the model
  returns an error value. Where numpy does not raise but returns nan (the division 0/0 of
  numpy scalars), the model returns \<open>NaN\<close> and goes on as the source does. All matrices
  of the filter are 2 by 2 and are stored as a pair of rows.
\<close>

type_synonym vec2 = "real \<times> real"
type_synonym mat2 = "vec2 \<times> vec2"
type_synonym state3 = "real \<times> real \<times> real"

text \<open>The exceptions of the source, and \<open>HeapShapeError\<close> for an object store that does
  not have the shape the program builds (a reference to no object, or to an object of the
  wrong kind): no Python run reaches it.\<close>

datatype error = ZeroDivisionError | ValueError | LinAlgError | IndexError | HeapShapeError

text \<open>
  A floating-point scalar or array of the source: its real entries, or nan. With exact
  arithmetic on numbers the only place where nan arises is \<^verbatim>\<open>dh_dlandmark\<close> for a landmark
  on the scanner, where all four entries of the Jacobian are the quotient 0/0; every entry of
  every array computed from a nan array is nan again (a product or sum with nan is nan, also
  when the other factor is 0; \<^verbatim>\<open>np.linalg.inv\<close> and \<^verbatim>\<open>np.linalg.det\<close> of a nan matrix are
  nan and raise nothing). So an array of the model has numbers in every entry (\<open>Num\<close>) or
  nan in every entry (\<open>NaN\<close>).
\<close>

datatype 'a fp = Num 'a | NaN

fun fp1 :: "('a \<Rightarrow> 'b) \<Rightarrow> 'a fp \<Rightarrow> 'b fp" where
  "fp1 f (Num x) = Num (f x)"
| "fp1 f NaN = NaN"

fun fp2 :: "('a \<Rightarrow> 'b \<Rightarrow> 'c) \<Rightarrow> 'a fp \<Rightarrow> 'b fp \<Rightarrow> 'c fp" where
  "fp2 f (Num x) (Num y) = Num (f x y)"
| "fp2 f (Num x) NaN = NaN"
| "fp2 f NaN y = NaN"

text \<open>A comparison with nan is false.\<close>

fun fp_gt :: "real fp \<Rightarrow> real fp \<Rightarrow> bool" where
  "fp_gt (Num x) (Num y) = (x > y)"
| "fp_gt (Num x) NaN = False"
| "fp_gt NaN y = False"

fun fp_lt :: "real fp \<Rightarrow> real fp \<Rightarrow> bool" where
  "fp_lt (Num x) (Num y) = (x < y)"
| "fp_lt (Num x) NaN = False"
| "fp_lt NaN y = False"

text \<open>Python's \<^verbatim>\<open>x % m\<close> on floats, for a divisor that is not zero (the filter
  divides by \<open>2\<pi>\<close> only): the result has the sign of the divisor.\<close>

definition fmod :: "real \<Rightarrow> real \<Rightarrow> real" where
  "fmod x m = x - m * of_int \<lfloor>x / m\<rfloor>"

text \<open>\<^verbatim>\<open>math.atan2(y, x)\<close>, with \<^verbatim>\<open>atan2(0, 0) = 0\<close>.\<close>

definition atan2 :: "real \<Rightarrow> real \<Rightarrow> real" where
  "atan2 y x =
     (if 0 < x then arctan (y / x)
      else if x < 0 then (if 0 \<le> y then arctan (y / x) + pi else arctan (y / x) - pi)
      else if 0 < y then pi / 2
      else if y < 0 then - (pi / 2)
      else 0)"

definition vec_add :: "vec2 \<Rightarrow> vec2 \<Rightarrow> vec2" where
  "vec_add u v = (fst u + fst v, snd u + snd v)"

definition vec_sub :: "vec2 \<Rightarrow> vec2 \<Rightarrow> vec2" where
  "vec_sub u v = (fst u - fst v, snd u - snd v)"

definition vec_scale :: "real \<Rightarrow> vec2 \<Rightarrow> vec2" where
  "vec_scale c v = (c * fst v, c * snd v)"

definition dot_vv :: "vec2 \<Rightarrow> vec2 \<Rightarrow> real" where
  "dot_vv u v = fst u * fst v + snd u * snd v"

definition dot_mv :: "mat2 \<Rightarrow> vec2 \<Rightarrow> vec2" where
  "dot_mv A v = (dot_vv (fst A) v, dot_vv (snd A) v)"

definition mat_T :: "mat2 \<Rightarrow> mat2" where
  "mat_T A = ((fst (fst A), fst (snd A)), (snd (fst A), snd (snd A)))"

definition dot_vm :: "vec2 \<Rightarrow> mat2 \<Rightarrow> vec2" where
  "dot_vm v A = dot_mv (mat_T A) v"

definition dot_mm :: "mat2 \<Rightarrow> mat2 \<Rightarrow> mat2" where
  "dot_mm A B = (dot_vm (fst A) B, dot_vm (snd A) B)"

definition mat_add :: "mat2 \<Rightarrow> mat2 \<Rightarrow> mat2" where
  "mat_add A B = (vec_add (fst A) (fst B), vec_add (snd A) (snd B))"

definition mat_sub :: "mat2 \<Rightarrow> mat2 \<Rightarrow> mat2" where
  "mat_sub A B = (vec_sub (fst A) (fst B), vec_sub (snd A) (snd B))"

definition eye2 :: mat2 where
  "eye2 = ((1, 0), (0, 1))"

definition diag2 :: "real \<Rightarrow> real \<Rightarrow> mat2" where
  "diag2 a b = ((a, 0), (0, b))"

definition linalg_det :: "mat2 \<Rightarrow> real" where
  "linalg_det A = fst (fst A) * snd (snd A) - snd (fst A) * fst (snd A)"

text \<open>\<^verbatim>\<open>np.linalg.inv\<close> raises \<^verbatim>\<open>LinAlgError\<close> on a singular matrix.\<close>

definition linalg_inv :: "mat2 \<Rightarrow> error + mat2" where
  "linalg_inv A =
     (if linalg_det A = 0 then Inl LinAlgError
      else Inr ((snd (snd A) / linalg_det A, - snd (fst A) / linalg_det A),
                (- fst (snd A) / linalg_det A, fst (fst A) / linalg_det A)))"

text \<open>\<^verbatim>\<open>np.linalg.inv\<close> on an array that may be nan: the inverse of a nan matrix is nan.\<close>

definition linalg_inv_fp :: "mat2 fp \<Rightarrow> error + mat2 fp" where
  "linalg_inv_fp A =
     (case A of
        NaN \<Rightarrow> Inr NaN
      | Num M \<Rightarrow> (case linalg_inv M of Inl e \<Rightarrow> Inl e | Inr Mi \<Rightarrow> Inr (Num Mi)))"

definition nth_e :: "'a list \<Rightarrow> nat \<Rightarrow> error + 'a" where
  "nth_e xs n = (if n < length xs then Inr (xs ! n) else Inl IndexError)"

text \<open>Python's \<^verbatim>\<open>max\<close> of a list: the first element, replaced by each later one that is
  greater; \<^verbatim>\<open>ValueError\<close> on the empty list.\<close>

fun py_max :: "real list \<Rightarrow> error + real" where
  "py_max [] = Inl ValueError"
| "py_max (x # xs) = Inr (foldl (\<lambda>m y. if y > m then y else m) x xs)"

text \<open>The same \<^verbatim>\<open>max\<close> on a list whose elements may be nan (the likelihoods): an element
  replaces the running maximum when it compares greater, which nan never does and which
  nothing does against nan.\<close>

fun py_max_fp :: "real fp list \<Rightarrow> error + real fp" where
  "py_max_fp [] = Inl ValueError"
| "py_max_fp (x # xs) = Inr (foldl (\<lambda>m y. if fp_gt y m then y else m) x xs)"

section \<open>Particle\<close>

record particle =
  pose :: state3
  landmark_positions :: "vec2 fp list"
  landmark_covariances :: "mat2 fp list"

definition number_of_landmarks :: "particle \<Rightarrow> nat" where
  "number_of_landmarks p = length (landmark_positions p)"

text \<open>\<^verbatim>\<open>Particle.g\<close>: the state transition. The divisions by \<^verbatim>\<open>w\<close> and by
  \<^verbatim>\<open>alpha\<close> raise \<^verbatim>\<open>ZeroDivisionError\<close> on a zero divisor.\<close>

definition g :: "state3 \<Rightarrow> real \<times> real \<Rightarrow> real \<Rightarrow> error + state3" where
  "g state control w =
     (case state of (x, y, theta) \<Rightarrow>
      case control of (l, r) \<Rightarrow>
        if r \<noteq> l then
          (if w = 0 then Inl ZeroDivisionError
           else let alpha = (r - l) / w in
             if alpha = 0 then Inl ZeroDivisionError
             else let rad = l / alpha;
                      g1 = x + (rad + w / 2) * (sin (theta + alpha) - sin theta);
                      g2 = y + (rad + w / 2) * (- cos (theta + alpha) + cos theta);
                      g3 = fmod (theta + alpha + pi) (2 * pi) - pi
                  in Inr (g1, g2, g3))
        else
          (let g1 = x + l * cos theta;
               g2 = y + l * sin theta;
               g3 = theta
           in Inr (g1, g2, g3)))"

definition move :: "particle \<Rightarrow> real \<Rightarrow> real \<Rightarrow> real \<Rightarrow> error + particle" where
  "move p left right w =
     (case g (pose p) (left, right) w of
        Inl e \<Rightarrow> Inl e
      | Inr s \<Rightarrow> Inr (p\<lparr>pose := s\<rparr>))"

text \<open>\<^verbatim>\<open>Particle.h\<close>: the measurement function, (range, bearing) of a landmark seen from
  the scanner; \<open>h_num\<close> is the function on a landmark whose coordinates are numbers, and
  the measurement of a nan landmark is nan.\<close>

definition h_num :: "state3 \<Rightarrow> vec2 \<Rightarrow> real \<Rightarrow> vec2" where
  "h_num state landmark scanner_displacement =
     (case state of (sx, sy, stheta) \<Rightarrow>
      let dx = fst landmark - (sx + scanner_displacement * cos stheta);
          dy = snd landmark - (sy + scanner_displacement * sin stheta);
          r = sqrt (dx * dx + dy * dy);
          alpha = fmod (atan2 dy dx - stheta + pi) (2 * pi) - pi
      in (r, alpha))"

definition h :: "state3 \<Rightarrow> vec2 fp \<Rightarrow> real \<Rightarrow> vec2 fp" where
  "h state landmark scanner_displacement =
     fp1 (\<lambda>lm. h_num state lm scanner_displacement) landmark"

text \<open>\<^verbatim>\<open>Particle.dh_dlandmark\<close>. The state is a numpy array, so \<^verbatim>\<open>dx\<close>, \<^verbatim>\<open>dy\<close> and
  \<^verbatim>\<open>q\<close> are numpy scalars and the four quotients are numpy divisions. When the landmark
  lies on the scanner, \<^verbatim>\<open>dx\<close>, \<^verbatim>\<open>dy\<close>, \<^verbatim>\<open>q\<close> and \<^verbatim>\<open>sqrtq\<close> are zero, each quotient is
  0/0, and the function returns the nan matrix without raising. For a nan landmark every
  entry is nan as well.\<close>

definition dh_dlandmark :: "state3 \<Rightarrow> vec2 fp \<Rightarrow> real \<Rightarrow> mat2 fp" where
  "dh_dlandmark state landmark scanner_displacement =
     (case landmark of
        NaN \<Rightarrow> NaN
      | Num lm \<Rightarrow>
          (case state of (sx, sy, theta) \<Rightarrow>
           let cost = cos theta; sint = sin theta;
               dx = fst lm - (sx + scanner_displacement * cost);
               dy = snd lm - (sy + scanner_displacement * sint);
               q = dx * dx + dy * dy;
               sqrtq = sqrt q
           in if sqrtq = 0 \<or> q = 0 then NaN
              else let dr_dmx = dx / sqrtq;
                       dr_dmy = dy / sqrtq;
                       dalpha_dmx = - dy / q;
                       dalpha_dmy = dx / q
                   in Num ((dr_dmx, dr_dmy), (dalpha_dmx, dalpha_dmy))))"

definition h_expected_measurement_for_landmark ::
  "particle \<Rightarrow> nat \<Rightarrow> real \<Rightarrow> error + vec2 fp" where
  "h_expected_measurement_for_landmark p landmark_number scanner_displacement =
     (case nth_e (landmark_positions p) landmark_number of
        Inl e \<Rightarrow> Inl e
      | Inr lm \<Rightarrow> Inr (h (pose p) lm scanner_displacement))"

definition H_Ql_jacobian_and_measurement_covariance_for_landmark ::
  "particle \<Rightarrow> nat \<Rightarrow> mat2 \<Rightarrow> real \<Rightarrow> error + (mat2 fp \<times> mat2 fp)" where
  "H_Ql_jacobian_and_measurement_covariance_for_landmark p landmark_number
       Qt_measurement_covariance scanner_displacement =
     (case nth_e (landmark_positions p) landmark_number of
        Inl e \<Rightarrow> Inl e
      | Inr lm \<Rightarrow>
          (let H = dh_dlandmark (pose p) lm scanner_displacement in
           case nth_e (landmark_covariances p) landmark_number of
             Inl e \<Rightarrow> Inl e
           | Inr S \<Rightarrow>
               Inr (H, fp2 mat_add (fp2 dot_mm H (fp2 dot_mm S (fp1 mat_T H)))
                                   (Num Qt_measurement_covariance))))"

text \<open>The innovation \<^verbatim>\<open>delta_z\<close> of \<^verbatim>\<open>wl_likelihood_of_correspondence\<close>, which is also the
  vector \<^verbatim>\<open>update_landmark\<close> multiplies the Kalman gain with: the measurement minus the
  expected measurement, componentwise.\<close>

definition delta_z :: "particle \<Rightarrow> vec2 \<Rightarrow> nat \<Rightarrow> real \<Rightarrow> error + vec2 fp" where
  "delta_z p measurement landmark_number scanner_displacement =
     (case h_expected_measurement_for_landmark p landmark_number scanner_displacement of
        Inl e \<Rightarrow> Inl e
      | Inr zhat \<Rightarrow> Inr (fp2 vec_sub (Num measurement) zhat))"

text \<open>\<^verbatim>\<open>math.sqrt\<close> raises \<^verbatim>\<open>ValueError\<close> on a negative argument, and the quotient
  \<^verbatim>\<open>1.0 / (2*pi * sqrt(det))\<close> of Python floats raises \<^verbatim>\<open>ZeroDivisionError\<close> when the
  determinant is zero; it is evaluated before the inverse of \<^verbatim>\<open>Ql\<close> is. For a nan
  \<^verbatim>\<open>Ql\<close> the determinant, its square root, the quotient, the inverse and the exponential
  are nan and nothing raises: the likelihood is nan. It is nan, too, when the innovation
  is.\<close>

definition wl_likelihood_of_correspondence ::
  "particle \<Rightarrow> vec2 \<Rightarrow> nat \<Rightarrow> mat2 \<Rightarrow> real \<Rightarrow> error + real fp" where
  "wl_likelihood_of_correspondence p measurement landmark_number
       Qt_measurement_covariance scanner_displacement =
     (case delta_z p measurement landmark_number scanner_displacement of
        Inl e \<Rightarrow> Inl e
      | Inr dz \<Rightarrow>
          (case H_Ql_jacobian_and_measurement_covariance_for_landmark p landmark_number
                  Qt_measurement_covariance scanner_displacement of
             Inl e \<Rightarrow> Inl e
           | Inr (H, NaN) \<Rightarrow> Inr NaN
           | Inr (H, Num Ql) \<Rightarrow>
               if linalg_det Ql < 0 then Inl ValueError
               else if 2 * pi * sqrt (linalg_det Ql) = 0 then Inl ZeroDivisionError
               else
                 (case linalg_inv Ql of
                    Inl e \<Rightarrow> Inl e
                  | Inr Ql_inv \<Rightarrow>
                      Inr (fp1 (\<lambda>v. 1 / (2 * pi * sqrt (linalg_det Ql))
                                    * exp (dot_vv (dot_vm (vec_scale (- 0.5) v) Ql_inv) v))
                             dz))))"

fun likelihoods_loop ::
  "particle \<Rightarrow> vec2 \<Rightarrow> nat list \<Rightarrow> mat2 \<Rightarrow> real \<Rightarrow> error + real fp list" where
  "likelihoods_loop p measurement [] Qt d = Inr []"
| "likelihoods_loop p measurement (i # is) Qt d =
     (case wl_likelihood_of_correspondence p measurement i Qt d of
        Inl e \<Rightarrow> Inl e
      | Inr l \<Rightarrow>
          (case likelihoods_loop p measurement is Qt d of
             Inl e \<Rightarrow> Inl e
           | Inr ls \<Rightarrow> Inr (l # ls)))"

definition compute_correspondence_likelihoods ::
  "particle \<Rightarrow> vec2 \<Rightarrow> nat \<Rightarrow> mat2 \<Rightarrow> real \<Rightarrow> error + real fp list" where
  "compute_correspondence_likelihoods p measurement n_landmarks
       Qt_measurement_covariance scanner_displacement =
     likelihoods_loop p measurement [0..<n_landmarks]
       Qt_measurement_covariance scanner_displacement"

text \<open>Modelled from the spec: \<^verbatim>\<open>LegoLogfile.scanner_to_world\<close> of the module
  \<^verbatim>\<open>lego_robot\<close>, which transforms scanner-frame coordinates into world coordinates
  using the scanner pose (rotate by the heading, translate by the position). The functions
  below take the transformation as a parameter; this definition instantiates it.\<close>

definition scanner_to_world :: "state3 \<Rightarrow> vec2 \<Rightarrow> vec2" where
  "scanner_to_world scanner_pose point =
     (case scanner_pose of (px, py, ptheta) \<Rightarrow>
        (fst point * cos ptheta - snd point * sin ptheta + px,
         fst point * sin ptheta + snd point * cos ptheta + py))"

definition initialize_new_landmark ::
  "(state3 \<Rightarrow> vec2 \<Rightarrow> vec2) \<Rightarrow> particle \<Rightarrow> vec2 \<Rightarrow> mat2 \<Rightarrow> real \<Rightarrow> error + particle" where
  "initialize_new_landmark s2w p measurement_in_scanner_system
       Qt_measurement_covariance scanner_displacement =
     (case pose p of (px, py, ptheta) \<Rightarrow>
      let scanner_pose = (px + cos ptheta * scanner_displacement,
                          py + sin ptheta * scanner_displacement,
                          ptheta);
          landmark_position = Num (s2w scanner_pose measurement_in_scanner_system);
          H = dh_dlandmark (pose p) landmark_position scanner_displacement
      in case linalg_inv_fp H of
           Inl e \<Rightarrow> Inl e
         | Inr H_inv \<Rightarrow>
             let landmark_covariance =
                   fp2 dot_mm (fp2 dot_mm H_inv (Num Qt_measurement_covariance))
                              (fp1 mat_T H_inv)
             in Inr (p\<lparr>landmark_positions := landmark_positions p @ [landmark_position],
                       landmark_covariances :=
                         landmark_covariances p @ [landmark_covariance]\<rparr>))"

definition update_landmark ::
  "particle \<Rightarrow> nat \<Rightarrow> vec2 \<Rightarrow> mat2 \<Rightarrow> real \<Rightarrow> error + particle" where
  "update_landmark p landmark_number measurement Qt_measurement_covariance
       scanner_displacement =
     (case H_Ql_jacobian_and_measurement_covariance_for_landmark p landmark_number
             Qt_measurement_covariance scanner_displacement of
        Inl e \<Rightarrow> Inl e
      | Inr (H, Ql) \<Rightarrow>
          (case nth_e (landmark_covariances p) landmark_number of
             Inl e \<Rightarrow> Inl e
           | Inr S \<Rightarrow>
               (case linalg_inv_fp Ql of
                  Inl e \<Rightarrow> Inl e
                | Inr Ql_inv \<Rightarrow>
                    let K = fp2 dot_mm (fp2 dot_mm S (fp1 mat_T H)) Ql_inv in
                    (case nth_e (landmark_positions p) landmark_number of
                       Inl e \<Rightarrow> Inl e
                     | Inr lm \<Rightarrow>
                         (case delta_z p measurement landmark_number scanner_displacement of
                            Inl e \<Rightarrow> Inl e
                          | Inr dz \<Rightarrow>
                              Inr (p\<lparr>landmark_positions :=
                                       (landmark_positions p)
                                         [landmark_number := fp2 vec_add lm (fp2 dot_mv K dz)],
                                     landmark_covariances :=
                                       (landmark_covariances p)
                                         [landmark_number :=
                                            fp2 dot_mm
                                              (fp2 mat_sub (Num eye2) (fp2 dot_mm K H))
                                              S]\<rparr>))))))"

text \<open>The loop of \<^verbatim>\<open>update_particle\<close> that computes (max, argmax), started with
  \<^verbatim>\<open>w = 0\<close> and \<^verbatim>\<open>max_index = 0\<close>. The test \<^verbatim>\<open>likelihood > w\<close> is false for a nan
  likelihood, which is skipped.\<close>

fun argmax_loop :: "(nat \<times> real fp) list \<Rightarrow> real \<Rightarrow> nat \<Rightarrow> real \<times> nat" where
  "argmax_loop [] w max_index = (w, max_index)"
| "argmax_loop ((index, Num likelihood) # rest) w max_index =
     (if likelihood > w then argmax_loop rest likelihood index
      else argmax_loop rest w max_index)"
| "argmax_loop ((index, NaN) # rest) w max_index = argmax_loop rest w max_index"

text \<open>\<^verbatim>\<open>Particle.update_particle\<close>. The test \<^verbatim>\<open>max(likelihoods) < threshold\<close> is false when
  the maximum is nan.\<close>

definition update_particle ::
  "(state3 \<Rightarrow> vec2 \<Rightarrow> vec2) \<Rightarrow> particle \<Rightarrow> vec2 \<Rightarrow> vec2 \<Rightarrow> nat \<Rightarrow> real \<Rightarrow> mat2 \<Rightarrow> real
     \<Rightarrow> error + (particle \<times> real)" where
  "update_particle s2w p measurement measurement_in_scanner_system n_landmarks
       minimum_correspondence_likelihood Qt_measurement_covariance scanner_displacement =
     (case compute_correspondence_likelihoods p measurement n_landmarks
             Qt_measurement_covariance scanner_displacement of
        Inl e \<Rightarrow> Inl e
      | Inr likelihoods \<Rightarrow>
          if likelihoods = []
             \<or> (case py_max_fp likelihoods of
                   Inl e \<Rightarrow> False
                 | Inr m \<Rightarrow> fp_lt m (Num minimum_correspondence_likelihood))
          then
            (case initialize_new_landmark s2w p measurement_in_scanner_system
                    Qt_measurement_covariance scanner_displacement of
               Inl e \<Rightarrow> Inl e
             | Inr p' \<Rightarrow> Inr (p', minimum_correspondence_likelihood))
          else
            (case argmax_loop (enumerate 0 likelihoods) 0 0 of
               (w, max_index) \<Rightarrow>
                 (case update_landmark p max_index measurement Qt_measurement_covariance
                         scanner_displacement of
                    Inl e \<Rightarrow> Inl e
                  | Inr p' \<Rightarrow> Inr (p', w))))"

section \<open>FastSLAM\<close>

record fastslam =
  particles :: "particle list"
  robot_width :: real
  scanner_displacement :: real
  control_motion_factor :: real
  control_turn_factor :: real
  measurement_distance_stddev :: real
  measurement_angle_stddev :: real
  minimum_correspondence_likelihood :: real

text \<open>The loop over the measurements of \<^verbatim>\<open>update_and_compute_weights\<close>, for one particle:
  \<^verbatim>\<open>number_of_landmarks\<close> is the count taken before the loop, \<^verbatim>\<open>weight\<close> the running
  product.\<close>

fun measurements_loop ::
  "(state3 \<Rightarrow> vec2 \<Rightarrow> vec2) \<Rightarrow> particle \<Rightarrow> (vec2 \<times> vec2) list \<Rightarrow> nat \<Rightarrow> real \<Rightarrow> mat2 \<Rightarrow> real
     \<Rightarrow> real \<Rightarrow> error + (particle \<times> real)" where
  "measurements_loop s2w p [] n thr Qt d weight = Inr (p, weight)"
| "measurements_loop s2w p ((measurement, measurement_in_scanner_system) # rest)
       n thr Qt d weight =
     (case update_particle s2w p measurement measurement_in_scanner_system n thr Qt d of
        Inl e \<Rightarrow> Inl e
      | Inr (p', c) \<Rightarrow> measurements_loop s2w p' rest n thr Qt d (weight * c))"

fun particles_loop ::
  "(state3 \<Rightarrow> vec2 \<Rightarrow> vec2) \<Rightarrow> particle list \<Rightarrow> (vec2 \<times> vec2) list \<Rightarrow> real \<Rightarrow> mat2 \<Rightarrow> real
     \<Rightarrow> error + (particle list \<times> real list)" where
  "particles_loop s2w [] cylinders thr Qt d = Inr ([], [])"
| "particles_loop s2w (p # ps) cylinders thr Qt d =
     (case measurements_loop s2w p cylinders (number_of_landmarks p) thr Qt d 1 of
        Inl e \<Rightarrow> Inl e
      | Inr (p', weight) \<Rightarrow>
          (case particles_loop s2w ps cylinders thr Qt d of
             Inl e \<Rightarrow> Inl e
           | Inr (ps', weights) \<Rightarrow> Inr (p' # ps', weight # weights)))"

text \<open>\<^verbatim>\<open>FastSLAM.update_and_compute_weights\<close>. The source passes the module-level name
  \<^verbatim>\<open>scanner_displacement\<close> to \<^verbatim>\<open>update_particle\<close>, not the attribute of the filter: it is
  the parameter \<open>scanner_displacement_global\<close> here. The result is the list of particles
  after the updates (the source mutates them in place) and the list of weights.\<close>

definition update_and_compute_weights ::
  "(state3 \<Rightarrow> vec2 \<Rightarrow> vec2) \<Rightarrow> real \<Rightarrow> fastslam \<Rightarrow> (vec2 \<times> vec2) list
     \<Rightarrow> error + (particle list \<times> real list)" where
  "update_and_compute_weights s2w scanner_displacement_global fs cylinders =
     (let Qt_measurement_covariance =
            diag2 ((measurement_distance_stddev fs)\<^sup>2) ((measurement_angle_stddev fs)\<^sup>2)
      in particles_loop s2w (particles fs) cylinders
           (minimum_correspondence_likelihood fs) Qt_measurement_covariance
           scanner_displacement_global)"

text \<open>\<^verbatim>\<open>FastSLAM.predict\<close>. \<^verbatim>\<open>random.gauss(mu, sigma)\<close> is \<^verbatim>\<open>mu + z * sigma\<close> for a standard
  normal variate \<^verbatim>\<open>z\<close>; the variates drawn are the parameter \<open>zs\<close>, two for each
  particle.\<close>

fun predict_loop ::
  "particle list \<Rightarrow> nat \<Rightarrow> real \<Rightarrow> real \<Rightarrow> real \<Rightarrow> real \<Rightarrow> real \<Rightarrow> (nat \<Rightarrow> real)
     \<Rightarrow> error + particle list" where
  "predict_loop [] k left left_std right right_std w zs = Inr []"
| "predict_loop (p # ps) k left left_std right right_std w zs =
     (let l = left + zs (2 * k) * left_std;
          r = right + zs (2 * k + 1) * right_std
      in case move p l r w of
           Inl e \<Rightarrow> Inl e
         | Inr p' \<Rightarrow>
             (case predict_loop ps (Suc k) left left_std right right_std w zs of
                Inl e \<Rightarrow> Inl e
              | Inr ps' \<Rightarrow> Inr (p' # ps')))"

definition predict :: "fastslam \<Rightarrow> real \<times> real \<Rightarrow> (nat \<Rightarrow> real) \<Rightarrow> error + fastslam" where
  "predict fs control zs =
     (case control of (left, right) \<Rightarrow>
      let left_std = sqrt ((control_motion_factor fs * left)\<^sup>2
                           + (control_turn_factor fs * (left - right))\<^sup>2);
          right_std = sqrt ((control_motion_factor fs * right)\<^sup>2
                            + (control_turn_factor fs * (left - right))\<^sup>2)
      in case predict_loop (particles fs) 0 left left_std right right_std
                (robot_width fs) zs of
           Inl e \<Rightarrow> Inl e
         | Inr ps' \<Rightarrow> Inr (fs\<lparr>particles := ps'\<rparr>))"

text \<open>The inner \<^verbatim>\<open>while\<close> loop of \<^verbatim>\<open>FastSLAM.resample\<close>. Nothing in the loop bounds the
  number of its iterations, so its result is an option: \<open>None\<close> is a loop that never
  ends.\<close>

partial_function (option) wheel ::
  "real list \<Rightarrow> real \<Rightarrow> nat \<Rightarrow> (error + real \<times> nat) option" where
  "wheel weights offset index =
     (if index < length weights then
        (if offset > weights ! index
         then wheel weights (offset - weights ! index) ((index + 1) mod length weights)
         else Some (Inr (offset, index)))
      else Some (Inl IndexError))"

text \<open>\<^verbatim>\<open>random.uniform(a, b)\<close> is \<^verbatim>\<open>a + (b - a) * random()\<close>.\<close>

definition uniform :: "real \<Rightarrow> real \<Rightarrow> real \<Rightarrow> real" where
  "uniform a b u = a + (b - a) * u"

text \<open>The \<^verbatim>\<open>for\<close> loop of \<^verbatim>\<open>FastSLAM.resample\<close>. The particles are of any type \<open>'p\<close>, and
  \<open>copy\<close> is \<^verbatim>\<open>copy.deepcopy\<close> on that type, threading a store \<open>'s\<close>: the same loop is run
  on particles as values, where a copy is the value itself, and on particles as objects of a
  heap, where a copy allocates. \<open>us\<close> are the results of \<^verbatim>\<open>random()\<close>, one for each
  iteration.\<close>

fun resample_loop ::
  "('s \<Rightarrow> 'p \<Rightarrow> error + 's \<times> 'p) \<Rightarrow> 'p list \<Rightarrow> real list \<Rightarrow> real \<Rightarrow> (nat \<Rightarrow> real) \<Rightarrow> nat list
     \<Rightarrow> real \<Rightarrow> nat \<Rightarrow> 's \<Rightarrow> 'p list \<Rightarrow> (error + 's \<times> 'p list) option" where
  "resample_loop copy ps weights max_weight us [] offset index s new_particles =
     Some (Inr (s, new_particles))"
| "resample_loop copy ps weights max_weight us (i # is) offset index s new_particles =
     (case wheel weights (offset + uniform 0 (2 * max_weight) (us i)) index of
        None \<Rightarrow> None
      | Some (Inl e) \<Rightarrow> Some (Inl e)
      | Some (Inr (offset', index')) \<Rightarrow>
          (case nth_e ps index' of
             Inl e \<Rightarrow> Some (Inl e)
           | Inr p \<Rightarrow>
               (case copy s p of
                  Inl e \<Rightarrow> Some (Inl e)
                | Inr (s', q) \<Rightarrow>
                    resample_loop copy ps weights max_weight us is offset' index' s'
                      (new_particles @ [q]))))"

text \<open>\<^verbatim>\<open>FastSLAM.resample\<close>: \<open>start\<close> is the result of
  \<^verbatim>\<open>random.randint(0, len(self.particles) - 1)\<close>.\<close>

definition resample_with ::
  "('s \<Rightarrow> 'p \<Rightarrow> error + 's \<times> 'p) \<Rightarrow> 's \<Rightarrow> 'p list \<Rightarrow> real list \<Rightarrow> nat \<Rightarrow> (nat \<Rightarrow> real)
     \<Rightarrow> (error + 's \<times> 'p list) option" where
  "resample_with copy s ps weights start us =
     (case py_max weights of
        Inl e \<Rightarrow> Some (Inl e)
      | Inr max_weight \<Rightarrow>
          resample_loop copy ps weights max_weight us [0..<length ps] 0 start s [])"

text \<open>On particles as values the copy of a particle is the particle.\<close>

definition copy_value :: "unit \<Rightarrow> particle \<Rightarrow> error + unit \<times> particle" where
  "copy_value s p = Inr (s, p)"

definition resample ::
  "particle list \<Rightarrow> real list \<Rightarrow> nat \<Rightarrow> (nat \<Rightarrow> real) \<Rightarrow> (error + particle list) option" where
  "resample ps weights start us =
     map_option (map_sum id snd) (resample_with copy_value () ps weights start us)"

text \<open>\<^verbatim>\<open>FastSLAM.correct\<close>: the weights are computed on the particles, which are updated
  in place, and the updated particles are resampled.\<close>

definition correct ::
  "(state3 \<Rightarrow> vec2 \<Rightarrow> vec2) \<Rightarrow> real \<Rightarrow> fastslam \<Rightarrow> (vec2 \<times> vec2) list \<Rightarrow> nat \<Rightarrow> (nat \<Rightarrow> real)
     \<Rightarrow> (error + fastslam) option" where
  "correct s2w scanner_displacement_global fs cylinders start us =
     (case update_and_compute_weights s2w scanner_displacement_global fs cylinders of
        Inl e \<Rightarrow> Some (Inl e)
      | Inr (ps', weights) \<Rightarrow>
          (case resample ps' weights start us of
             None \<Rightarrow> None
           | Some (Inl e) \<Rightarrow> Some (Inl e)
           | Some (Inr new_particles) \<Rightarrow> Some (Inr (fs\<lparr>particles := new_particles\<rparr>))))"

section \<open>Particles as objects: the store and \<^verbatim>\<open>copy.deepcopy\<close>\<close>

text \<open>
  For the claims about aliasing the particles are objects in a store. An address is an
  index into the store, and allocation appends. A \<^verbatim>\<open>Particle\<close> instance holds three
  references (pose, \<^verbatim>\<open>landmark_positions\<close>, \<^verbatim>\<open>landmark_covariances\<close>); a list holds
  references to its elements; the elements and the pose are numpy arrays, which are mutable,
  or tuples of floats, which are not.
\<close>

type_synonym addr = nat

datatype pyobj =
    Ndarray "real list"
  | Tuple "real list"
  | PyList "addr list"
  | Instance addr addr addr

type_synonym heap = "pyobj list"
type_synonym memo = "addr \<Rightarrow> addr option"

text \<open>\<^verbatim>\<open>copy.deepcopy(x, memo)\<close> on an array or a tuple of floats. An object that is in the
  memo is not copied again; an array is copied to a new object; a tuple of floats is
  returned as it is.\<close>

definition deepcopy_leaf :: "heap \<Rightarrow> memo \<Rightarrow> addr \<Rightarrow> error + heap \<times> memo \<times> addr" where
  "deepcopy_leaf hp memo x =
     (case memo x of
        Some y \<Rightarrow> Inr (hp, memo, y)
      | None \<Rightarrow>
          (case nth_e hp x of
             Inl e \<Rightarrow> Inl HeapShapeError
           | Inr (Ndarray v) \<Rightarrow> Inr (hp @ [Ndarray v], memo(x \<mapsto> length hp), length hp)
           | Inr (Tuple v) \<Rightarrow> Inr (hp, memo(x \<mapsto> x), x)
           | Inr (PyList es) \<Rightarrow> Inl HeapShapeError
           | Inr (Instance a b c) \<Rightarrow> Inl HeapShapeError))"

fun deepcopy_elements :: "heap \<Rightarrow> memo \<Rightarrow> addr list \<Rightarrow> error + heap \<times> memo \<times> addr list" where
  "deepcopy_elements hp memo [] = Inr (hp, memo, [])"
| "deepcopy_elements hp memo (a # as) =
     (case deepcopy_leaf hp memo a of
        Inl e \<Rightarrow> Inl e
      | Inr (hp1, memo1, a') \<Rightarrow>
          (case deepcopy_elements hp1 memo1 as of
             Inl e \<Rightarrow> Inl e
           | Inr (hp2, memo2, as') \<Rightarrow> Inr (hp2, memo2, a' # as')))"

text \<open>\<^verbatim>\<open>copy.deepcopy(x, memo)\<close> on a list of arrays and tuples: a new list of the copies of
  the elements.\<close>

definition deepcopy_list :: "heap \<Rightarrow> memo \<Rightarrow> addr \<Rightarrow> error + heap \<times> memo \<times> addr" where
  "deepcopy_list hp memo x =
     (case memo x of
        Some y \<Rightarrow> Inr (hp, memo, y)
      | None \<Rightarrow>
          (case nth_e hp x of
             Inr (PyList es) \<Rightarrow>
               (case deepcopy_elements hp memo es of
                  Inl e \<Rightarrow> Inl e
                | Inr (hp1, memo1, es') \<Rightarrow>
                    Inr (hp1 @ [PyList es'], memo1(x \<mapsto> length hp1), length hp1))
           | _ \<Rightarrow> Inl HeapShapeError))"

text \<open>\<^verbatim>\<open>copy.deepcopy(p)\<close> on a \<^verbatim>\<open>Particle\<close> instance, with a memo that starts empty: a new
  instance whose three attributes are the deep copies of the attributes of \<^verbatim>\<open>p\<close>.\<close>

definition deepcopy_particle :: "heap \<Rightarrow> addr \<Rightarrow> error + heap \<times> addr" where
  "deepcopy_particle hp x =
     (case nth_e hp x of
        Inr (Instance ap al ac) \<Rightarrow>
          (case deepcopy_leaf hp Map.empty ap of
             Inl e \<Rightarrow> Inl e
           | Inr (hp1, memo1, ap') \<Rightarrow>
               (case deepcopy_list hp1 memo1 al of
                  Inl e \<Rightarrow> Inl e
                | Inr (hp2, memo2, al') \<Rightarrow>
                    (case deepcopy_list hp2 memo2 ac of
                       Inl e \<Rightarrow> Inl e
                     | Inr (hp3, memo3, ac') \<Rightarrow>
                         Inr (hp3 @ [Instance ap' al' ac'], length hp3))))
      | _ \<Rightarrow> Inl HeapShapeError)"

text \<open>\<^verbatim>\<open>FastSLAM.resample\<close> on particles in the store.\<close>

definition resample_heap ::
  "heap \<Rightarrow> addr list \<Rightarrow> real list \<Rightarrow> nat \<Rightarrow> (nat \<Rightarrow> real) \<Rightarrow> (error + heap \<times> addr list) option"
  where
  "resample_heap hp ps weights start us =
     resample_with deepcopy_particle hp ps weights start us"

text \<open>What a particle in the store holds: the numbers of its pose, of each landmark position
  and of each landmark covariance; \<open>None\<close> when the references do not lead to objects of
  these kinds.\<close>

definition leaf_value :: "heap \<Rightarrow> addr \<Rightarrow> real list option" where
  "leaf_value hp a =
     (case nth_e hp a of
        Inr (Ndarray v) \<Rightarrow> Some v
      | Inr (Tuple v) \<Rightarrow> Some v
      | _ \<Rightarrow> None)"

definition list_elements :: "heap \<Rightarrow> addr \<Rightarrow> addr list" where
  "list_elements hp a = (case nth_e hp a of Inr (PyList es) \<Rightarrow> es | _ \<Rightarrow> [])"

definition list_value :: "heap \<Rightarrow> addr \<Rightarrow> real list list option" where
  "list_value hp a =
     (case nth_e hp a of
        Inr (PyList es) \<Rightarrow> those (map (leaf_value hp) es)
      | _ \<Rightarrow> None)"

definition particle_value ::
  "heap \<Rightarrow> addr \<Rightarrow> (real list \<times> real list list \<times> real list list) option" where
  "particle_value hp x =
     (case nth_e hp x of
        Inr (Instance ap al ac) \<Rightarrow>
          (case leaf_value hp ap of
             None \<Rightarrow> None
           | Some pv \<Rightarrow>
               (case list_value hp al of
                  None \<Rightarrow> None
                | Some lv \<Rightarrow>
                    (case list_value hp ac of
                       None \<Rightarrow> None
                     | Some cv \<Rightarrow> Some (pv, lv, cv))))
      | _ \<Rightarrow> None)"

text \<open>The objects a particle leads to: the instance, its pose, its two lists and their
  elements; and those of them that can be mutated, which is all but the tuples.\<close>

definition refs :: "heap \<Rightarrow> addr \<Rightarrow> addr list" where
  "refs hp x =
     (case nth_e hp x of
        Inr (Instance ap al ac) \<Rightarrow>
          x # ap # al # ac # list_elements hp al @ list_elements hp ac
      | _ \<Rightarrow> [x])"

definition is_tuple :: "heap \<Rightarrow> addr \<Rightarrow> bool" where
  "is_tuple hp a = (case nth_e hp a of Inr (Tuple v) \<Rightarrow> True | _ \<Rightarrow> False)"

definition mutable_refs :: "heap \<Rightarrow> addr \<Rightarrow> addr list" where
  "mutable_refs hp x = filter (\<lambda>a. \<not> is_tuple hp a) (refs hp x)"

text \<open>The relation between an object \<open>a\<close> of the store as it was when a deep copy began
  (its first \<open>n0\<close> objects) and its copy \<open>y\<close>: an array has a new array with the same
  numbers, a tuple has itself, a list has a new list whose elements are the copies of its
  elements. A memo is in order when each of its entries is such a pair.\<close>

definition copy_ok_leaf :: "nat \<Rightarrow> heap \<Rightarrow> addr \<Rightarrow> addr \<Rightarrow> bool" where
  "copy_ok_leaf n0 hp a y \<longleftrightarrow>
     a < n0 \<and> n0 \<le> length hp \<and> y < length hp
     \<and> (case hp ! a of
           Ndarray v \<Rightarrow> hp ! y = Ndarray v \<and> n0 \<le> y
         | Tuple v \<Rightarrow> y = a
         | PyList es \<Rightarrow> False
         | Instance b c d \<Rightarrow> False)"

definition copy_ok :: "nat \<Rightarrow> heap \<Rightarrow> addr \<Rightarrow> addr \<Rightarrow> bool" where
  "copy_ok n0 hp a y \<longleftrightarrow>
     a < n0 \<and> n0 \<le> length hp \<and> y < length hp
     \<and> (case hp ! a of
           Ndarray v \<Rightarrow> hp ! y = Ndarray v \<and> n0 \<le> y
         | Tuple v \<Rightarrow> y = a
         | PyList es \<Rightarrow>
             n0 \<le> y
             \<and> (\<exists>es'. hp ! y = PyList es' \<and> length es' = length es
                      \<and> (\<forall>i<length es. copy_ok_leaf n0 hp (es ! i) (es' ! i)))
         | Instance b c d \<Rightarrow> False)"

definition memo_ok :: "nat \<Rightarrow> heap \<Rightarrow> memo \<Rightarrow> bool" where
  "memo_ok n0 hp memo \<longleftrightarrow> (\<forall>a y. memo a = Some y \<longrightarrow> copy_ok n0 hp a y)"

section \<open>Example states\<close>

text \<open>Concrete inputs at which the theorems below are instantiated. A particle at the origin
  with heading 0 and one landmark at (1, 0) with the unit covariance.\<close>

definition particle_one_landmark :: particle where
  "particle_one_landmark =
     \<lparr>pose = (0, 0, 0), landmark_positions = [Num (1, 0)],
      landmark_covariances = [Num eye2]\<rparr>"

text \<open>A filter that holds this one particle, with unit measurement deviations and the
  threshold 1/100.\<close>

definition filter_one_particle :: fastslam where
  "filter_one_particle =
     \<lparr>particles = [particle_one_landmark], robot_width = 1, scanner_displacement = 0,
      control_motion_factor = 0, control_turn_factor = 0,
      measurement_distance_stddev = 1, measurement_angle_stddev = 1,
      minimum_correspondence_likelihood = 1 / 100\<rparr>"

text \<open>The particle after the observation (1, 0) has updated its landmark.\<close>

definition particle_one_landmark_updated :: particle where
  "particle_one_landmark_updated =
     \<lparr>pose = (0, 0, 0), landmark_positions = [Num (1, 0)],
      landmark_covariances = [Num ((1 / 2, 0), (0, 1 / 2))]\<rparr>"

text \<open>A particle at the origin with no landmark, a filter that holds it, and the particle
  after it has seen the same observation twice in one correction step.\<close>

definition particle_empty :: particle where
  "particle_empty = \<lparr>pose = (0, 0, 0), landmark_positions = [], landmark_covariances = []\<rparr>"

definition filter_empty_particle :: fastslam where
  "filter_empty_particle =
     \<lparr>particles = [particle_empty], robot_width = 1, scanner_displacement = 0,
      control_motion_factor = 0, control_turn_factor = 0,
      measurement_distance_stddev = 1, measurement_angle_stddev = 1,
      minimum_correspondence_likelihood = 1 / 100\<rparr>"

definition particle_two_new :: particle where
  "particle_two_new =
     \<lparr>pose = (0, 0, 0), landmark_positions = [Num (1, 0), Num (1, 0)],
      landmark_covariances = [Num (diag2 1 1), Num (diag2 1 1)]\<rparr>"

text \<open>A particle at the origin with heading 0 whose one landmark lies behind it, at
  (-1, 0), and a particle whose landmark at (1, 0) has a covariance with correlated
  coordinates.\<close>

definition particle_landmark_behind :: particle where
  "particle_landmark_behind =
     \<lparr>pose = (0, 0, 0), landmark_positions = [Num (- 1, 0)],
      landmark_covariances = [Num eye2]\<rparr>"

definition particle_correlated :: particle where
  "particle_correlated =
     \<lparr>pose = (0, 0, 0), landmark_positions = [Num (1, 0)],
      landmark_covariances = [Num ((2, 1), (1, 2))]\<rparr>"

text \<open>The particle with the landmark behind it, after \<^verbatim>\<open>update_landmark\<close> with the
  measurement (1, \<open>\<pi>\<close>/2).\<close>

definition particle_landmark_behind_updated :: particle where
  "particle_landmark_behind_updated =
     \<lparr>pose = (0, 0, 0), landmark_positions = [Num (- 1, - (3 * pi / 4))],
      landmark_covariances = [Num ((1 / 2, 0), (0, 1 / 2))]\<rparr>"

text \<open>A particle at the origin with heading 0 whose one landmark lies on the scanner, at
  (0, 0), with the unit covariance; a filter that holds it; the particle after
  \<^verbatim>\<open>update_landmark\<close> has overwritten the landmark, whose position and covariance are
  nan; and the particle without landmarks after it has initialised a landmark from a
  measurement at the scanner itself.\<close>

definition particle_landmark_on_scanner :: particle where
  "particle_landmark_on_scanner =
     \<lparr>pose = (0, 0, 0), landmark_positions = [Num (0, 0)],
      landmark_covariances = [Num eye2]\<rparr>"

definition filter_landmark_on_scanner :: fastslam where
  "filter_landmark_on_scanner =
     \<lparr>particles = [particle_landmark_on_scanner], robot_width = 1,
      scanner_displacement = 0, control_motion_factor = 0, control_turn_factor = 0,
      measurement_distance_stddev = 1, measurement_angle_stddev = 1,
      minimum_correspondence_likelihood = 1 / 100\<rparr>"

definition particle_landmark_nan :: particle where
  "particle_landmark_nan =
     \<lparr>pose = (0, 0, 0), landmark_positions = [NaN], landmark_covariances = [NaN]\<rparr>"

definition particle_covariance_nan :: particle where
  "particle_covariance_nan =
     \<lparr>pose = (0, 0, 0), landmark_positions = [Num (0, 0)],
      landmark_covariances = [NaN]\<rparr>"

text \<open>A source of random numbers that always returns 0.\<close>

definition draws_zero :: "nat \<Rightarrow> real" where
  "draws_zero i = 0"

text \<open>A filter with measurement deviations 0 that holds the particle without landmarks,
  and the particle after one correction step of this filter with the observation (1, 0):
  its landmark has the zero covariance.\<close>

definition filter_exact_sensor :: fastslam where
  "filter_exact_sensor =
     \<lparr>particles = [particle_empty], robot_width = 1, scanner_displacement = 0,
      control_motion_factor = 0, control_turn_factor = 0,
      measurement_distance_stddev = 0, measurement_angle_stddev = 0,
      minimum_correspondence_likelihood = 1 / 100\<rparr>"

definition particle_zero_covariance :: particle where
  "particle_zero_covariance =
     \<lparr>pose = (0, 0, 0), landmark_positions = [Num (1, 0)],
      landmark_covariances = [Num ((0, 0), (0, 0))]\<rparr>"

text \<open>A store with two particles. The particle at address 5 has the pose array at 0, the
  list of positions at 1 (one tuple, at 3) and the list of covariances at 2 (one array, at
  4). The particle at address 9 has the pose array at 6 and two empty lists.\<close>

definition store_two_particles :: heap where
  "store_two_particles =
     [Ndarray [0, 0, 0], PyList [3], PyList [4], Tuple [1, 0], Ndarray [1, 0, 0, 1],
      Instance 0 1 2,
      Ndarray [1, 1, 1], PyList [], PyList [], Instance 6 7 8]"

text \<open>The store after both output particles of a resampling have been copied from the
  particle at address 5: the copies are the instances at 14 and 19.\<close>

definition store_resampled :: heap where
  "store_resampled =
     store_two_particles @
     [Ndarray [0, 0, 0], PyList [3], Ndarray [1, 0, 0, 1], PyList [12], Instance 10 11 13,
      Ndarray [0, 0, 0], PyList [3], Ndarray [1, 0, 0, 1], PyList [17], Instance 15 16 18]"

section \<open>Results\<close>

lemma fmod_range:
  assumes "0 < m"
  shows "0 \<le> fmod x m" and "fmod x m < m"
proof -
  have "of_int \<lfloor>x / m\<rfloor> * m \<le> (x / m) * m"
    using assms by (intro mult_right_mono) auto
  with assms show "0 \<le> fmod x m"
    by (simp add: fmod_def mult.commute)
  have "(x / m) * m < (of_int \<lfloor>x / m\<rfloor> + 1) * m"
    using assms by (intro mult_strict_right_mono) linarith+
  with assms show "fmod x m < m"
    by (simp add: fmod_def algebra_simps)
qed

subsection \<open>The heading returned by the motion model\<close>

text \<open>
  C4 (as the claim states it, refuted). The claim: for every pose and control the heading
  returned by \<^verbatim>\<open>Particle.g\<close> lies in the interval from \<open>-\<pi>\<close> (excluded) to \<open>\<pi>\<close>
  (included), in both branches. In the straight branch the heading is returned as it came:
  a pose with heading 4 and the control (1, 1) give heading 4, which is greater than \<open>\<pi>\<close>.
  In the arc branch the heading 0 turned by \<open>\<pi>\<close> gives \<open>-\<pi>\<close>, which the interval excludes.
\<close>

theorem g_heading_counterexample:
  "g (0, 0, 4) (1, 1) 1 = Inr (cos 4, sin 4, 4) \<and> \<not> (4 \<le> pi)
   \<and> g (0, 0, 0) (0, pi) 1 = Inr (0, 1, - pi) \<and> \<not> (- pi < - pi)"
proof -
  have "g (0, 0, 4) (1, 1) 1 = Inr (cos 4, sin 4, 4)"
    by (simp add: g_def)
  moreover have "\<not> (4 \<le> pi)"
    using pi_less_4 by simp
  moreover have "g (0, 0, 0) (0, pi) 1 = Inr (0, 1, - pi)"
    by (simp add: g_def Let_def fmod_def)
  ultimately show ?thesis by simp
qed

text \<open>
  C4 (amended). Whenever the controls are equal or the width is not zero, \<^verbatim>\<open>Particle.g\<close>
  returns a pose. In the arc branch (left and right differ) its heading lies in the interval
  from \<open>-\<pi>\<close> (included) to \<open>\<pi>\<close> (excluded); in the straight branch (left equals right) its
  heading is the heading of the input pose, unchanged.
\<close>

theorem g_heading_range:
  assumes "r = l \<or> w \<noteq> 0"
  shows "\<exists>x' y' theta'. g (x, y, theta) (l, r) w = Inr (x', y', theta')
           \<and> (r \<noteq> l \<longrightarrow> - pi \<le> theta' \<and> theta' < pi)
           \<and> (r = l \<longrightarrow> theta' = theta)"
proof (cases "r = l")
  case True
  then show ?thesis by (simp add: g_def)
next
  case False
  with assms have w: "w \<noteq> 0" by simp
  with False have a: "(r - l) / w \<noteq> 0" by simp
  have "0 \<le> fmod (theta + (r - l) / w + pi) (2 * pi)"
    and "fmod (theta + (r - l) / w + pi) (2 * pi) < 2 * pi"
    by (rule fmod_range, simp)+
  with False w a show ?thesis by (simp add: g_def Let_def)
qed

theorem g_heading_range_witness:
  "((3::real) = 1 \<or> (2::real) \<noteq> 0)
   \<and> (\<exists>x' y' theta'. g (0, 0, 0) (1, 3) 2 = Inr (x', y', theta')
         \<and> ((3::real) \<noteq> 1 \<longrightarrow> - pi \<le> theta' \<and> theta' < pi)
         \<and> ((3::real) = 1 \<longrightarrow> theta' = 0))"
  using g_heading_range [of 3 1 2 0 0 0] by simp

subsection \<open>Facts about the loops and the likelihood\<close>

lemma fp1_eq_Num: "fp1 f x = Num y \<longleftrightarrow> (\<exists>v. x = Num v \<and> f v = y)"
  by (cases x) auto

lemma fp2_eq_Num:
  "fp2 f x y = Num z \<longleftrightarrow> (\<exists>u v. x = Num u \<and> y = Num v \<and> f u v = z)"
  by (cases x; cases y) auto

lemma foldl_max_Max:
  "foldl (\<lambda>m y. if y > m then y else m) (x::real) xs = Max (insert x (set xs))"
proof (induction xs arbitrary: x)
  case Nil
  then show ?case by simp
next
  case (Cons a xs)
  have "Max (insert x (insert a (set xs))) = Max (insert (max x a) (set xs))"
  proof (cases "set xs = {}")
    case True
    then show ?thesis by simp
  next
    case False
    then show ?thesis by (simp add: max.assoc)
  qed
  moreover have "(if a > x then a else x) = max x a" by (simp add: max_def)
  ultimately show ?case using Cons.IH [of "max x a"] by simp
qed

lemma py_max_Max: "xs \<noteq> [] \<Longrightarrow> py_max xs = Inr (Max (set xs))"
  by (cases xs) (simp_all add: foldl_max_Max)

lemma foldl_max_fp_Num:
  "foldl (\<lambda>m y. if fp_gt y m then y else m) (Num x) (map Num xs)
     = Num (foldl (\<lambda>m y. if y > m then y else m) x xs)"
  by (induction xs arbitrary: x) simp_all

lemma py_max_fp_Num: "xs \<noteq> [] \<Longrightarrow> py_max_fp (map Num xs) = Inr (Num (Max (set xs)))"
  by (cases xs) (simp_all add: foldl_max_fp_Num foldl_max_Max)

lemma py_max_fp_nonempty: "ls \<noteq> [] \<Longrightarrow> \<exists>m. py_max_fp ls = Inr m"
  by (cases ls) simp_all

lemma wl_likelihood_positive:
  assumes "wl_likelihood_of_correspondence p z n Qt d = Inr (Num l)"
  shows "0 < l"
proof -
  from assms obtain dz Ql Qi where
    det: "\<not> linalg_det Ql < 0" "2 * pi * sqrt (linalg_det Ql) \<noteq> 0"
    and l: "l = 1 / (2 * pi * sqrt (linalg_det Ql))
                * exp (dot_vv (dot_vm (vec_scale (- 0.5) dz) Qi) dz)"
    by (auto simp: wl_likelihood_of_correspondence_def fp1_eq_Num
        split: sum.splits if_splits prod.splits fp.splits)
  from det have "0 < linalg_det Ql" by (cases "linalg_det Ql = 0") auto
  then have "0 < 2 * pi * sqrt (linalg_det Ql)" by simp
  then show ?thesis unfolding l by simp
qed

lemma likelihoods_loop_spec:
  assumes "likelihoods_loop p z is Qt d = Inr ls"
  shows "length ls = length is
         \<and> (\<forall>k<length is. wl_likelihood_of_correspondence p z (is ! k) Qt d = Inr (ls ! k))"
  using assms
proof (induction "is" arbitrary: ls)
  case Nil
  then show ?case by simp
next
  case (Cons i "is")
  from Cons.prems obtain l ls' where
    l: "wl_likelihood_of_correspondence p z i Qt d = Inr l"
    and ls': "likelihoods_loop p z is Qt d = Inr ls'"
    and ls: "ls = l # ls'"
    by (auto split: sum.splits)
  from Cons.IH [OF ls'] have IH: "length ls' = length is"
    "\<forall>k<length is. wl_likelihood_of_correspondence p z (is ! k) Qt d = Inr (ls' ! k)"
    by simp_all
  show ?case
  proof (intro conjI allI impI)
    show "length ls = length (i # is)" using IH(1) ls by simp
  next
    fix k assume "k < length (i # is)"
    then show "wl_likelihood_of_correspondence p z ((i # is) ! k) Qt d = Inr (ls ! k)"
      using l IH ls by (cases k) simp_all
  qed
qed

lemma compute_correspondence_likelihoods_spec:
  assumes "compute_correspondence_likelihoods p z N Qt d = Inr ls"
  shows "length ls = N"
    and "\<And>k. k < N \<Longrightarrow> wl_likelihood_of_correspondence p z k Qt d = Inr (ls ! k)"
  using likelihoods_loop_spec [of p z "[0..<N]" Qt d ls] assms
  by (simp_all add: compute_correspondence_likelihoods_def)

lemma argmax_loop_rel:
  assumes "argmax_loop (enumerate n xs) w i = (w', i')"
  shows "(\<forall>x. Num x \<in> set xs \<longrightarrow> x \<le> w) \<and> w' = w \<and> i' = i
         \<or> (w < w' \<and> n \<le> i' \<and> i' < n + length xs \<and> xs ! (i' - n) = Num w'
             \<and> (\<forall>x. Num x \<in> set xs \<longrightarrow> x \<le> w')
             \<and> (\<forall>j<i' - n. \<forall>x. xs ! j = Num x \<longrightarrow> x < w'))"
  using assms
proof (induction xs arbitrary: n w i)
  case Nil
  then show ?case by simp
next
  case (Cons y xs)
  show ?case
  proof (cases "\<exists>x. y = Num x \<and> x > w")
    case True
    then obtain x where y: "y = Num x" and gt: "x > w" by blast
    with Cons.prems have rec: "argmax_loop (enumerate (Suc n) xs) x n = (w', i')"
      by simp
    from Cons.IH [OF rec] show ?thesis
    proof
      assume a: "(\<forall>v. Num v \<in> set xs \<longrightarrow> v \<le> x) \<and> w' = x \<and> i' = n"
      with y gt show ?thesis by auto
    next
      assume "x < w' \<and> Suc n \<le> i' \<and> i' < Suc n + length xs
             \<and> xs ! (i' - Suc n) = Num w'
             \<and> (\<forall>v. Num v \<in> set xs \<longrightarrow> v \<le> w')
             \<and> (\<forall>j<i' - Suc n. \<forall>v. xs ! j = Num v \<longrightarrow> v < w')"
      then have a: "x < w'" "Suc n \<le> i'" "i' < Suc n + length xs"
        "xs ! (i' - Suc n) = Num w'" "\<forall>v. Num v \<in> set xs \<longrightarrow> v \<le> w'"
        "\<forall>j<i' - Suc n. \<forall>v. xs ! j = Num v \<longrightarrow> v < w'"
        by simp_all
      from a(2) have s: "i' - n = Suc (i' - Suc n)" by arith
      have before: "\<forall>j<i' - n. \<forall>v. (y # xs) ! j = Num v \<longrightarrow> v < w'"
      proof (intro allI impI)
        fix j v assume j: "j < i' - n" and v: "(y # xs) ! j = Num v"
        show "v < w'"
        proof (cases j)
          case 0
          with v y a(1) show ?thesis by simp
        next
          case (Suc j')
          with j s have "j' < i' - Suc n" by simp
          moreover from v Suc have "xs ! j' = Num v" by simp
          ultimately show ?thesis using a(6) by blast
        qed
      qed
      have "\<forall>v. Num v \<in> set (y # xs) \<longrightarrow> v \<le> w'" using a(1,5) y by auto
      moreover have "(y # xs) ! (i' - n) = Num w'" using a(4) s by simp
      moreover have "w < w'" using gt a(1) by simp
      moreover have "n \<le> i'" "i' < n + length (y # xs)" using a(2,3) by simp_all
      ultimately show ?thesis using before by blast
    qed
  next
    case False
    then have skip: "\<forall>x. y = Num x \<longrightarrow> x \<le> w" by auto
    from False Cons.prems have rec: "argmax_loop (enumerate (Suc n) xs) w i = (w', i')"
      by (cases y) simp_all
    from Cons.IH [OF rec] show ?thesis
    proof
      assume a: "(\<forall>v. Num v \<in> set xs \<longrightarrow> v \<le> w) \<and> w' = w \<and> i' = i"
      with skip show ?thesis by auto
    next
      assume "w < w' \<and> Suc n \<le> i' \<and> i' < Suc n + length xs
             \<and> xs ! (i' - Suc n) = Num w'
             \<and> (\<forall>v. Num v \<in> set xs \<longrightarrow> v \<le> w')
             \<and> (\<forall>j<i' - Suc n. \<forall>v. xs ! j = Num v \<longrightarrow> v < w')"
      then have a: "w < w'" "Suc n \<le> i'" "i' < Suc n + length xs"
        "xs ! (i' - Suc n) = Num w'" "\<forall>v. Num v \<in> set xs \<longrightarrow> v \<le> w'"
        "\<forall>j<i' - Suc n. \<forall>v. xs ! j = Num v \<longrightarrow> v < w'"
        by simp_all
      from a(2) have s: "i' - n = Suc (i' - Suc n)" by arith
      have before: "\<forall>j<i' - n. \<forall>v. (y # xs) ! j = Num v \<longrightarrow> v < w'"
      proof (intro allI impI)
        fix j v assume j: "j < i' - n" and v: "(y # xs) ! j = Num v"
        show "v < w'"
        proof (cases j)
          case 0
          with v skip have "v \<le> w" by simp
          with a(1) show ?thesis by simp
        next
          case (Suc j')
          with j s have "j' < i' - Suc n" by simp
          moreover from v Suc have "xs ! j' = Num v" by simp
          ultimately show ?thesis using a(6) by blast
        qed
      qed
      have "\<forall>v. Num v \<in> set (y # xs) \<longrightarrow> v \<le> w'"
      proof (intro allI impI)
        fix v assume "Num v \<in> set (y # xs)"
        then have "y = Num v \<or> Num v \<in> set xs" by auto
        then show "v \<le> w'"
        proof
          assume "y = Num v"
          with skip have "v \<le> w" by simp
          with a(1) show ?thesis by simp
        next
          assume "Num v \<in> set xs"
          with a(5) show ?thesis by simp
        qed
      qed
      moreover have "(y # xs) ! (i' - n) = Num w'" using a(4) s by simp
      moreover have "n \<le> i'" "i' < n + length (y # xs)" using a(2,3) by simp_all
      ultimately show ?thesis using before a(1) by blast
    qed
  qed
qed

lemma argmax_loop_positive:
  assumes "xs \<noteq> []" and "\<forall>x\<in>set xs. 0 < x"
    and "argmax_loop (enumerate 0 (map Num xs)) 0 0 = (w', i')"
  shows "w' = Max (set xs) \<and> i' < length xs \<and> xs ! i' = w' \<and> (\<forall>j<i'. xs ! j < w')"
proof -
  from assms(1,2) have "\<not> (\<forall>x. Num x \<in> set (map Num xs) \<longrightarrow> x \<le> 0)"
    by (cases xs) (auto simp: not_le)
  with argmax_loop_rel [OF assms(3)] have
    r: "i' < length xs" "map Num xs ! i' = Num w'"
      "\<forall>x. Num x \<in> set (map Num xs) \<longrightarrow> x \<le> w'"
      "\<forall>j<i'. \<forall>x. map Num xs ! j = Num x \<longrightarrow> x < w'"
    by auto
  from r(1,2) have at: "xs ! i' = w'" by simp
  with r(1) have "w' \<in> set xs" by auto
  moreover from r(3) have "\<forall>x\<in>set xs. x \<le> w'" by auto
  ultimately have "Max (set xs) = w'" by (intro Max_eqI) auto
  moreover have "\<forall>j<i'. xs ! j < w'"
  proof (intro allI impI)
    fix j assume "j < i'"
    with r(1,4) show "xs ! j < w'" by simp
  qed
  ultimately show ?thesis using r(1) at by simp
qed

lemma argmax_loop_nonneg:
  assumes "argmax_loop (enumerate 0 xs) 0 0 = (w, k)"
  shows "0 \<le> w"
  using argmax_loop_rel [OF assms] by auto

lemma update_landmark_succeeds:
  assumes "wl_likelihood_of_correspondence p z k Qt d = Inr l"
  shows "\<exists>p'. update_landmark p k z Qt d = Inr p'"
proof -
  from assms obtain dz H Ql where
    dz: "delta_z p z k d = Inr dz"
    and HQ: "H_Ql_jacobian_and_measurement_covariance_for_landmark p k Qt d = Inr (H, Ql)"
    and det: "\<forall>Q. Ql = Num Q \<longrightarrow> \<not> linalg_det Q < 0 \<and> 2 * pi * sqrt (linalg_det Q) \<noteq> 0"
    by (auto simp: wl_likelihood_of_correspondence_def
        split: sum.splits if_splits prod.splits fp.splits)
  have "\<exists>Qi. linalg_inv_fp Ql = Inr Qi"
  proof (cases Ql)
    case NaN
    then show ?thesis by (simp add: linalg_inv_fp_def)
  next
    case (Num Q)
    with det have "linalg_det Q \<noteq> 0" by auto
    with Num show ?thesis by (simp add: linalg_inv_fp_def linalg_inv_def)
  qed
  then obtain Qi where Qi: "linalg_inv_fp Ql = Inr Qi" by blast
  from HQ obtain lm S where
    "nth_e (landmark_positions p) k = Inr lm" "nth_e (landmark_covariances p) k = Inr S"
    by (auto simp: H_Ql_jacobian_and_measurement_covariance_for_landmark_def Let_def
             split: sum.splits)
  with dz HQ Qi show ?thesis by (simp add: update_landmark_def Let_def)
qed

lemma initialize_new_landmark_appends:
  assumes "initialize_new_landmark s2w p zs Qt d = Inr p'"
  shows "\<exists>lm S. p' = p\<lparr>landmark_positions := landmark_positions p @ [lm],
                         landmark_covariances := landmark_covariances p @ [S]\<rparr>"
  using assms
  by (auto simp del: split_paired_Ex simp: initialize_new_landmark_def Let_def
      split: prod.splits sum.splits)

lemma update_landmark_replaces:
  assumes "update_landmark p k z Qt d = Inr p'"
  shows "k < length (landmark_positions p) \<and> k < length (landmark_covariances p)
         \<and> (\<exists>lm S. p' = p\<lparr>landmark_positions := (landmark_positions p)[k := lm],
                            landmark_covariances := (landmark_covariances p)[k := S]\<rparr>)"
  using assms
  by (auto simp del: split_paired_Ex simp: update_landmark_def Let_def nth_e_def
      split: prod.splits sum.splits if_splits)

lemma argmax_loop_index:
  assumes "argmax_loop (enumerate 0 xs) 0 0 = (w, k)" and "xs \<noteq> []"
  shows "k < length xs"
  using argmax_loop_rel [OF assms(1)] assms(2) by auto

lemma measurements_loop_trace:
  assumes "measurements_loop s2w p obs N thr Qt d w0 = Inr (p', w)"
  shows "\<exists>qs cs. length qs = Suc (length obs) \<and> length cs = length obs
           \<and> qs ! 0 = p \<and> qs ! length obs = p'
           \<and> (\<forall>i<length obs.
                 update_particle s2w (qs ! i) (fst (obs ! i)) (snd (obs ! i)) N thr Qt d
                   = Inr (qs ! Suc i, cs ! i))
           \<and> w = w0 * prod_list cs"
  using assms
proof (induction obs arbitrary: p w0)
  case Nil
  then have "p' = p" "w = w0" by simp_all
  then show ?case by (intro exI [of _ "[p]"] exI [of _ "[]"]) simp
next
  case (Cons ob obs)
  obtain z zs where ob: "ob = (z, zs)" by (cases ob)
  from Cons.prems ob obtain q c where
    step: "update_particle s2w p z zs N thr Qt d = Inr (q, c)"
    and rest: "measurements_loop s2w q obs N thr Qt d (w0 * c) = Inr (p', w)"
    by (auto split: sum.splits)
  from Cons.IH [OF rest] obtain qs cs where
    tr: "length qs = Suc (length obs)" "length cs = length obs"
      "qs ! 0 = q" "qs ! length obs = p'"
      "\<forall>i<length obs.
          update_particle s2w (qs ! i) (fst (obs ! i)) (snd (obs ! i)) N thr Qt d
            = Inr (qs ! Suc i, cs ! i)"
      "w = w0 * c * prod_list cs"
    by blast
  have "\<forall>i<length (ob # obs).
          update_particle s2w ((p # qs) ! i) (fst ((ob # obs) ! i)) (snd ((ob # obs) ! i))
            N thr Qt d = Inr ((p # qs) ! Suc i, (c # cs) ! i)"
  proof (intro allI impI)
    fix i assume "i < length (ob # obs)"
    then show "update_particle s2w ((p # qs) ! i) (fst ((ob # obs) ! i))
        (snd ((ob # obs) ! i)) N thr Qt d = Inr ((p # qs) ! Suc i, (c # cs) ! i)"
      using step ob tr(3,5) by (cases i) simp_all
  qed
  with tr show ?case
    by (intro exI [of _ "p # qs"] exI [of _ "c # cs"]) (simp add: mult.assoc)
qed

lemma likelihoods_positive:
  assumes "compute_correspondence_likelihoods p z N Qt d = Inr ls"
  shows "\<forall>x. Num x \<in> set ls \<longrightarrow> 0 < x"
proof (intro allI impI)
  fix x assume "Num x \<in> set ls"
  then obtain k where k: "k < length ls" "ls ! k = Num x" by (auto simp: in_set_conv_nth)
  note spec = compute_correspondence_likelihoods_spec [OF assms]
  from k spec(1) have "k < N" by simp
  from spec(2) [OF this] k(2)
  have "wl_likelihood_of_correspondence p z k Qt d = Inr (Num x)" by simp
  then show "0 < x" by (rule wl_likelihood_positive)
qed

lemma update_particle_contribution_nonneg:
  assumes "update_particle s2w p z zs N thr Qt d = Inr (p', c)"
  shows "c = thr \<or> 0 \<le> c"
proof -
  from assms obtain ls where ls: "compute_correspondence_likelihoods p z N Qt d = Inr ls"
    by (auto simp: update_particle_def split: sum.splits)
  consider (new) "c = thr"
    | (upd) k where "argmax_loop (enumerate 0 ls) 0 0 = (c, k)"
    using assms ls
    by (auto simp: update_particle_def split: sum.splits if_splits prod.splits)
  then show ?thesis
  proof cases
    case new
    then show ?thesis by simp
  next
    case upd
    from argmax_loop_nonneg [OF upd] show ?thesis by simp
  qed
qed

lemma update_particle_contribution_ge:
  assumes "update_particle s2w p z zs N thr Qt d = Inr (p', c)"
    and "compute_correspondence_likelihoods p z N Qt d = Inr (map Num xs)"
  shows "thr \<le> c"
proof -
  note ls = assms(2)
  consider (new) "c = thr"
    | (upd) k where "xs \<noteq> []" "\<not> Max (set xs) < thr"
        "argmax_loop (enumerate 0 (map Num xs)) 0 0 = (c, k)"
    using assms(1) ls
    by (cases "xs = []")
       (auto simp: update_particle_def py_max_fp_Num
             split: sum.splits if_splits prod.splits)
  then show ?thesis
  proof cases
    case new
    then show ?thesis by simp
  next
    case upd
    from likelihoods_positive [OF ls] have "\<forall>x\<in>set xs. 0 < x" by auto
    from argmax_loop_positive [OF upd(1) this upd(3)]
    have "c = Max (set xs)" by simp
    with upd(2) show ?thesis by simp
  qed
qed

lemma prod_list_nonneg_real:
  fixes cs :: "real list"
  assumes "\<forall>c\<in>set cs. 0 \<le> c"
  shows "0 \<le> prod_list cs"
  using assms by (induction cs) simp_all

lemma prod_list_ge_power:
  fixes cs :: "real list"
  assumes "0 < t" and "\<forall>c\<in>set cs. t \<le> c"
  shows "t ^ length cs \<le> prod_list cs"
  using assms(2)
proof (induction cs)
  case Nil
  then show ?case by simp
next
  case (Cons c cs)
  then have "t ^ length cs \<le> prod_list cs" and "t \<le> c" by simp_all
  with assms(1) have "t * t ^ length cs \<le> c * prod_list cs"
    by (intro mult_mono) auto
  then show ?case by simp
qed

lemma update_particle_cases:
  assumes "update_particle s2w p z zs N thr Qt d = Inr (p', c)"
  obtains (new) "initialize_new_landmark s2w p zs Qt d = Inr p'"
  | (upd) k where "k < N" "update_landmark p k z Qt d = Inr p'"
proof -
  from assms obtain ls where ls: "compute_correspondence_likelihoods p z N Qt d = Inr ls"
    by (auto simp: update_particle_def split: sum.splits)
  have len: "length ls = N" by (rule compute_correspondence_likelihoods_spec(1) [OF ls])
  consider (a) "initialize_new_landmark s2w p zs Qt d = Inr p'"
    | (b) w k where "ls \<noteq> []" "argmax_loop (enumerate 0 ls) 0 0 = (w, k)"
        "update_landmark p k z Qt d = Inr p'"
    using assms ls
    by (auto simp: update_particle_def split: sum.splits if_splits prod.splits)
  then show thesis
  proof cases
    case a
    then show ?thesis by (rule new)
  next
    case b
    from argmax_loop_index [OF b(2,1)] len have "k < N" by simp
    then show ?thesis using b(3) by (rule upd)
  qed
qed

lemma particles_loop_spec:
  assumes "particles_loop s2w ps cyl thr Qt d = Inr (ps', ws)"
  shows "length ps' = length ps \<and> length ws = length ps
         \<and> (\<forall>i<length ps.
               measurements_loop s2w (ps ! i) cyl (number_of_landmarks (ps ! i)) thr Qt d 1
                 = Inr (ps' ! i, ws ! i))"
  using assms
proof (induction ps arbitrary: ps' ws)
  case Nil
  then show ?case by simp
next
  case (Cons p ps)
  from Cons.prems obtain p' w ps'' ws'' where
    hd: "measurements_loop s2w p cyl (number_of_landmarks p) thr Qt d 1 = Inr (p', w)"
    and tl: "particles_loop s2w ps cyl thr Qt d = Inr (ps'', ws'')"
    and eq: "ps' = p' # ps''" "ws = w # ws''"
    by (auto split: sum.splits)
  from Cons.IH [OF tl] have IH: "length ps'' = length ps" "length ws'' = length ps"
    "\<forall>i<length ps.
        measurements_loop s2w (ps ! i) cyl (number_of_landmarks (ps ! i)) thr Qt d 1
          = Inr (ps'' ! i, ws'' ! i)"
    by simp_all
  have "\<forall>i<length (p # ps).
          measurements_loop s2w ((p # ps) ! i) cyl (number_of_landmarks ((p # ps) ! i))
            thr Qt d 1 = Inr (ps' ! i, ws ! i)"
  proof (intro allI impI)
    fix i assume "i < length (p # ps)"
    then show "measurements_loop s2w ((p # ps) ! i) cyl
        (number_of_landmarks ((p # ps) ! i)) thr Qt d 1 = Inr (ps' ! i, ws ! i)"
      using hd IH(3) eq by (cases i) simp_all
  qed
  with IH eq show ?case by simp
qed

lemma nth_e_take: "k < N \<Longrightarrow> nth_e (take N xs) k = nth_e xs k"
  by (simp add: nth_e_def)

lemma delta_z_take:
  assumes "k < N"
  shows "delta_z (q\<lparr>landmark_positions := take N (landmark_positions q),
                     landmark_covariances := take N (landmark_covariances q)\<rparr>) z k d
         = delta_z q z k d"
  using assms
  by (simp add: delta_z_def h_expected_measurement_for_landmark_def nth_e_take
      split: sum.splits)

lemma H_Ql_take:
  assumes "k < N"
  shows "H_Ql_jacobian_and_measurement_covariance_for_landmark
           (q\<lparr>landmark_positions := take N (landmark_positions q),
              landmark_covariances := take N (landmark_covariances q)\<rparr>) k Qt d
         = H_Ql_jacobian_and_measurement_covariance_for_landmark q k Qt d"
  using assms
  by (simp add: H_Ql_jacobian_and_measurement_covariance_for_landmark_def nth_e_take
      split: sum.splits)

lemma wl_likelihood_take:
  assumes "k < N"
  shows "wl_likelihood_of_correspondence
           (q\<lparr>landmark_positions := take N (landmark_positions q),
              landmark_covariances := take N (landmark_covariances q)\<rparr>) z k Qt d
         = wl_likelihood_of_correspondence q z k Qt d"
  using assms
  by (simp add: wl_likelihood_of_correspondence_def delta_z_take H_Ql_take
      cong: sum.case_cong)

lemma likelihoods_loop_take:
  assumes "\<forall>i\<in>set is. i < N"
  shows "likelihoods_loop
           (q\<lparr>landmark_positions := take N (landmark_positions q),
              landmark_covariances := take N (landmark_covariances q)\<rparr>) z is Qt d
         = likelihoods_loop q z is Qt d"
  using assms
proof (induction "is")
  case Nil
  then show ?case by simp
next
  case (Cons i "is")
  then have "likelihoods_loop
           (q\<lparr>landmark_positions := take N (landmark_positions q),
              landmark_covariances := take N (landmark_covariances q)\<rparr>) z is Qt d
         = likelihoods_loop q z is Qt d" and "i < N"
    by simp_all
  then show ?case by (simp add: wl_likelihood_take cong: sum.case_cong)
qed

lemma compute_correspondence_likelihoods_take:
  "compute_correspondence_likelihoods
     (q\<lparr>landmark_positions := take N (landmark_positions q),
        landmark_covariances := take N (landmark_covariances q)\<rparr>) z N Qt d
   = compute_correspondence_likelihoods q z N Qt d"
  by (simp add: compute_correspondence_likelihoods_def likelihoods_loop_take)

lemma update_particle_positions:
  assumes "update_particle s2w q z zs N thr Qt d = Inr (q', c)"
  shows "(\<exists>lm. landmark_positions q' = landmark_positions q @ [lm])
         \<or> (\<exists>k<N. \<exists>lm. landmark_positions q' = (landmark_positions q)[k := lm])"
  using assms
proof (cases rule: update_particle_cases)
  case new
  from initialize_new_landmark_appends [OF this] obtain lm S where
    "q' = q\<lparr>landmark_positions := landmark_positions q @ [lm],
              landmark_covariances := landmark_covariances q @ [S]\<rparr>"
    by blast
  then have "landmark_positions q' = landmark_positions q @ [lm]" by simp
  then show ?thesis by blast
next
  case (upd k)
  from update_landmark_replaces [OF upd(2)] obtain lm S where
    "q' = q\<lparr>landmark_positions := (landmark_positions q)[k := lm],
              landmark_covariances := (landmark_covariances q)[k := S]\<rparr>"
    by blast
  then have "landmark_positions q' = (landmark_positions q)[k := lm]" by simp
  with upd(1) show ?thesis by blast
qed

lemma update_particle_likelihoods:
  assumes "update_particle s2w q z zs N thr Qt d = Inr (q', c)"
  shows "\<exists>ls. compute_correspondence_likelihoods q z N Qt d = Inr ls \<and> length ls = N"
proof -
  from assms obtain ls where ls: "compute_correspondence_likelihoods q z N Qt d = Inr ls"
    by (auto simp: update_particle_def split: sum.splits)
  with compute_correspondence_likelihoods_spec(1) [OF ls] show ?thesis by simp
qed

lemma trace_landmark_count:
  assumes "\<forall>i<n. update_particle s2w (qs ! i) (zf i) (zg i) N thr Qt d
                    = Inr (qs ! Suc i, cs ! i)"
    and "i \<le> n"
  shows "number_of_landmarks (qs ! 0) \<le> number_of_landmarks (qs ! i)"
  using assms(2)
proof (induction i)
  case 0
  then show ?case by simp
next
  case (Suc i)
  then have "i < n" by simp
  with assms(1) have "update_particle s2w (qs ! i) (zf i) (zg i) N thr Qt d
                    = Inr (qs ! Suc i, cs ! i)" by simp
  from update_particle_positions [OF this]
  have "number_of_landmarks (qs ! i) \<le> number_of_landmarks (qs ! Suc i)"
    by (auto simp: number_of_landmarks_def)
  with Suc show ?case by simp
qed

lemma h_bearing_range:
  "- pi \<le> snd (h_num s lm d) \<and> snd (h_num s lm d) < pi"
proof -
  obtain sx sy st where s: "s = (sx, sy, st)" by (cases s)
  let ?a = "atan2 (snd lm - (sy + d * sin st)) (fst lm - (sx + d * cos st)) - st + pi"
  have "0 \<le> fmod ?a (2 * pi)" and "fmod ?a (2 * pi) < 2 * pi"
    by (rule fmod_range, simp)+
  then show ?thesis by (simp add: h_num_def s Let_def)
qed

lemma quadratic_form_value:
  fixes D :: real
  assumes "D \<noteq> 0"
  shows "dot_vv (dot_vm (vec_scale (- (1 / 2)) (x, y))
                   ((c / D, - (b / D)), (- (b / D), a / D))) (x, y)
         = - ((c * x * x - 2 * b * x * y + a * y * y) / (2 * D))"
  using assms
  by (simp add: dot_vv_def dot_vm_def dot_mv_def mat_T_def vec_scale_def field_simps)

lemma wl_likelihood_value:
  assumes HQ: "H_Ql_jacobian_and_measurement_covariance_for_landmark p k Qt d
                 = Inr (H, Num ((a, b), (b, c)))"
    and det: "0 < a * c - b * b"
    and dz: "delta_z p z k d = Inr (Num (x, y))"
  shows "wl_likelihood_of_correspondence p z k Qt d
           = Inr (Num (1 / (2 * pi * sqrt (a * c - b * b))
                  * exp (- ((c * x * x - 2 * b * x * y + a * y * y)
                            / (2 * (a * c - b * b))))))"
proof -
  define D where "D = a * c - b * b"
  have d: "linalg_det ((a, b), (b, c)) = D"
    by (simp add: linalg_det_def D_def)
  from det have D: "0 < D" by (simp add: D_def)
  then have inv: "linalg_inv ((a, b), (b, c)) = Inr ((c / D, - b / D), (- b / D, a / D))"
    unfolding linalg_inv_def d by simp
  from D have "\<not> D < 0" "2 * pi * sqrt D \<noteq> 0" by simp_all
  then have "wl_likelihood_of_correspondence p z k Qt d
           = Inr (Num (1 / (2 * pi * sqrt D)
                  * exp (- ((c * x * x - 2 * b * x * y + a * y * y) / (2 * D)))))"
    unfolding wl_likelihood_of_correspondence_def HQ dz
    using D by (simp add: d inv quadratic_form_value)
  then show ?thesis by (simp add: D_def)
qed

lemma exp_quadratic_less:
  fixes q1 q2 n D :: real
  assumes "0 < D" "q1 < q2" "0 < n"
  shows "n * exp (- (q2 / (2 * D))) < n * exp (- (q1 / (2 * D)))"
proof -
  from assms have "q1 / (2 * D) < q2 / (2 * D)" by (simp add: divide_strict_right_mono)
  then have "exp (- (q2 / (2 * D))) < exp (- (q1 / (2 * D)))" by simp
  with assms(3) show ?thesis by simp
qed

lemma abs_less_square:
  fixes x1 x2 :: real
  assumes "\<bar>x1\<bar> < \<bar>x2\<bar>"
  shows "x1 * x1 < x2 * x2"
proof -
  from assms have "\<bar>x1\<bar> * \<bar>x1\<bar> < \<bar>x2\<bar> * \<bar>x2\<bar>"
    by (intro mult_strict_mono') auto
  then show ?thesis by (simp add: abs_mult_self_eq)
qed

lemma quadratic_form_positive:
  fixes a b c x y :: real
  assumes "0 < a" "0 < a * c - b * b" "(x, y) \<noteq> (0, 0)"
  shows "0 < c * x * x - 2 * b * x * y + a * y * y"
proof -
  have eq: "a * (c * x * x - 2 * b * x * y + a * y * y)
            = (a * y - b * x)\<^sup>2 + (a * c - b * b) * x\<^sup>2"
    by (simp add: power2_eq_square algebra_simps)
  have "0 < (a * y - b * x)\<^sup>2 + (a * c - b * b) * x\<^sup>2"
  proof (cases "x = 0")
    case True
    with assms(3) have "y \<noteq> 0" by simp
    with assms(1) True show ?thesis by simp
  next
    case False
    with assms(2) have "0 < (a * c - b * b) * x\<^sup>2" by simp
    moreover have "0 \<le> (a * y - b * x)\<^sup>2" by simp
    ultimately show ?thesis by linarith
  qed
  with eq have "0 < a * (c * x * x - 2 * b * x * y + a * y * y)" by simp
  with assms(1) show ?thesis by (simp add: zero_less_mult_iff)
qed

lemma spd_other_diagonal:
  fixes a b c :: real
  assumes "0 < a" "0 < a * c - b * b"
  shows "0 < c"
proof -
  have "0 \<le> b * b" by simp
  with assms(2) have "0 < a * c" by linarith
  with assms(1) show ?thesis by (simp add: zero_less_mult_iff)
qed

lemma wheel_returns_at_once:
  assumes "index < length ws" and "\<not> offset > ws ! index"
  shows "wheel ws offset index = Some (Inr (offset, index))"
  using assms by (subst wheel.simps) simp

lemma wheel_next_index:
  "index < L \<Longrightarrow> (index + 1) mod L = (if Suc index = L then 0 else Suc index)"
  by simp

lemma wheel_terminates_step:
  assumes nn: "\<forall>w\<in>set ws. 0 \<le> w" and j0: "j0 < length ws"
    and below: "\<And>off idx. off \<le> B \<Longrightarrow> idx < length ws \<Longrightarrow>
         \<exists>off' idx'. wheel ws off idx = Some (Inr (off', idx')) \<and> idx' < length ws"
  shows "offset \<le> B + ws ! j0 \<Longrightarrow> index < length ws \<Longrightarrow>
         (if index \<le> j0 then j0 - index else j0 + length ws - index) = k \<Longrightarrow>
         \<exists>off' idx'. wheel ws offset index = Some (Inr (off', idx')) \<and> idx' < length ws"
proof (induction k arbitrary: offset index)
  case 0
  then have at: "index = j0" by (simp split: if_splits)
  show ?case
  proof (cases "offset > ws ! index")
    case False
    with "0.prems"(2) show ?thesis by (simp add: wheel_returns_at_once)
  next
    case True
    from "0.prems"(1) at have "offset - ws ! index \<le> B" by simp
    moreover from "0.prems"(2) have "0 < length ws" by (cases ws) simp_all
    then have "(index + 1) mod length ws < length ws" by (rule mod_less_divisor)
    ultimately obtain off' idx' where
      "wheel ws (offset - ws ! index) ((index + 1) mod length ws) = Some (Inr (off', idx'))"
      "idx' < length ws"
      using below by blast
    with True "0.prems"(2) show ?thesis by (subst wheel.simps) simp
  qed
next
  case (Suc k)
  show ?case
  proof (cases "offset > ws ! index")
    case False
    with Suc.prems(2) show ?thesis by (simp add: wheel_returns_at_once)
  next
    case True
    from nn Suc.prems(2) have "0 \<le> ws ! index" by simp
    with Suc.prems(1) have le: "offset - ws ! index \<le> B + ws ! j0" by simp
    from Suc.prems(2) have "0 < length ws" by (cases ws) simp_all
    then have lt: "(index + 1) mod length ws < length ws" by (rule mod_less_divisor)
    have nxt: "(index + 1) mod length ws = (if Suc index = length ws then 0 else Suc index)"
      using Suc.prems(2) by (rule wheel_next_index)
    have "(if (index + 1) mod length ws \<le> j0 then j0 - (index + 1) mod length ws
           else j0 + length ws - (index + 1) mod length ws) = k"
      unfolding nxt using Suc.prems(2,3) j0 by (auto split: if_splits)
    from Suc.IH [OF le lt this] obtain off' idx' where
      "wheel ws (offset - ws ! index) ((index + 1) mod length ws) = Some (Inr (off', idx'))"
      "idx' < length ws"
      by blast
    with True Suc.prems(2) show ?thesis by (subst wheel.simps) simp
  qed
qed

lemma wheel_terminates_bounded:
  assumes nn: "\<forall>w\<in>set ws. 0 \<le> w" and j0: "j0 < length ws" and m: "0 < ws ! j0"
  shows "offset \<le> real n * ws ! j0 \<Longrightarrow> index < length ws \<Longrightarrow>
         \<exists>off' idx'. wheel ws offset index = Some (Inr (off', idx')) \<and> idx' < length ws"
proof (induction n arbitrary: offset index)
  case 0
  then have "offset \<le> 0" by simp
  moreover from nn 0 have "0 \<le> ws ! index" by simp
  ultimately have "\<not> offset > ws ! index" by simp
  with 0 show ?case by (simp add: wheel_returns_at_once)
next
  case (Suc n)
  from Suc.prems(1) have "offset \<le> real n * ws ! j0 + ws ! j0"
    by (simp add: algebra_simps)
  from wheel_terminates_step [OF nn j0 Suc.IH this Suc.prems(2) refl]
  show ?case by blast
qed

lemma wheel_terminates:
  assumes nn: "\<forall>w\<in>set ws. 0 \<le> w" and pos: "\<exists>w\<in>set ws. 0 < w"
    and idx: "index < length ws"
  shows "\<exists>off' idx'. wheel ws offset index = Some (Inr (off', idx')) \<and> idx' < length ws"
proof -
  from pos obtain j0 where j0: "j0 < length ws" and m: "0 < ws ! j0"
    by (auto simp: in_set_conv_nth)
  obtain n :: nat where "offset / ws ! j0 \<le> real n"
    using real_arch_simple by blast
  with m have "offset \<le> real n * ws ! j0" by (simp add: pos_divide_le_eq)
  from wheel_terminates_bounded [OF nn j0 m this idx] show ?thesis .
qed

lemma resample_loop_returns:
  assumes nn: "\<forall>w\<in>set ws. 0 \<le> w" and len: "length ws = length ps"
    and copy: "\<And>s p. I s \<Longrightarrow> p \<in> set ps \<Longrightarrow> \<exists>s' q. copy s p = Inr (s', q) \<and> I s'"
    and M: "(\<exists>w\<in>set ws. 0 < w) \<or> M = 0"
  shows "I s \<Longrightarrow> index < length ws \<Longrightarrow> (\<exists>w\<in>set ws. 0 < w) \<or> offset \<le> 0 \<Longrightarrow>
         \<exists>s' out. resample_loop copy ps ws M us is offset index s acc = Some (Inr (s', out))
                  \<and> I s' \<and> length out = length acc + length is"
proof (induction "is" arbitrary: offset index s acc)
  case Nil
  then show ?case by simp
next
  case (Cons i "is")
  have "\<exists>off' idx'. wheel ws (offset + uniform 0 (2 * M) (us i)) index
            = Some (Inr (off', idx'))
          \<and> idx' < length ws \<and> ((\<exists>w\<in>set ws. 0 < w) \<or> off' \<le> 0)"
  proof (cases "\<exists>w\<in>set ws. 0 < w")
    case True
    with wheel_terminates [OF nn True Cons.prems(2)] show ?thesis by blast
  next
    case False
    with M Cons.prems(3) have "M = 0" "offset \<le> 0" by auto
    then have off: "offset + uniform 0 (2 * M) (us i) \<le> 0" by (simp add: uniform_def)
    moreover from nn Cons.prems(2) have "0 \<le> ws ! index" by simp
    ultimately have "\<not> offset + uniform 0 (2 * M) (us i) > ws ! index" by simp
    from wheel_returns_at_once [OF Cons.prems(2) this] off Cons.prems(2)
    show ?thesis by simp
  qed
  then obtain off' idx' where
    w: "wheel ws (offset + uniform 0 (2 * M) (us i)) index = Some (Inr (off', idx'))"
    and idx': "idx' < length ws"
    and inv: "(\<exists>w\<in>set ws. 0 < w) \<or> off' \<le> 0"
    by blast
  from idx' len have n: "nth_e ps idx' = Inr (ps ! idx')" "ps ! idx' \<in> set ps"
    by (simp_all add: nth_e_def)
  from copy [OF Cons.prems(1) n(2)] obtain s' q where
    c: "copy s (ps ! idx') = Inr (s', q)" and I': "I s'"
    by blast
  from Cons.IH [OF I' idx' inv, of "acc @ [q]"] obtain s'' out where
    "resample_loop copy ps ws M us is off' idx' s' (acc @ [q]) = Some (Inr (s'', out))"
    "I s''" "length out = length (acc @ [q]) + length is"
    by blast
  with w n c show ?case by simp
qed

lemma py_max_nonempty: "ws \<noteq> [] \<Longrightarrow> \<exists>M. py_max ws = Inr M"
  by (cases ws) simp_all

lemma resample_with_returns:
  assumes nn: "\<forall>w\<in>set ws. 0 \<le> w" and len: "length ws = length ps" and ne: "ps \<noteq> []"
    and copy: "\<And>s p. I s \<Longrightarrow> p \<in> set ps \<Longrightarrow> \<exists>s' q. copy s p = Inr (s', q) \<and> I s'"
    and I: "I s" and start: "start < length ps"
  shows "\<exists>s' out. resample_with copy s ps ws start us = Some (Inr (s', out))
                  \<and> I s' \<and> length out = length ps"
proof -
  from ne len have wne: "ws \<noteq> []" by auto
  then have M: "py_max ws = Inr (Max (set ws))" by (rule py_max_Max)
  have M0: "(\<exists>w\<in>set ws. 0 < w) \<or> Max (set ws) = 0"
  proof (cases "\<exists>w\<in>set ws. 0 < w")
    case True
    then show ?thesis by simp
  next
    case False
    have z: "\<forall>w\<in>set ws. w = 0"
    proof
      fix w assume w: "w \<in> set ws"
      with nn have "0 \<le> w" by simp
      moreover from False w have "\<not> 0 < w" by blast
      ultimately show "w = 0" by simp
    qed
    from wne have "Max (set ws) \<in> set ws" by (intro Max_in) auto
    with z show ?thesis by simp
  qed
  from start len have "start < length ws" by simp
  from resample_loop_returns [of ws ps I copy "Max (set ws)", OF nn len copy M0 I this,
      of 0 us "[0..<length ps]" "[]"]
  show ?thesis by (simp add: resample_with_def M)
qed

lemma resample_returns:
  assumes nn: "\<forall>w\<in>set ws. 0 \<le> w" and len: "length ws = length ps" and ne: "ps \<noteq> []"
    and start: "start < length ps"
  shows "\<exists>out. resample ps ws start us = Some (Inr out) \<and> length out = length ps"
proof -
  have "\<exists>s' q. copy_value s p = Inr (s', q) \<and> True" for s p
    by (simp add: copy_value_def)
  from resample_with_returns [of ws ps "\<lambda>_. True" copy_value, OF nn len ne this _ start]
  obtain s' out where
    "resample_with copy_value () ps ws start us = Some (Inr (s', out))" "length out = length ps"
    by blast
  then show ?thesis by (simp add: resample_def)
qed

lemma predict_loop_length:
  "predict_loop ps k left left_std right right_std w zs = Inr ps'
     \<Longrightarrow> length ps' = length ps"
  by (induction ps arbitrary: k ps') (auto simp: Let_def split: sum.splits)

lemma weights_nonneg:
  assumes thr: "0 < thr"
    and pl: "particles_loop s2w ps cyl thr Qt d = Inr (ps', ws)"
  shows "length ps' = length ps \<and> length ws = length ps \<and> (\<forall>w\<in>set ws. 0 \<le> w)"
proof -
  note spec = particles_loop_spec [OF pl]
  have "\<forall>w\<in>set ws. 0 \<le> w"
  proof
    fix w assume "w \<in> set ws"
    then obtain i where i: "i < length ws" "ws ! i = w" by (auto simp: in_set_conv_nth)
    with spec have "measurements_loop s2w (ps ! i) cyl (number_of_landmarks (ps ! i))
        thr Qt d 1 = Inr (ps' ! i, w)"
      by simp
    from measurements_loop_trace [OF this] obtain qs cs where
      tr: "length cs = length cyl"
        "\<forall>j<length cyl.
            update_particle s2w (qs ! j) (fst (cyl ! j)) (snd (cyl ! j))
              (number_of_landmarks (ps ! i)) thr Qt d = Inr (qs ! Suc j, cs ! j)"
        "w = 1 * prod_list cs"
      by blast
    have "\<forall>c\<in>set cs. 0 \<le> c"
    proof
      fix c assume "c \<in> set cs"
      then obtain j where "j < length cs" "cs ! j = c" by (auto simp: in_set_conv_nth)
      with tr(1,2) have "c = thr \<or> 0 \<le> c"
        by (auto dest: update_particle_contribution_nonneg)
      with thr show "0 \<le> c" by auto
    qed
    from prod_list_nonneg_real [OF this] tr(3) show "0 \<le> w" by simp
  qed
  with spec show ?thesis by simp
qed

lemma wl_singular:
  assumes "H_Ql_jacobian_and_measurement_covariance_for_landmark p k Qt d
             = Inr (H, Num Ql)"
    and "linalg_det Ql = 0"
  shows "wl_likelihood_of_correspondence p z k Qt d = Inl ZeroDivisionError"
proof -
  from assms(1) obtain lm where "nth_e (landmark_positions p) k = Inr lm"
    by (auto simp: H_Ql_jacobian_and_measurement_covariance_for_landmark_def
             split: sum.splits)
  then obtain dz where "delta_z p z k d = Inr dz"
    by (simp add: delta_z_def h_expected_measurement_for_landmark_def)
  with assms show ?thesis
    by (simp add: wl_likelihood_of_correspondence_def)
qed

lemma likelihoods_loop_fails:
  assumes "k < length is" 
    and "\<forall>j<k. \<exists>l. wl_likelihood_of_correspondence p z (is ! j) Qt d = Inr l"
    and "wl_likelihood_of_correspondence p z (is ! k) Qt d = Inl e"
  shows "likelihoods_loop p z is Qt d = Inl e"
  using assms
proof (induction "is" arbitrary: k)
  case Nil
  then show ?case by simp
next
  case (Cons i "is")
  show ?case
  proof (cases k)
    case 0
    with Cons.prems show ?thesis by simp
  next
    case (Suc k')
    with Cons.prems(2) obtain l where l: "wl_likelihood_of_correspondence p z i Qt d = Inr l"
      by fastforce
    have "likelihoods_loop p z is Qt d = Inl e"
    proof (rule Cons.IH [of k'])
      show "k' < length is" using Cons.prems(1) Suc by simp
      show "\<forall>j<k'. \<exists>l. wl_likelihood_of_correspondence p z (is ! j) Qt d = Inr l"
      proof (intro allI impI)
        fix j assume "j < k'"
        then have "Suc j < k" using Suc by simp
        with Cons.prems(2) show "\<exists>l. wl_likelihood_of_correspondence p z (is ! j) Qt d = Inr l"
          by fastforce
      qed
      show "wl_likelihood_of_correspondence p z (is ! k') Qt d = Inl e"
        using Cons.prems(3) Suc by simp
    qed
    with l show ?thesis by simp
  qed
qed

lemma update_particle_fails:
  assumes "k < N"
    and "\<forall>j<k. \<exists>l. wl_likelihood_of_correspondence p z j Qt d = Inr l"
    and "wl_likelihood_of_correspondence p z k Qt d = Inl e"
  shows "update_particle s2w p z zs N thr Qt d = Inl e"
proof -
  from assms have "likelihoods_loop p z [0..<N] Qt d = Inl e"
    by (intro likelihoods_loop_fails [of k]) simp_all
  then show ?thesis
    by (simp add: update_particle_def compute_correspondence_likelihoods_def)
qed

lemma measurements_loop_fails:
  assumes "measurements_loop s2w p obs1 N thr Qt d w0 = Inr (q, w)"
    and "update_particle s2w q (fst ob) (snd ob) N thr Qt d = Inl e"
  shows "measurements_loop s2w p (obs1 @ ob # obs2) N thr Qt d w0 = Inl e"
  using assms
proof (induction obs1 arbitrary: p w0)
  case Nil
  then show ?case by (cases ob) simp
next
  case (Cons o1 obs1)
  then show ?case by (cases o1) (auto split: sum.splits)
qed

lemma particles_loop_fails:
  assumes "i < length ps"
    and "\<forall>j<i. \<exists>r. measurements_loop s2w (ps ! j) cyl (number_of_landmarks (ps ! j))
                      thr Qt d 1 = Inr r"
    and "measurements_loop s2w (ps ! i) cyl (number_of_landmarks (ps ! i)) thr Qt d 1 = Inl e"
  shows "particles_loop s2w ps cyl thr Qt d = Inl e"
  using assms
proof (induction ps arbitrary: i)
  case Nil
  then show ?case by simp
next
  case (Cons p ps)
  show ?case
  proof (cases i)
    case 0
    with Cons.prems show ?thesis by simp
  next
    case (Suc i')
    with Cons.prems(2) obtain r where
      r: "measurements_loop s2w p cyl (number_of_landmarks p) thr Qt d 1 = Inr r"
      by fastforce
    have "particles_loop s2w ps cyl thr Qt d = Inl e"
    proof (rule Cons.IH [of i'])
      show "i' < length ps" using Cons.prems(1) Suc by simp
      show "\<forall>j<i'. \<exists>r. measurements_loop s2w (ps ! j) cyl (number_of_landmarks (ps ! j))
                      thr Qt d 1 = Inr r"
      proof (intro allI impI)
        fix j assume "j < i'"
        then have "Suc j < i" using Suc by simp
        with Cons.prems(2) show "\<exists>r. measurements_loop s2w (ps ! j) cyl
            (number_of_landmarks (ps ! j)) thr Qt d 1 = Inr r"
          by fastforce
      qed
      show "measurements_loop s2w (ps ! i') cyl (number_of_landmarks (ps ! i')) thr Qt d 1
          = Inl e"
        using Cons.prems(3) Suc by simp
    qed
    with r show ?thesis by (cases r) simp
  qed
qed

lemma dh_dlandmark_invertible:
  assumes "dh_dlandmark s lm d = Num H"
  shows "linalg_det H \<noteq> 0"
proof -
  obtain sx sy st where s: "s = (sx, sy, st)" by (cases s)
  from assms obtain l where lm: "lm = Num l"
    by (cases lm) (simp_all add: dh_dlandmark_def)
  define dx where "dx = fst l - (sx + d * cos st)"
  define dy where "dy = snd l - (sy + d * sin st)"
  define q where "q = dx * dx + dy * dy"
  from assms have q: "q \<noteq> 0" "sqrt q \<noteq> 0"
    and H: "H = ((dx / sqrt q, dy / sqrt q), (- dy / q, dx / q))"
    by (auto simp: dh_dlandmark_def s lm Let_def dx_def dy_def q_def split: if_splits)
  have "linalg_det H = (dx * dx + dy * dy) / (sqrt q * q)"
    using q by (simp add: H linalg_det_def field_simps)
  also have "\<dots> = q / (sqrt q * q)" by (simp add: q_def)
  finally show ?thesis using q by simp
qed

lemma initialize_new_landmark_returns:
  "\<exists>p'. initialize_new_landmark s2w p zs Qt d = Inr p'"
proof -
  obtain px py pt where pp: "pose p = (px, py, pt)" by (cases "pose p")
  let ?lm = "Num (s2w (px + cos pt * d, py + sin pt * d, pt) zs)"
  have "\<exists>Hi. linalg_inv_fp (dh_dlandmark (pose p) ?lm d) = Inr Hi"
  proof (cases "dh_dlandmark (pose p) ?lm d")
    case NaN
    then show ?thesis by (simp add: linalg_inv_fp_def)
  next
    case (Num H)
    from dh_dlandmark_invertible [OF this] Num show ?thesis
      by (simp add: linalg_inv_fp_def linalg_inv_def)
  qed
  then obtain Hi where "linalg_inv_fp (dh_dlandmark (pose p) ?lm d) = Inr Hi" by blast
  with pp show ?thesis
    by (simp add: initialize_new_landmark_def Let_def)
qed

subsection \<open>Data association in \<^verbatim>\<open>update_particle\<close>\<close>

lemma h_origin_unit: "h (0, 0, 0) (Num (1, 0)) 0 = Num (1, 0)"
  by (simp add: h_def h_num_def Let_def atan2_def fmod_def)

lemma wl_one_landmark:
  "wl_likelihood_of_correspondence particle_one_landmark (1, 0) 0 (diag2 1 1) 0
     = Inr (Num (1 / (4 * pi)))"
  by (simp add: wl_likelihood_of_correspondence_def delta_z_def particle_one_landmark_def
     h_expected_measurement_for_landmark_def nth_e_def h_origin_unit
     H_Ql_jacobian_and_measurement_covariance_for_landmark_def dh_dlandmark_def
     eye2_def diag2_def mat_add_def dot_mm_def dot_vm_def dot_mv_def dot_vv_def mat_T_def
     vec_add_def vec_sub_def vec_scale_def linalg_det_def linalg_inv_def)

lemma likelihoods_one_landmark:
  "compute_correspondence_likelihoods particle_one_landmark (1, 0) (Suc 0) (diag2 1 1) 0
     = Inr [Num (1 / (4 * pi))]"
  by (simp add: compute_correspondence_likelihoods_def wl_one_landmark)

text \<open>When no likelihood of an observation is nan, \<^verbatim>\<open>update_particle\<close> associates the
  observation as its documentation says. The likelihoods are N numbers. If N = 0 or their
  maximum is smaller than the threshold, a new landmark is initialized from the
  observation (the initialization always returns) and the threshold is the weight
  contribution. Otherwise there is an index k that attains the maximum, with every earlier
  likelihood strictly below the maximum; the EKF update of landmark k succeeds, and
  \<^verbatim>\<open>update_particle\<close> returns the particle with landmark k updated and the maximum
  likelihood as the weight contribution.\<close>

lemma update_particle_numbers:
  assumes "compute_correspondence_likelihoods p z N Qt d = Inr (map Num xs)"
  shows "length xs = N
    \<and> (N = 0 \<or> Max (set xs) < thr \<longrightarrow>
         (\<exists>p'. initialize_new_landmark s2w p zs Qt d = Inr p'
            \<and> update_particle s2w p z zs N thr Qt d = Inr (p', thr)))
    \<and> (\<not> (N = 0 \<or> Max (set xs) < thr) \<longrightarrow>
         (\<exists>k<N. xs ! k = Max (set xs) \<and> (\<forall>j<k. xs ! j < Max (set xs))
            \<and> (\<exists>p'. update_landmark p k z Qt d = Inr p'
                  \<and> update_particle s2w p z zs N thr Qt d = Inr (p', Max (set xs)))))"
proof -
  note spec = compute_correspondence_likelihoods_spec [OF assms]
  have len: "length xs = N" using spec(1) by simp
  obtain q where q: "initialize_new_landmark s2w p zs Qt d = Inr q"
    using initialize_new_landmark_returns by blast
  have new: "\<exists>p'. initialize_new_landmark s2w p zs Qt d = Inr p'
            \<and> update_particle s2w p z zs N thr Qt d = Inr (p', thr)"
    if "N = 0 \<or> Max (set xs) < thr"
  proof (cases "xs = []")
    case True
    with assms q show ?thesis by (simp add: update_particle_def)
  next
    case False
    with len that have "Max (set xs) < thr" by auto
    with False assms q show ?thesis by (simp add: update_particle_def py_max_fp_Num)
  qed
  have upd: "\<exists>k<N. xs ! k = Max (set xs) \<and> (\<forall>j<k. xs ! j < Max (set xs))
            \<and> (\<exists>p'. update_landmark p k z Qt d = Inr p'
                  \<and> update_particle s2w p z zs N thr Qt d = Inr (p', Max (set xs)))"
    if "\<not> (N = 0 \<or> Max (set xs) < thr)"
  proof -
    from that len have ne: "xs \<noteq> []" and ge: "\<not> Max (set xs) < thr" by auto
    from likelihoods_positive [OF assms] have pos: "\<forall>x\<in>set xs. 0 < x" by auto
    obtain w' k where am: "argmax_loop (enumerate 0 (map Num xs)) 0 0 = (w', k)"
      by (cases "argmax_loop (enumerate 0 (map Num xs)) 0 0")
    have k: "w' = Max (set xs)" "k < length xs" "xs ! k = Max (set xs)"
      "\<forall>j<k. xs ! j < Max (set xs)"
      using argmax_loop_positive [OF ne pos am] by auto
    from k(2) len have "k < N" by simp
    from spec(2) [OF this] obtain p' where p': "update_landmark p k z Qt d = Inr p'"
      by (auto dest: update_landmark_succeeds)
    from assms ne ge am p' k(1)
    have "update_particle s2w p z zs N thr Qt d = Inr (p', Max (set xs))"
      by (simp add: update_particle_def py_max_fp_Num del: Max_less_iff)
    with k p' len show ?thesis by auto
  qed
  from len new upd show ?thesis by blast
qed

subsection \<open>A landmark on the scanner\<close>

lemma h_on_scanner: "h (0, 0, 0) (Num (0, 0)) 0 = Num (0, 0)"
  by (simp add: h_def h_num_def Let_def atan2_def fmod_def)

lemma dh_on_scanner: "dh_dlandmark (0, 0, 0) (Num (0, 0)) 0 = NaN"
  by (simp add: dh_dlandmark_def)

lemma delta_z_on_scanner:
  "delta_z particle_landmark_on_scanner (1, 0) 0 0 = Inr (Num (1, 0))"
  by (simp add: delta_z_def h_expected_measurement_for_landmark_def nth_e_def
      particle_landmark_on_scanner_def h_on_scanner vec_sub_def)

lemma H_Ql_on_scanner:
  "H_Ql_jacobian_and_measurement_covariance_for_landmark particle_landmark_on_scanner 0
     (diag2 1 1) 0 = Inr (NaN, NaN)"
  by (simp add: H_Ql_jacobian_and_measurement_covariance_for_landmark_def nth_e_def
      particle_landmark_on_scanner_def dh_on_scanner)

lemma wl_on_scanner:
  "wl_likelihood_of_correspondence particle_landmark_on_scanner (1, 0) 0 (diag2 1 1) 0
     = Inr NaN"
  unfolding wl_likelihood_of_correspondence_def delta_z_on_scanner H_Ql_on_scanner
  by simp

lemma likelihoods_on_scanner:
  "compute_correspondence_likelihoods particle_landmark_on_scanner (1, 0) (Suc 0)
     (diag2 1 1) 0 = Inr [NaN]"
  by (simp add: compute_correspondence_likelihoods_def wl_on_scanner)

lemma update_landmark_on_scanner:
  "update_landmark particle_landmark_on_scanner 0 (1, 0) (diag2 1 1) 0
     = Inr particle_landmark_nan"
  unfolding update_landmark_def delta_z_on_scanner H_Ql_on_scanner
  by (simp add: nth_e_def linalg_inv_fp_def particle_landmark_on_scanner_def
      particle_landmark_nan_def)

lemma update_particle_on_scanner:
  "update_particle scanner_to_world particle_landmark_on_scanner (1, 0) (1, 0) (Suc 0)
     (1 / 100) (diag2 1 1) 0 = Inr (particle_landmark_nan, 0)"
  by (simp add: update_particle_def likelihoods_on_scanner update_landmark_on_scanner)

lemma weights_on_scanner:
  "update_and_compute_weights scanner_to_world 0 filter_landmark_on_scanner
     [((1, 0), (1, 0))] = Inr ([particle_landmark_nan], [0])"
proof -
  have "number_of_landmarks particle_landmark_on_scanner = Suc 0"
    by (simp add: number_of_landmarks_def particle_landmark_on_scanner_def)
  then show ?thesis
    by (simp add: update_and_compute_weights_def filter_landmark_on_scanner_def
        update_particle_on_scanner)
qed

lemma initialize_on_scanner:
  "initialize_new_landmark scanner_to_world particle_empty (0, 0) (diag2 1 1) 0
     = Inr particle_covariance_nan"
  by (simp add: initialize_new_landmark_def particle_empty_def scanner_to_world_def
      dh_on_scanner linalg_inv_fp_def particle_covariance_nan_def)

text \<open>
  C1 (the code diverges from the claim and from its own comment). The claim: when there are
  landmarks and the maximum of the likelihoods is not below the threshold, the landmark at
  the first index that attains the maximum is updated and the maximum likelihood is the
  returned contribution. The loop that the source calls the computation of (max, argmax)
  starts from \<^verbatim>\<open>w = 0\<close> and \<^verbatim>\<open>max_index = 0\<close> and replaces them only when a likelihood is
  greater than \<^verbatim>\<open>w\<close>. For a particle at the origin with heading 0 whose one landmark lies
  on the scanner, at (0, 0), \<^verbatim>\<open>dh_dlandmark\<close> divides zero by zero: the Jacobian, the
  innovation covariance and the likelihood of the observation (1, 0) are nan. The maximum
  of the likelihoods is nan, which is not smaller than the threshold 1/100, so the second
  branch runs; no likelihood is greater than 0, so the loop ends with (0, 0);
  \<^verbatim>\<open>update_landmark\<close> overwrites landmark 0, whose position and covariance become nan, and
  the returned contribution is 0, which is not the maximum of the likelihoods.
\<close>

theorem update_particle_nan_likelihood:
  "compute_correspondence_likelihoods particle_landmark_on_scanner (1, 0) (Suc 0)
     (diag2 1 1) 0 = Inr [NaN]
   \<and> py_max_fp [NaN] = Inr NaN
   \<and> \<not> fp_lt NaN (Num (1 / 100))
   \<and> argmax_loop (enumerate 0 [NaN]) 0 0 = (0, 0)
   \<and> update_landmark particle_landmark_on_scanner 0 (1, 0) (diag2 1 1) 0
       = Inr particle_landmark_nan
   \<and> update_particle scanner_to_world particle_landmark_on_scanner (1, 0) (1, 0) (Suc 0)
       (1 / 100) (diag2 1 1) 0 = Inr (particle_landmark_nan, 0)"
  using likelihoods_on_scanner update_landmark_on_scanner update_particle_on_scanner
  by simp

subsection \<open>The example particle, evaluated\<close>

lemmas linalg_defs = eye2_def diag2_def mat_add_def mat_sub_def dot_mm_def dot_vm_def dot_mv_def
  dot_vv_def mat_T_def vec_add_def vec_sub_def vec_scale_def linalg_det_def linalg_inv_def
  linalg_inv_fp_def

lemma update_landmark_one:
  "update_landmark particle_one_landmark 0 (1, 0) (diag2 1 1) 0
     = Inr particle_one_landmark_updated"
  by (simp add: update_landmark_def delta_z_def particle_one_landmark_def
     particle_one_landmark_updated_def
     h_expected_measurement_for_landmark_def nth_e_def h_origin_unit
     H_Ql_jacobian_and_measurement_covariance_for_landmark_def dh_dlandmark_def
     linalg_defs Let_def)

lemma threshold_below: "\<not> 1 / (4 * pi) < 1 / 100"
proof -
  have "4 * pi \<le> 100" using pi_less_4 by simp
  then show ?thesis by (simp add: field_simps)
qed

lemma update_particle_one:
  "update_particle scanner_to_world particle_one_landmark (1, 0) (1, 0) (Suc 0) (1 / 100)
     (diag2 1 1) 0 = Inr (particle_one_landmark_updated, 1 / (4 * pi))"
  using threshold_below
  by (simp add: update_particle_def likelihoods_one_landmark update_landmark_one)

lemma weights_one:
  "update_and_compute_weights scanner_to_world 0 filter_one_particle [((1, 0), (1, 0))]
     = Inr ([particle_one_landmark_updated], [1 / (4 * pi)])"
proof -
  have "number_of_landmarks particle_one_landmark = Suc 0"
    by (simp add: number_of_landmarks_def particle_one_landmark_def)
  then show ?thesis
    by (simp add: update_and_compute_weights_def filter_one_particle_def update_particle_one)
qed

lemma initialize_empty:
  "initialize_new_landmark scanner_to_world particle_empty (1, 0) (diag2 1 1) 0
     = Inr \<lparr>pose = (0, 0, 0), landmark_positions = [Num (1, 0)],
            landmark_covariances = [Num (diag2 1 1)]\<rparr>"
  by (simp add: initialize_new_landmark_def particle_empty_def scanner_to_world_def
      dh_dlandmark_def linalg_defs Let_def)

lemma initialize_second:
  "initialize_new_landmark scanner_to_world
     \<lparr>pose = (0, 0, 0), landmark_positions = [Num (1, 0)],
      landmark_covariances = [Num (diag2 1 1)]\<rparr>
     (1, 0) (diag2 1 1) 0 = Inr particle_two_new"
  by (simp add: initialize_new_landmark_def particle_two_new_def scanner_to_world_def
      dh_dlandmark_def linalg_defs Let_def)

lemma weights_two_new:
  "update_and_compute_weights scanner_to_world 0 filter_empty_particle
     [((1, 0), (1, 0)), ((1, 0), (1, 0))] = Inr ([particle_two_new], [1 / 10000])"
proof -
  have "number_of_landmarks particle_empty = 0"
    by (simp add: number_of_landmarks_def particle_empty_def)
  then show ?thesis
    by (simp add: update_and_compute_weights_def filter_empty_particle_def
        update_particle_def compute_correspondence_likelihoods_def
        initialize_empty initialize_second)
qed

lemma h_behind: "h (0, 0, 0) (Num (- 1, 0)) 0 = Num (1, - pi)"
  by (simp add: h_def h_num_def Let_def atan2_def fmod_def)

lemma delta_z_behind:
  "delta_z particle_landmark_behind (1, pi / 2) 0 0 = Inr (Num (0, 3 * pi / 2))"
  by (simp add: delta_z_def h_expected_measurement_for_landmark_def nth_e_def
      particle_landmark_behind_def h_behind vec_sub_def)

lemma H_Ql_behind:
  "H_Ql_jacobian_and_measurement_covariance_for_landmark particle_landmark_behind 0
     (diag2 1 1) 0 = Inr (Num ((- 1, 0), (0, - 1)), Num ((2, 0), (0, 2)))"
  by (simp add: H_Ql_jacobian_and_measurement_covariance_for_landmark_def nth_e_def
      particle_landmark_behind_def dh_dlandmark_def linalg_defs Let_def)

lemma wl_behind:
  "wl_likelihood_of_correspondence particle_landmark_behind (1, pi / 2) 0 (diag2 1 1) 0
     = Inr (Num (1 / (4 * pi) * exp (- (9 * pi\<^sup>2 / 16))))"
  unfolding wl_likelihood_of_correspondence_def delta_z_behind H_Ql_behind
  by (simp add: linalg_defs power2_eq_square)

lemma update_behind:
  "update_landmark particle_landmark_behind 0 (1, pi / 2) (diag2 1 1) 0
     = Inr particle_landmark_behind_updated"
  unfolding update_landmark_def delta_z_behind H_Ql_behind
  by (simp add: nth_e_def linalg_defs particle_landmark_behind_def
      particle_landmark_behind_updated_def)

lemma H_Ql_correlated:
  "H_Ql_jacobian_and_measurement_covariance_for_landmark particle_correlated 0
     (diag2 1 1) 0 = Inr (Num ((1, 0), (0, 1)), Num ((3, 1), (1, 3)))"
  by (simp add: H_Ql_jacobian_and_measurement_covariance_for_landmark_def nth_e_def
      particle_correlated_def dh_dlandmark_def linalg_defs Let_def)

lemma delta_z_correlated:
  "delta_z particle_correlated (r, b) 0 0 = Inr (Num (r - 1, b))"
  by (simp add: delta_z_def h_expected_measurement_for_landmark_def nth_e_def
      particle_correlated_def h_origin_unit vec_sub_def)

lemma wl_correlated_near:
  "wl_likelihood_of_correspondence particle_correlated (1, 3) 0 (diag2 1 1) 0
     = Inr (Num (1 / (2 * pi * sqrt 8) * exp (- (27 / 16))))"
  using wl_likelihood_value [OF H_Ql_correlated _ delta_z_correlated [of 1 3]]
  by simp

lemma wl_correlated_far:
  "wl_likelihood_of_correspondence particle_correlated (2, 3) 0 (diag2 1 1) 0
     = Inr (Num (1 / (2 * pi * sqrt 8) * exp (- (3 / 2))))"
  using wl_likelihood_value [OF H_Ql_correlated _ delta_z_correlated [of 2 3]]
  by simp

lemma wl_correlated_zero:
  "wl_likelihood_of_correspondence particle_correlated (1, 0) 0 (diag2 1 1) 0
     = Inr (Num (1 / (2 * pi * sqrt 8)))"
  using wl_likelihood_value [OF H_Ql_correlated _ delta_z_correlated [of 1 0]]
  by simp

lemma initialize_exact:
  "initialize_new_landmark scanner_to_world particle_empty (1, 0) (diag2 0 0) 0
     = Inr particle_zero_covariance"
  by (simp add: initialize_new_landmark_def particle_empty_def scanner_to_world_def
      dh_dlandmark_def linalg_defs Let_def particle_zero_covariance_def)

lemma weights_exact_first:
  "update_and_compute_weights scanner_to_world 0 filter_exact_sensor [((1, 0), (1, 0))]
     = Inr ([particle_zero_covariance], [1 / 100])"
proof -
  have "number_of_landmarks particle_empty = 0"
    by (simp add: number_of_landmarks_def particle_empty_def)
  then show ?thesis
    by (simp add: update_and_compute_weights_def filter_exact_sensor_def
        update_particle_def compute_correspondence_likelihoods_def initialize_exact)
qed

lemma wl_zero_covariance:
  "wl_likelihood_of_correspondence particle_zero_covariance (1, 0) 0 (diag2 0 0) 0
     = Inl ZeroDivisionError"
  by (simp add: wl_likelihood_of_correspondence_def delta_z_def
      particle_zero_covariance_def
      h_expected_measurement_for_landmark_def nth_e_def h_origin_unit
      H_Ql_jacobian_and_measurement_covariance_for_landmark_def dh_dlandmark_def
      linalg_defs)

lemma weights_exact_second:
  "update_and_compute_weights scanner_to_world 0
     (filter_exact_sensor\<lparr>particles := [particle_zero_covariance, particle_empty]\<rparr>)
     [((1, 0), (1, 0))] = Inl ZeroDivisionError"
proof -
  have "number_of_landmarks particle_zero_covariance = Suc 0"
    by (simp add: number_of_landmarks_def particle_zero_covariance_def)
  then show ?thesis
    by (simp add: update_and_compute_weights_def filter_exact_sensor_def
        update_particle_def compute_correspondence_likelihoods_def wl_zero_covariance)
qed

lemma correct_exact_second:
  "correct scanner_to_world 0
     (filter_exact_sensor\<lparr>particles := [particle_zero_covariance, particle_empty]\<rparr>)
     [((1, 0), (1, 0))] 0 draws_zero = Some (Inl ZeroDivisionError)"
  by (simp add: correct_def weights_exact_second)

lemma H_Ql_zero_covariance:
  "H_Ql_jacobian_and_measurement_covariance_for_landmark particle_zero_covariance 0
     (diag2 0 0) 0 = Inr (Num ((1, 0), (0, 1)), Num ((0, 0), (0, 0)))"
  by (simp add: H_Ql_jacobian_and_measurement_covariance_for_landmark_def nth_e_def
      particle_zero_covariance_def dh_dlandmark_def linalg_defs Let_def)

subsection \<open>What \<^verbatim>\<open>update_particle\<close> changes\<close>

text \<open>
  C10. When \<^verbatim>\<open>update_particle\<close> returns, the pose of the particle is the pose it had, and
  the landmark map has changed in one of two ways: either one landmark (a position and a
  covariance) has been appended and every landmark that was there is unchanged, or the
  position and the covariance of one landmark k, an association candidate (k < N), have
  been replaced and every other landmark and the number of landmarks are unchanged.
\<close>

theorem update_particle_frame:
  assumes "update_particle s2w p z zs N thr Qt d = Inr (p', c)"
  shows "pose p' = pose p
    \<and> ((\<exists>lm S. p' = p\<lparr>landmark_positions := landmark_positions p @ [lm],
                         landmark_covariances := landmark_covariances p @ [S]\<rparr>)
       \<or> (\<exists>k lm S. k < N \<and> k < length (landmark_positions p)
              \<and> k < length (landmark_covariances p)
              \<and> p' = p\<lparr>landmark_positions := (landmark_positions p)[k := lm],
                        landmark_covariances := (landmark_covariances p)[k := S]\<rparr>))"
proof -
  have "(\<exists>lm S. p' = p\<lparr>landmark_positions := landmark_positions p @ [lm],
                         landmark_covariances := landmark_covariances p @ [S]\<rparr>)
       \<or> (\<exists>k lm S. k < N \<and> k < length (landmark_positions p)
              \<and> k < length (landmark_covariances p)
              \<and> p' = p\<lparr>landmark_positions := (landmark_positions p)[k := lm],
                        landmark_covariances := (landmark_covariances p)[k := S]\<rparr>)"
    using assms
  proof (cases rule: update_particle_cases)
    case new
    then show ?thesis by (blast dest: initialize_new_landmark_appends)
  next
    case (upd k)
    with update_landmark_replaces [OF upd(2)] show ?thesis by blast
  qed
  moreover from this have "pose p' = pose p" by auto
  ultimately show ?thesis by simp
qed

theorem update_particle_frame_witness:
  "update_particle scanner_to_world particle_one_landmark (1, 0) (1, 0) (Suc 0) (1 / 100)
     (diag2 1 1) 0 = Inr (particle_one_landmark_updated, 1 / (4 * pi))
   \<and> pose particle_one_landmark_updated = pose particle_one_landmark
   \<and> length (landmark_positions particle_one_landmark_updated)
       = length (landmark_positions particle_one_landmark)"
proof -
  from update_particle_frame [OF update_particle_one]
  have "pose particle_one_landmark_updated = pose particle_one_landmark" by simp
  moreover have "length (landmark_positions particle_one_landmark_updated)
       = length (landmark_positions particle_one_landmark)"
    by (simp add: particle_one_landmark_updated_def particle_one_landmark_def)
  ultimately show ?thesis using update_particle_one by simp
qed

subsection \<open>The weight of a particle\<close>

text \<open>When \<^verbatim>\<open>update_and_compute_weights\<close> returns, there is one weight for each particle,
  and the weight of particle i is the product of the values that \<^verbatim>\<open>update_particle\<close>
  returned for the observations, in their order, each call made on the particle as the
  previous call left it and with the landmark count the particle had before the first. With
  a positive threshold every such value is the threshold or is not negative, and so the
  weight is not negative.\<close>

lemma weight_is_product:
  assumes "0 < minimum_correspondence_likelihood fs"
    and "update_and_compute_weights s2w dg fs cylinders = Inr (ps', ws)"
  shows "length ws = length (particles fs)
    \<and> (\<forall>i<length (particles fs).
          (\<exists>qs cs. length qs = Suc (length cylinders) \<and> length cs = length cylinders
              \<and> qs ! 0 = particles fs ! i \<and> qs ! length cylinders = ps' ! i
              \<and> (\<forall>j<length cylinders.
                    update_particle s2w (qs ! j) (fst (cylinders ! j)) (snd (cylinders ! j))
                      (number_of_landmarks (particles fs ! i))
                      (minimum_correspondence_likelihood fs)
                      (diag2 ((measurement_distance_stddev fs)\<^sup>2)
                             ((measurement_angle_stddev fs)\<^sup>2)) dg
                    = Inr (qs ! Suc j, cs ! j))
              \<and> ws ! i = prod_list cs)
          \<and> 0 \<le> ws ! i)"
proof -
  let ?thr = "minimum_correspondence_likelihood fs"
  let ?Qt = "diag2 ((measurement_distance_stddev fs)\<^sup>2) ((measurement_angle_stddev fs)\<^sup>2)"
  from assms(2) have pl: "particles_loop s2w (particles fs) cylinders ?thr ?Qt dg = Inr (ps', ws)"
    by (simp add: update_and_compute_weights_def Let_def)
  note spec = particles_loop_spec [OF pl]
  have "(\<exists>qs cs. length qs = Suc (length cylinders) \<and> length cs = length cylinders
              \<and> qs ! 0 = particles fs ! i \<and> qs ! length cylinders = ps' ! i
              \<and> (\<forall>j<length cylinders.
                    update_particle s2w (qs ! j) (fst (cylinders ! j)) (snd (cylinders ! j))
                      (number_of_landmarks (particles fs ! i)) ?thr ?Qt dg
                    = Inr (qs ! Suc j, cs ! j))
              \<and> ws ! i = prod_list cs)
          \<and> 0 \<le> ws ! i"
    if i: "i < length (particles fs)" for i
  proof -
    from spec i have "measurements_loop s2w (particles fs ! i) cylinders
        (number_of_landmarks (particles fs ! i)) ?thr ?Qt dg 1 = Inr (ps' ! i, ws ! i)"
      by simp
    from measurements_loop_trace [OF this] obtain qs cs where
      tr: "length qs = Suc (length cylinders)" "length cs = length cylinders"
        "qs ! 0 = particles fs ! i" "qs ! length cylinders = ps' ! i"
        "\<forall>j<length cylinders.
            update_particle s2w (qs ! j) (fst (cylinders ! j)) (snd (cylinders ! j))
              (number_of_landmarks (particles fs ! i)) ?thr ?Qt dg
            = Inr (qs ! Suc j, cs ! j)"
        "ws ! i = prod_list cs"
      by auto
    from spec i have "ws ! i \<in> set ws" by simp
    with weights_nonneg [OF assms(1) pl] have "0 \<le> ws ! i" by blast
    with tr show ?thesis by blast
  qed
  with spec show ?thesis by simp
qed

text \<open>
  C2 (the code diverges from the claim). The claim: with a positive threshold the weight of
  a particle is at least the threshold raised to the number of observations, hence never
  zero. The filter with the threshold 1/100 holds one particle, at the origin with heading
  0, whose one landmark lies on the scanner. For the one observation (1, 0) the likelihood
  is nan (\<^verbatim>\<open>dh_dlandmark\<close> divides zero by zero), \<^verbatim>\<open>update_particle\<close> takes its second
  branch, and the loop that starts from \<^verbatim>\<open>w = 0\<close> returns 0, since no likelihood is
  greater: the weight of the particle is 0, below 1/100, and its landmark is nan.
\<close>

theorem weight_zero_at_nan_likelihood:
  "0 < minimum_correspondence_likelihood filter_landmark_on_scanner
   \<and> update_and_compute_weights scanner_to_world 0 filter_landmark_on_scanner
       [((1, 0), (1, 0))] = Inr ([particle_landmark_nan], [0])
   \<and> \<not> minimum_correspondence_likelihood filter_landmark_on_scanner
         ^ length [((1::real, 0::real), (1::real, 0::real))] \<le> [0] ! 0
   \<and> \<not> 0 < [0::real] ! 0"
  using weights_on_scanner by (simp add: filter_landmark_on_scanner_def)

subsection \<open>The association candidates of a correction step\<close>

text \<open>
  C5. Let \<^verbatim>\<open>update_and_compute_weights\<close> return. For every particle, with N the number of
  landmarks it had when the step began, the loop over the observations went through
  particle states \<open>qs\<close>, and for each observation j: \<^verbatim>\<open>update_particle\<close> was called with
  this same N; the particle held at least N landmarks; the likelihoods computed were N
  numbers, one for each index 0 to N - 1, and they are the same when every landmark at an
  index from N on (those appended earlier in the step) is removed from the particle; and the
  call either appended one landmark at the end of the list or replaced the landmark at an
  index k < N.
\<close>

theorem association_candidates_are_prestep_landmarks:
  assumes "update_and_compute_weights s2w dg fs cylinders = Inr (ps', ws)"
  shows "\<forall>i<length (particles fs).
     (\<exists>qs cs. length qs = Suc (length cylinders)
        \<and> qs ! 0 = particles fs ! i \<and> qs ! length cylinders = ps' ! i
        \<and> (\<forall>j<length cylinders.
              update_particle s2w (qs ! j) (fst (cylinders ! j)) (snd (cylinders ! j))
                (number_of_landmarks (particles fs ! i))
                (minimum_correspondence_likelihood fs)
                (diag2 ((measurement_distance_stddev fs)\<^sup>2)
                       ((measurement_angle_stddev fs)\<^sup>2)) dg
              = Inr (qs ! Suc j, cs ! j)
            \<and> number_of_landmarks (particles fs ! i) \<le> number_of_landmarks (qs ! j)
            \<and> (\<exists>ls. compute_correspondence_likelihoods (qs ! j) (fst (cylinders ! j))
                       (number_of_landmarks (particles fs ! i))
                       (diag2 ((measurement_distance_stddev fs)\<^sup>2)
                              ((measurement_angle_stddev fs)\<^sup>2)) dg = Inr ls
                  \<and> length ls = number_of_landmarks (particles fs ! i)
                  \<and> compute_correspondence_likelihoods
                       ((qs ! j)\<lparr>landmark_positions :=
                                   take (number_of_landmarks (particles fs ! i))
                                     (landmark_positions (qs ! j)),
                                 landmark_covariances :=
                                   take (number_of_landmarks (particles fs ! i))
                                     (landmark_covariances (qs ! j))\<rparr>)
                       (fst (cylinders ! j)) (number_of_landmarks (particles fs ! i))
                       (diag2 ((measurement_distance_stddev fs)\<^sup>2)
                              ((measurement_angle_stddev fs)\<^sup>2)) dg = Inr ls)
            \<and> ((\<exists>lm. landmark_positions (qs ! Suc j) = landmark_positions (qs ! j) @ [lm])
               \<or> (\<exists>k<number_of_landmarks (particles fs ! i). \<exists>lm.
                     landmark_positions (qs ! Suc j)
                       = (landmark_positions (qs ! j))[k := lm]))))"
proof (intro allI impI)
  fix i assume i: "i < length (particles fs)"
  let ?thr = "minimum_correspondence_likelihood fs"
  let ?Qt = "diag2 ((measurement_distance_stddev fs)\<^sup>2) ((measurement_angle_stddev fs)\<^sup>2)"
  let ?N = "number_of_landmarks (particles fs ! i)"
  from assms have pl: "particles_loop s2w (particles fs) cylinders ?thr ?Qt dg = Inr (ps', ws)"
    by (simp add: update_and_compute_weights_def Let_def)
  from particles_loop_spec [OF pl] i
  have "measurements_loop s2w (particles fs ! i) cylinders ?N ?thr ?Qt dg 1
          = Inr (ps' ! i, ws ! i)"
    by simp
  from measurements_loop_trace [OF this] obtain qs cs where
    tr: "length qs = Suc (length cylinders)"
      "qs ! 0 = particles fs ! i" "qs ! length cylinders = ps' ! i"
      "\<forall>j<length cylinders.
          update_particle s2w (qs ! j) (fst (cylinders ! j)) (snd (cylinders ! j))
            ?N ?thr ?Qt dg = Inr (qs ! Suc j, cs ! j)"
    by auto
  have "update_particle s2w (qs ! j) (fst (cylinders ! j)) (snd (cylinders ! j))
                ?N ?thr ?Qt dg = Inr (qs ! Suc j, cs ! j)
            \<and> ?N \<le> number_of_landmarks (qs ! j)
            \<and> (\<exists>ls. compute_correspondence_likelihoods (qs ! j) (fst (cylinders ! j))
                       ?N ?Qt dg = Inr ls
                  \<and> length ls = ?N
                  \<and> compute_correspondence_likelihoods
                       ((qs ! j)\<lparr>landmark_positions := take ?N (landmark_positions (qs ! j)),
                                 landmark_covariances :=
                                   take ?N (landmark_covariances (qs ! j))\<rparr>)
                       (fst (cylinders ! j)) ?N ?Qt dg = Inr ls)
            \<and> ((\<exists>lm. landmark_positions (qs ! Suc j) = landmark_positions (qs ! j) @ [lm])
               \<or> (\<exists>k<?N. \<exists>lm.
                     landmark_positions (qs ! Suc j)
                       = (landmark_positions (qs ! j))[k := lm]))"
    if j: "j < length cylinders" for j
  proof -
    from tr(4) j have step: "update_particle s2w (qs ! j) (fst (cylinders ! j))
        (snd (cylinders ! j)) ?N ?thr ?Qt dg = Inr (qs ! Suc j, cs ! j)"
      by simp
    from trace_landmark_count [of "length cylinders" s2w qs "\<lambda>j. fst (cylinders ! j)"
        "\<lambda>j. snd (cylinders ! j)" ?N ?thr ?Qt dg cs j] tr(4) j tr(2)
    have "?N \<le> number_of_landmarks (qs ! j)" by simp
    moreover from update_particle_likelihoods [OF step] obtain ls where
      "compute_correspondence_likelihoods (qs ! j) (fst (cylinders ! j)) ?N ?Qt dg = Inr ls"
      "length ls = ?N"
      by blast
    moreover note update_particle_positions [OF step] step
    ultimately show ?thesis
      by (simp add: compute_correspondence_likelihoods_take)
  qed
  with tr show "\<exists>qs cs. length qs = Suc (length cylinders)
        \<and> qs ! 0 = particles fs ! i \<and> qs ! length cylinders = ps' ! i
        \<and> (\<forall>j<length cylinders.
              update_particle s2w (qs ! j) (fst (cylinders ! j)) (snd (cylinders ! j))
                ?N ?thr ?Qt dg = Inr (qs ! Suc j, cs ! j)
            \<and> ?N \<le> number_of_landmarks (qs ! j)
            \<and> (\<exists>ls. compute_correspondence_likelihoods (qs ! j) (fst (cylinders ! j))
                       ?N ?Qt dg = Inr ls
                  \<and> length ls = ?N
                  \<and> compute_correspondence_likelihoods
                       ((qs ! j)\<lparr>landmark_positions := take ?N (landmark_positions (qs ! j)),
                                 landmark_covariances :=
                                   take ?N (landmark_covariances (qs ! j))\<rparr>)
                       (fst (cylinders ! j)) ?N ?Qt dg = Inr ls)
            \<and> ((\<exists>lm. landmark_positions (qs ! Suc j) = landmark_positions (qs ! j) @ [lm])
               \<or> (\<exists>k<?N. \<exists>lm.
                     landmark_positions (qs ! Suc j)
                       = (landmark_positions (qs ! j))[k := lm])))"
    by blast
qed

theorem association_candidates_are_prestep_landmarks_witness:
  "update_and_compute_weights scanner_to_world 0 filter_empty_particle
     [((1, 0), (1, 0)), ((1, 0), (1, 0))] = Inr ([particle_two_new], [1 / 10000])
   \<and> (\<exists>qs ls0 ls1. length qs = 3 \<and> qs ! 0 = particle_empty \<and> qs ! 2 = particle_two_new
         \<and> compute_correspondence_likelihoods (qs ! 0) (1, 0)
               (number_of_landmarks particle_empty) (diag2 1 1) 0 = Inr ls0
         \<and> length ls0 = number_of_landmarks particle_empty
         \<and> compute_correspondence_likelihoods (qs ! 1) (1, 0)
               (number_of_landmarks particle_empty) (diag2 1 1) 0 = Inr ls1
         \<and> length ls1 = number_of_landmarks particle_empty)"
proof -
  have "(0::nat) < length (particles filter_empty_particle)"
    by (simp add: filter_empty_particle_def)
  with association_candidates_are_prestep_landmarks [OF weights_two_new]
  obtain qs cs where
    tr: "length qs = Suc (length [((1::real, 0::real), (1::real, 0::real)), ((1, 0), (1, 0))])"
      "qs ! 0 = particles filter_empty_particle ! 0"
      "qs ! length [((1::real, 0::real), (1::real, 0::real)), ((1, 0), (1, 0))]
         = [particle_two_new] ! 0"
      "\<forall>j<length [((1::real, 0::real), (1::real, 0::real)), ((1, 0), (1, 0))].
          \<exists>ls. compute_correspondence_likelihoods (qs ! j)
                 (fst ([((1::real, 0::real), (1::real, 0::real)), ((1, 0), (1, 0))] ! j))
                 (number_of_landmarks (particles filter_empty_particle ! 0))
                 (diag2 ((measurement_distance_stddev filter_empty_particle)\<^sup>2)
                        ((measurement_angle_stddev filter_empty_particle)\<^sup>2)) 0 = Inr ls
               \<and> length ls = number_of_landmarks (particles filter_empty_particle ! 0)"
    by blast
  from tr(4) obtain ls0 where
    l0: "compute_correspondence_likelihoods (qs ! 0) (1, 0)
           (number_of_landmarks particle_empty) (diag2 1 1) 0 = Inr ls0"
      "length ls0 = number_of_landmarks particle_empty"
    by (auto simp: filter_empty_particle_def)
  from tr(4) obtain ls1 where
    l1: "compute_correspondence_likelihoods (qs ! 1) (1, 0)
           (number_of_landmarks particle_empty) (diag2 1 1) 0 = Inr ls1"
      "length ls1 = number_of_landmarks particle_empty"
    by (auto simp: filter_empty_particle_def)
  from tr(1,2,3) have "length qs = 3" "qs ! 0 = particle_empty"
    "qs ! 2 = particle_two_new"
    by (simp_all add: filter_empty_particle_def numeral_2_eq_2)
  with l0 l1 weights_two_new show ?thesis by blast
qed

subsection \<open>The innovation and its bearing component\<close>

text \<open>
  C3 (as the claim states it, refuted). The claim: the bearing component of the innovation
  is wrapped to the interval from \<open>-\<pi>\<close> to \<open>\<pi>\<close> before it is used. For a particle at the
  origin with heading 0 and a landmark at (-1, 0) the expected bearing is \<open>-\<pi>\<close>; the
  measured bearing \<open>\<pi>\<close>/2 gives the innovation bearing 3\<open>\<pi>\<close>/2, greater than \<open>\<pi>\<close>. The
  likelihood has this value in its exponent (9\<open>\<pi>\<^sup>2\<close>/16 is (3\<open>\<pi>\<close>/2)\<open>\<^sup>2\<close>/4), and
  \<^verbatim>\<open>update_landmark\<close> moves the landmark by the gain times this value, to
  (-1, -3\<open>\<pi>\<close>/4).
\<close>

theorem innovation_bearing_counterexample:
  "delta_z particle_landmark_behind (1, pi / 2) 0 0 = Inr (Num (0, 3 * pi / 2))
   \<and> \<not> (3 * pi / 2 \<le> pi)
   \<and> wl_likelihood_of_correspondence particle_landmark_behind (1, pi / 2) 0 (diag2 1 1) 0
       = Inr (Num (1 / (4 * pi) * exp (- (9 * pi\<^sup>2 / 16))))
   \<and> update_landmark particle_landmark_behind 0 (1, pi / 2) (diag2 1 1) 0
       = Inr particle_landmark_behind_updated"
proof -
  have "\<not> (3 * pi / 2 \<le> pi)"
    using pi_gt_zero by simp
  with delta_z_behind wl_behind update_behind show ?thesis by blast
qed

text \<open>
  C3 (amended). For every landmark of the particle the innovation is the measurement minus
  the expected measurement, componentwise, and nothing wraps it. The expected bearing is
  wrapped, to the interval from \<open>-\<pi>\<close> (included) to \<open>\<pi>\<close> (excluded); so for a measured
  bearing in that interval the bearing component of the innovation lies strictly between
  \<open>-2\<pi>\<close> and \<open>2\<pi>\<close>. This difference, as it is, is the vector in the exponent of the
  likelihood and the vector that \<^verbatim>\<open>update_landmark\<close> multiplies the Kalman gain with. (The
  expected measurement of a landmark whose position is nan is nan, and so are the
  innovation and what is computed from it.)
\<close>

theorem innovation_bearing_unwrapped:
  assumes "k < length (landmark_positions p)"
  shows "delta_z p z k d
           = Inr (fp2 vec_sub (Num z) (h (pose p) (landmark_positions p ! k) d))
    \<and> (\<forall>lm. landmark_positions p ! k = Num lm \<longrightarrow>
          h (pose p) (landmark_positions p ! k) d = Num (h_num (pose p) lm d)
          \<and> delta_z p z k d = Inr (Num (vec_sub z (h_num (pose p) lm d)))
          \<and> - pi \<le> snd (h_num (pose p) lm d)
          \<and> snd (h_num (pose p) lm d) < pi
          \<and> (- pi \<le> snd z \<and> snd z < pi \<longrightarrow>
               - (2 * pi) < snd (vec_sub z (h_num (pose p) lm d))
               \<and> snd (vec_sub z (h_num (pose p) lm d)) < 2 * pi))
    \<and> (landmark_positions p ! k = NaN \<longrightarrow> delta_z p z k d = Inr NaN)
    \<and> (H_Ql_jacobian_and_measurement_covariance_for_landmark p k Qt d = Inr (H, Num Ql)
          \<and> 0 < linalg_det Ql \<and> linalg_inv Ql = Inr Ql_inv \<longrightarrow>
        wl_likelihood_of_correspondence p z k Qt d
          = Inr (fp1 (\<lambda>v. 1 / (2 * pi * sqrt (linalg_det Ql))
                          * exp (dot_vv (dot_vm (vec_scale (- 0.5) v) Ql_inv) v))
                   (fp2 vec_sub (Num z) (h (pose p) (landmark_positions p ! k) d))))
    \<and> (H_Ql_jacobian_and_measurement_covariance_for_landmark p k Qt d = Inr (H, Ql')
          \<and> linalg_inv_fp Ql' = Inr Ql_inv' \<longrightarrow>
        (\<exists>p'. update_landmark p k z Qt d = Inr p'
           \<and> landmark_positions p' ! k
               = fp2 vec_add (landmark_positions p ! k)
                   (fp2 dot_mv
                      (fp2 dot_mm (fp2 dot_mm (landmark_covariances p ! k) (fp1 mat_T H))
                         Ql_inv')
                      (fp2 vec_sub (Num z) (h (pose p) (landmark_positions p ! k) d)))))"
proof -
  let ?dz = "fp2 vec_sub (Num z) (h (pose p) (landmark_positions p ! k) d)"
  have dz: "delta_z p z k d = Inr ?dz"
    using assms
    by (simp add: delta_z_def h_expected_measurement_for_landmark_def nth_e_def)
  have num: "h (pose p) (landmark_positions p ! k) d = Num (h_num (pose p) lm d)
          \<and> delta_z p z k d = Inr (Num (vec_sub z (h_num (pose p) lm d)))
          \<and> - pi \<le> snd (h_num (pose p) lm d)
          \<and> snd (h_num (pose p) lm d) < pi
          \<and> (- pi \<le> snd z \<and> snd z < pi \<longrightarrow>
               - (2 * pi) < snd (vec_sub z (h_num (pose p) lm d))
               \<and> snd (vec_sub z (h_num (pose p) lm d)) < 2 * pi)"
    if lm: "landmark_positions p ! k = Num lm" for lm
  proof -
    note rng = h_bearing_range [of "pose p" lm d]
    have hn: "h (pose p) (landmark_positions p ! k) d = Num (h_num (pose p) lm d)"
      by (simp add: h_def lm)
    with dz have "delta_z p z k d = Inr (Num (vec_sub z (h_num (pose p) lm d)))" by simp
    with hn rng show ?thesis by (auto simp: vec_sub_def)
  qed
  have nan: "delta_z p z k d = Inr NaN" if "landmark_positions p ! k = NaN"
    using dz that by (simp add: h_def)
  have wl: "wl_likelihood_of_correspondence p z k Qt d
          = Inr (fp1 (\<lambda>v. 1 / (2 * pi * sqrt (linalg_det Ql))
                          * exp (dot_vv (dot_vm (vec_scale (- 0.5) v) Ql_inv) v)) ?dz)"
    if "H_Ql_jacobian_and_measurement_covariance_for_landmark p k Qt d = Inr (H, Num Ql)"
      and "0 < linalg_det Ql" and "linalg_inv Ql = Inr Ql_inv"
    using that dz by (simp add: wl_likelihood_of_correspondence_def)
  have ul: "\<exists>p'. update_landmark p k z Qt d = Inr p'
           \<and> landmark_positions p' ! k
               = fp2 vec_add (landmark_positions p ! k)
                   (fp2 dot_mv
                      (fp2 dot_mm (fp2 dot_mm (landmark_covariances p ! k) (fp1 mat_T H))
                         Ql_inv')
                      ?dz)"
    if HQ: "H_Ql_jacobian_and_measurement_covariance_for_landmark p k Qt d = Inr (H, Ql')"
      and inv: "linalg_inv_fp Ql' = Inr Ql_inv'"
  proof -
    from HQ have "nth_e (landmark_covariances p) k = Inr (landmark_covariances p ! k)"
      by (auto simp: H_Ql_jacobian_and_measurement_covariance_for_landmark_def nth_e_def
               Let_def split: sum.splits if_splits)
    moreover from assms have "nth_e (landmark_positions p) k = Inr (landmark_positions p ! k)"
      by (simp add: nth_e_def)
    ultimately show ?thesis
      using HQ inv dz assms by (simp add: update_landmark_def Let_def)
  qed
  from dz num nan wl ul show ?thesis by blast
qed

theorem innovation_bearing_unwrapped_witness:
  "0 < length (landmark_positions particle_landmark_behind)
   \<and> delta_z particle_landmark_behind (1, pi / 2) 0 0
       = Inr (fp2 vec_sub (Num (1, pi / 2))
               (h (pose particle_landmark_behind)
                  (landmark_positions particle_landmark_behind ! 0) 0))
   \<and> landmark_positions particle_landmark_behind ! 0 = Num (- 1, 0)
   \<and> - pi \<le> snd (h_num (pose particle_landmark_behind) (- 1, 0) 0)"
proof -
  have len: "0 < length (landmark_positions particle_landmark_behind)"
    by (simp add: particle_landmark_behind_def)
  have lm: "landmark_positions particle_landmark_behind ! 0 = Num (- 1, 0)"
    by (simp add: particle_landmark_behind_def)
  from innovation_bearing_unwrapped [OF len, of "(1, pi / 2)" 0] len lm
  show ?thesis by blast
qed

subsection \<open>The likelihood as a function of the innovation\<close>

text \<open>
  C7 (as the claim states it, refuted). The claim: with the innovation covariance fixed,
  symmetric and positive definite, the likelihood strictly decreases as either component of
  the innovation grows in magnitude while the other is held fixed. For the particle whose
  landmark covariance is ((2, 1), (1, 2)) the innovation covariance is ((3, 1), (1, 3)),
  symmetric and positive definite. The measurements (1, 3) and (2, 3) have the innovations
  (0, 3) and (1, 3): the bearing component is held at 3 and the range component grows from 0
  to 1, and the likelihood grows with it.
\<close>

theorem likelihood_monotone_counterexample:
  "H_Ql_jacobian_and_measurement_covariance_for_landmark particle_correlated 0
     (diag2 1 1) 0 = Inr (Num ((1, 0), (0, 1)), Num ((3, 1), (1, 3)))
   \<and> delta_z particle_correlated (1, 3) 0 0 = Inr (Num (0, 3))
   \<and> delta_z particle_correlated (2, 3) 0 0 = Inr (Num (1, 3))
   \<and> wl_likelihood_of_correspondence particle_correlated (1, 3) 0 (diag2 1 1) 0
       = Inr (Num (1 / (2 * pi * sqrt 8) * exp (- (27 / 16))))
   \<and> wl_likelihood_of_correspondence particle_correlated (2, 3) 0 (diag2 1 1) 0
       = Inr (Num (1 / (2 * pi * sqrt 8) * exp (- (3 / 2))))
   \<and> 1 / (2 * pi * sqrt 8) * exp (- (27 / 16)) < 1 / (2 * pi * sqrt 8) * exp (- (3 / 2))"
proof -
  have "(0::real) < 1 / (2 * pi * sqrt 8)" by simp
  moreover have "exp (- (27 / 16)) < exp (- (3 / 2) :: real)" by simp
  ultimately have "1 / (2 * pi * sqrt 8) * exp (- (27 / 16))
      < 1 / (2 * pi * sqrt 8) * exp (- (3 / 2))"
    by (rule mult_strict_left_mono [rotated])
  moreover have "delta_z particle_correlated (1, 3) 0 0 = Inr (Num (0, 3))"
    using delta_z_correlated [of 1 3] by simp
  moreover have "delta_z particle_correlated (2, 3) 0 0 = Inr (Num (1, 3))"
    using delta_z_correlated [of 2 3] by simp
  ultimately show ?thesis
    using H_Ql_correlated wl_correlated_near wl_correlated_far by blast
qed

text \<open>
  C7 (amended). Let the innovation covariance \<^verbatim>\<open>Ql\<close> of a landmark be symmetric and
  positive definite. The likelihood of a measurement whose innovation is (0, 0) is
  1 / (2\<open>\<pi>\<close> sqrt (det Ql)) exactly, and the likelihood of every other measurement is
  strictly smaller. The likelihood strictly decreases as one component of the innovation
  grows in magnitude, the other held fixed, when the other component is zero or when
  \<^verbatim>\<open>Ql\<close> is diagonal.
\<close>

theorem likelihood_peak_and_axis_monotone:
  assumes HQ: "H_Ql_jacobian_and_measurement_covariance_for_landmark p k Qt d
                 = Inr (H, Num ((a, b), (b, c)))"
    and a: "0 < a" and det: "0 < a * c - b * b"
  shows "(delta_z p z0 k d = Inr (Num (0, 0)) \<longrightarrow>
            wl_likelihood_of_correspondence p z0 k Qt d
              = Inr (Num (1 / (2 * pi * sqrt (a * c - b * b)))))
    \<and> (delta_z p z k d = Inr (Num (x, y)) \<and> (x, y) \<noteq> (0, 0) \<longrightarrow>
         (\<exists>l. wl_likelihood_of_correspondence p z k Qt d = Inr (Num l)
               \<and> l < 1 / (2 * pi * sqrt (a * c - b * b))))
    \<and> (delta_z p z1 k d = Inr (Num (x1, y)) \<and> delta_z p z2 k d = Inr (Num (x2, y))
          \<and> \<bar>x1\<bar> < \<bar>x2\<bar> \<and> (y = 0 \<or> b = 0) \<longrightarrow>
         (\<exists>l1 l2. wl_likelihood_of_correspondence p z1 k Qt d = Inr (Num l1)
               \<and> wl_likelihood_of_correspondence p z2 k Qt d = Inr (Num l2) \<and> l2 < l1))
    \<and> (delta_z p z3 k d = Inr (Num (x, y1)) \<and> delta_z p z4 k d = Inr (Num (x, y2))
          \<and> \<bar>y1\<bar> < \<bar>y2\<bar> \<and> (x = 0 \<or> b = 0) \<longrightarrow>
         (\<exists>l1 l2. wl_likelihood_of_correspondence p z3 k Qt d = Inr (Num l1)
               \<and> wl_likelihood_of_correspondence p z4 k Qt d = Inr (Num l2) \<and> l2 < l1))"
proof -
  let ?D = "a * c - b * b"
  let ?n = "1 / (2 * pi * sqrt ?D)"
  note val = wl_likelihood_value [OF HQ det]
  from det have n: "0 < ?n" by simp
  from a det have c: "0 < c" by (rule spd_other_diagonal)
  have zero: "wl_likelihood_of_correspondence p z0 k Qt d = Inr (Num ?n)"
    if "delta_z p z0 k d = Inr (Num (0, 0))"
    using val [OF that] by simp
  have peak: "\<exists>l. wl_likelihood_of_correspondence p z k Qt d = Inr (Num l) \<and> l < ?n"
    if dz: "delta_z p z k d = Inr (Num (x, y))" and ne: "(x, y) \<noteq> (0, 0)"
  proof -
    from quadratic_form_positive [OF a det ne] det
    have "0 < (c * x * x - 2 * b * x * y + a * y * y) / (2 * ?D)" by simp
    then have "exp (- ((c * x * x - 2 * b * x * y + a * y * y) / (2 * ?D))) < 1" by simp
    with n have "?n * exp (- ((c * x * x - 2 * b * x * y + a * y * y) / (2 * ?D))) < ?n * 1"
      by (intro mult_strict_left_mono)
    with val [OF dz] show ?thesis by simp
  qed
  have first: "\<exists>l1 l2. wl_likelihood_of_correspondence p z1 k Qt d = Inr (Num l1)
               \<and> wl_likelihood_of_correspondence p z2 k Qt d = Inr (Num l2) \<and> l2 < l1"
    if d1: "delta_z p z1 k d = Inr (Num (x1, y))" and d2: "delta_z p z2 k d = Inr (Num (x2, y))"
      and lt: "\<bar>x1\<bar> < \<bar>x2\<bar>" and ax: "y = 0 \<or> b = 0"
  proof -
    from ax have "2 * b * x1 * y = 0" "2 * b * x2 * y = 0" by auto
    moreover from abs_less_square [OF lt] c have "c * x1 * x1 < c * x2 * x2"
      by (simp add: mult.assoc)
    ultimately have "c * x1 * x1 - 2 * b * x1 * y + a * y * y
        < c * x2 * x2 - 2 * b * x2 * y + a * y * y"
      by linarith
    from exp_quadratic_less [OF det this n] val [OF d1] val [OF d2]
    show ?thesis by simp
  qed
  have second: "\<exists>l1 l2. wl_likelihood_of_correspondence p z3 k Qt d = Inr (Num l1)
               \<and> wl_likelihood_of_correspondence p z4 k Qt d = Inr (Num l2) \<and> l2 < l1"
    if d1: "delta_z p z3 k d = Inr (Num (x, y1))" and d2: "delta_z p z4 k d = Inr (Num (x, y2))"
      and lt: "\<bar>y1\<bar> < \<bar>y2\<bar>" and ax: "x = 0 \<or> b = 0"
  proof -
    from ax have "2 * b * x * y1 = 0" "2 * b * x * y2 = 0" by auto
    moreover from abs_less_square [OF lt] a have "a * y1 * y1 < a * y2 * y2"
      by (simp add: mult.assoc)
    ultimately have "c * x * x - 2 * b * x * y1 + a * y1 * y1
        < c * x * x - 2 * b * x * y2 + a * y2 * y2"
      by linarith
    from exp_quadratic_less [OF det this n] val [OF d1] val [OF d2]
    show ?thesis by simp
  qed
  from zero peak first second show ?thesis by blast
qed

theorem likelihood_peak_and_axis_monotone_witness:
  "H_Ql_jacobian_and_measurement_covariance_for_landmark particle_correlated 0
     (diag2 1 1) 0 = Inr (Num ((1, 0), (0, 1)), Num ((3, 1), (1, 3)))
   \<and> (0::real) < 3 \<and> (0::real) < 3 * 3 - 1 * 1
   \<and> delta_z particle_correlated (1, 0) 0 0 = Inr (Num (0, 0))
   \<and> wl_likelihood_of_correspondence particle_correlated (1, 0) 0 (diag2 1 1) 0
       = Inr (Num (1 / (2 * pi * sqrt (3 * 3 - 1 * 1))))"
proof -
  have a: "(0::real) < 3" and det: "(0::real) < 3 * 3 - 1 * 1" by simp_all
  have dz: "delta_z particle_correlated (1, 0) 0 0 = Inr (Num (0, 0))"
    using delta_z_correlated [of 1 0] by simp
  from likelihood_peak_and_axis_monotone [OF H_Ql_correlated a det, where z0 = "(1, 0)"]
    dz
  have "wl_likelihood_of_correspondence particle_correlated (1, 0) 0 (diag2 1 1) 0
       = Inr (Num (1 / (2 * pi * sqrt (3 * 3 - 1 * 1))))"
    by blast
  with H_Ql_correlated a det dz show ?thesis by blast
qed

subsection \<open>Resampling returns as many particles as there are\<close>

text \<open>
  C6 (as the claim states it, refuted). The claim: for every weight vector whose length is
  the particle count N and whose entries are all positive, \<^verbatim>\<open>resample\<close> returns N
  particles. For N = 0 the weight vector is empty, every entry of it is positive, and
  \<^verbatim>\<open>max(weights)\<close> raises \<^verbatim>\<open>ValueError\<close>: no list is returned.
\<close>

theorem resample_empty_counterexample:
  "resample [] [] 0 draws_zero = Some (Inl ValueError)"
  by (simp add: resample_def resample_with_def)

text \<open>
  C6 (amended). For at least one particle, a weight vector of the same length whose entries
  are all positive, a start index in the range of \<^verbatim>\<open>randint\<close> and any results of
  \<^verbatim>\<open>random()\<close>, \<^verbatim>\<open>resample\<close> terminates and returns a list of exactly as many
  particles; \<^verbatim>\<open>predict\<close>, when it returns, keeps the number of particles; and with a
  positive threshold, whenever the weights of a correction step are computed, \<^verbatim>\<open>correct\<close>
  terminates and returns a filter with the same number of particles.
\<close>

theorem resample_returns_all_particles:
  shows "(length weights = length ps \<and> ps \<noteq> [] \<and> (\<forall>w\<in>set weights. 0 < w)
            \<and> start < length ps \<longrightarrow>
          (\<exists>out. resample ps weights start us = Some (Inr out)
                 \<and> length out = length ps))
    \<and> (predict fs control zs = Inr fs1 \<longrightarrow>
          length (particles fs1) = length (particles fs))
    \<and> (0 < minimum_correspondence_likelihood fs \<and> particles fs \<noteq> []
          \<and> start < length (particles fs)
          \<and> update_and_compute_weights s2w dg fs cylinders = Inr (ps', ws) \<longrightarrow>
          (\<exists>fs2. correct s2w dg fs cylinders start us = Some (Inr fs2)
                 \<and> length (particles fs2) = length (particles fs)))"
proof (intro conjI impI)
  assume "length weights = length ps \<and> ps \<noteq> [] \<and> (\<forall>w\<in>set weights. 0 < w)
            \<and> start < length ps"
  then have "\<forall>w\<in>set weights. 0 \<le> w" "length weights = length ps" "ps \<noteq> []"
    "start < length ps"
    by (auto intro: less_imp_le)
  then show "\<exists>out. resample ps weights start us = Some (Inr out)
                 \<and> length out = length ps"
    by (rule resample_returns)
next
  assume "predict fs control zs = Inr fs1"
  then show "length (particles fs1) = length (particles fs)"
    by (auto simp: predict_def Let_def split: prod.splits sum.splits
             dest: predict_loop_length)
next
  assume a: "0 < minimum_correspondence_likelihood fs \<and> particles fs \<noteq> []
          \<and> start < length (particles fs)
          \<and> update_and_compute_weights s2w dg fs cylinders = Inr (ps', ws)"
  then have "particles_loop s2w (particles fs) cylinders (minimum_correspondence_likelihood fs)
      (diag2 ((measurement_distance_stddev fs)\<^sup>2) ((measurement_angle_stddev fs)\<^sup>2)) dg
      = Inr (ps', ws)"
    by (simp add: update_and_compute_weights_def Let_def)
  with a weights_nonneg have w: "length ps' = length (particles fs)"
    "length ws = length (particles fs)" "\<forall>w\<in>set ws. 0 \<le> w"
    by blast+
  with a have "ps' \<noteq> []" "start < length ps'" "length ws = length ps'" by auto
  from resample_returns [OF w(3) this(3,1,2), of us] obtain out where
    "resample ps' ws start us = Some (Inr out)" "length out = length ps'"
    by blast
  with a w(1) show "\<exists>fs2. correct s2w dg fs cylinders start us = Some (Inr fs2)
                 \<and> length (particles fs2) = length (particles fs)"
    by (simp add: correct_def)
qed

theorem resample_returns_all_particles_witness:
  "length [1, 2 :: real] = length [particle_empty, particle_one_landmark]
   \<and> [particle_empty, particle_one_landmark] \<noteq> []
   \<and> 0 < (1::real) \<and> 0 < (2::real)
   \<and> 0 < length [particle_empty, particle_one_landmark]
   \<and> resample [particle_empty, particle_one_landmark] [1, 2] 0 draws_zero
       = Some (Inr [particle_empty, particle_empty])
   \<and> length [particle_empty, particle_empty]
       = length [particle_empty, particle_one_landmark]
   \<and> (\<exists>fs1. predict filter_one_particle (1, 1) draws_zero = Inr fs1
          \<and> length (particles fs1) = length (particles filter_one_particle))
   \<and> 0 < minimum_correspondence_likelihood filter_one_particle
   \<and> particles filter_one_particle \<noteq> []
   \<and> update_and_compute_weights scanner_to_world 0 filter_one_particle [((1, 0), (1, 0))]
       = Inr ([particle_one_landmark_updated], [1 / (4 * pi)])
   \<and> (\<exists>fs2. correct scanner_to_world 0 filter_one_particle [((1, 0), (1, 0))] 0 draws_zero
            = Some (Inr fs2)
          \<and> length (particles fs2) = length (particles filter_one_particle))"
proof -
  note inst = resample_returns_all_particles [of "[1, 2]"
      "[particle_empty, particle_one_landmark]" 0 draws_zero filter_one_particle "(1, 1)"
      draws_zero _ scanner_to_world 0 "[((1, 0), (1, 0))]"
      "[particle_one_landmark_updated]" "[1 / (4 * pi)]"]
  have h1: "length [1, 2 :: real] = length [particle_empty, particle_one_landmark]
      \<and> [particle_empty, particle_one_landmark] \<noteq> []
      \<and> (\<forall>w\<in>set [1, 2 :: real]. 0 < w)
      \<and> 0 < length [particle_empty, particle_one_landmark]"
    by simp
  have r: "resample [particle_empty, particle_one_landmark] [1, 2] 0 draws_zero
       = Some (Inr [particle_empty, particle_empty])"
    by (simp add: resample_def resample_with_def wheel.simps nth_e_def uniform_def
        copy_value_def draws_zero_def)
  from inst h1 r have c1: "length [particle_empty, particle_empty]
       = length [particle_empty, particle_one_landmark]"
    by auto
  obtain fs1 where p: "predict filter_one_particle (1, 1) draws_zero = Inr fs1"
    by (simp add: predict_def filter_one_particle_def draws_zero_def move_def g_def
        particle_one_landmark_def)
  with inst have c2: "length (particles fs1) = length (particles filter_one_particle)"
    by blast
  have h3: "0 < minimum_correspondence_likelihood filter_one_particle"
    "particles filter_one_particle \<noteq> []" "0 < length (particles filter_one_particle)"
    by (simp_all add: filter_one_particle_def)
  with inst weights_one
  have c3: "\<exists>fs2. correct scanner_to_world 0 filter_one_particle [((1, 0), (1, 0))] 0
                  draws_zero = Some (Inr fs2)
          \<and> length (particles fs2) = length (particles filter_one_particle)"
    by blast
  from h1 r c1 p c2 h3 weights_one c3 show ?thesis by auto
qed

subsection \<open>A singular innovation covariance\<close>

text \<open>
  C8 (as the claim states it, refuted). The claim: a singular innovation covariance met
  during the likelihood evaluation is a local condition that does not abort the processing
  of the remaining particles. A filter whose measurement deviations are 0 initializes, from
  the observation (1, 0), a landmark with the zero covariance. When this particle, followed
  by a particle without landmarks, sees the observation again, the innovation covariance of
  its landmark is the zero matrix, the likelihood evaluation divides by zero, and
  \<^verbatim>\<open>update_and_compute_weights\<close> and \<^verbatim>\<open>correct\<close> end with \<^verbatim>\<open>ZeroDivisionError\<close>: the second
  particle, which the first line shows to be processed without error on its own, is never
  reached.
\<close>

theorem singular_covariance_counterexample:
  "update_and_compute_weights scanner_to_world 0 filter_exact_sensor [((1, 0), (1, 0))]
     = Inr ([particle_zero_covariance], [1 / 100])
   \<and> H_Ql_jacobian_and_measurement_covariance_for_landmark particle_zero_covariance 0
       (diag2 0 0) 0 = Inr (Num ((1, 0), (0, 1)), Num ((0, 0), (0, 0)))
   \<and> update_and_compute_weights scanner_to_world 0
       (filter_exact_sensor\<lparr>particles := [particle_zero_covariance, particle_empty]\<rparr>)
       [((1, 0), (1, 0))] = Inl ZeroDivisionError
   \<and> correct scanner_to_world 0
       (filter_exact_sensor\<lparr>particles := [particle_zero_covariance, particle_empty]\<rparr>)
       [((1, 0), (1, 0))] 0 draws_zero = Some (Inl ZeroDivisionError)"
  using weights_exact_first H_Ql_zero_covariance weights_exact_second correct_exact_second
  by blast

text \<open>
  C8 (amended). Nothing in the filter catches a numerical exception. A landmark whose
  innovation covariance has determinant zero makes \<^verbatim>\<open>wl_likelihood_of_correspondence\<close>
  raise \<^verbatim>\<open>ZeroDivisionError\<close>. An exception of the likelihood evaluation for a candidate
  landmark is raised by \<^verbatim>\<open>update_particle\<close>; an exception of \<^verbatim>\<open>update_particle\<close> for an
  observation ends the loop over the observations with it; and an exception for a particle
  ends \<^verbatim>\<open>update_and_compute_weights\<close> and \<^verbatim>\<open>correct\<close> with it: no weight is returned, and
  neither the remaining observations nor the remaining particles are processed.
\<close>

theorem numerical_exception_aborts_step:
  "(H_Ql_jacobian_and_measurement_covariance_for_landmark p k Qt d = Inr (H, Num Ql)
      \<and> linalg_det Ql = 0 \<longrightarrow>
    wl_likelihood_of_correspondence p z k Qt d = Inl ZeroDivisionError)
   \<and> (k < N \<and> (\<forall>j<k. \<exists>l. wl_likelihood_of_correspondence p z j Qt d = Inr l)
        \<and> wl_likelihood_of_correspondence p z k Qt d = Inl e \<longrightarrow>
      update_particle s2w p z zs N thr Qt d = Inl e)
   \<and> (measurements_loop s2w p obs1 N thr Qt d w0 = Inr (q, w)
        \<and> update_particle s2w q (fst ob) (snd ob) N thr Qt d = Inl e \<longrightarrow>
      measurements_loop s2w p (obs1 @ ob # obs2) N thr Qt d w0 = Inl e)
   \<and> (i < length (particles fs)
        \<and> (\<forall>j<i. \<exists>r. measurements_loop s2w (particles fs ! j) cylinders
                        (number_of_landmarks (particles fs ! j))
                        (minimum_correspondence_likelihood fs)
                        (diag2 ((measurement_distance_stddev fs)\<^sup>2)
                               ((measurement_angle_stddev fs)\<^sup>2)) dg 1 = Inr r)
        \<and> measurements_loop s2w (particles fs ! i) cylinders
              (number_of_landmarks (particles fs ! i))
              (minimum_correspondence_likelihood fs)
              (diag2 ((measurement_distance_stddev fs)\<^sup>2)
                     ((measurement_angle_stddev fs)\<^sup>2)) dg 1 = Inl e \<longrightarrow>
      update_and_compute_weights s2w dg fs cylinders = Inl e
      \<and> correct s2w dg fs cylinders start us = Some (Inl e))"
proof (intro conjI impI)
  assume "H_Ql_jacobian_and_measurement_covariance_for_landmark p k Qt d = Inr (H, Num Ql)
      \<and> linalg_det Ql = 0"
  then show "wl_likelihood_of_correspondence p z k Qt d = Inl ZeroDivisionError"
    using wl_singular by blast
next
  assume "k < N \<and> (\<forall>j<k. \<exists>l. wl_likelihood_of_correspondence p z j Qt d = Inr l)
        \<and> wl_likelihood_of_correspondence p z k Qt d = Inl e"
  then show "update_particle s2w p z zs N thr Qt d = Inl e"
    using update_particle_fails by blast
next
  assume "measurements_loop s2w p obs1 N thr Qt d w0 = Inr (q, w)
        \<and> update_particle s2w q (fst ob) (snd ob) N thr Qt d = Inl e"
  then show "measurements_loop s2w p (obs1 @ ob # obs2) N thr Qt d w0 = Inl e"
    using measurements_loop_fails by blast
next
  let ?thr = "minimum_correspondence_likelihood fs"
  let ?Qt = "diag2 ((measurement_distance_stddev fs)\<^sup>2) ((measurement_angle_stddev fs)\<^sup>2)"
  assume a: "i < length (particles fs)
        \<and> (\<forall>j<i. \<exists>r. measurements_loop s2w (particles fs ! j) cylinders
                        (number_of_landmarks (particles fs ! j)) ?thr ?Qt dg 1 = Inr r)
        \<and> measurements_loop s2w (particles fs ! i) cylinders
              (number_of_landmarks (particles fs ! i)) ?thr ?Qt dg 1 = Inl e"
  then have "particles_loop s2w (particles fs) cylinders ?thr ?Qt dg = Inl e"
    by (intro particles_loop_fails [of i]) blast+
  then have u: "update_and_compute_weights s2w dg fs cylinders = Inl e"
    by (simp add: update_and_compute_weights_def Let_def)
  then have "correct s2w dg fs cylinders start us = Some (Inl e)"
    by (simp add: correct_def)
  with u show "update_and_compute_weights s2w dg fs cylinders = Inl e"
    and "correct s2w dg fs cylinders start us = Some (Inl e)"
    by simp_all
qed

theorem numerical_exception_aborts_step_witness:
  "H_Ql_jacobian_and_measurement_covariance_for_landmark particle_zero_covariance 0
     (diag2 0 0) 0 = Inr (Num ((1, 0), (0, 1)), Num ((0, 0), (0, 0)))
   \<and> linalg_det ((0, 0), (0, 0)) = 0
   \<and> wl_likelihood_of_correspondence particle_zero_covariance (1, 0) 0 (diag2 0 0) 0
       = Inl ZeroDivisionError
   \<and> update_particle scanner_to_world particle_zero_covariance (1, 0) (1, 0) (Suc 0) (1 / 100)
       (diag2 0 0) 0 = Inl ZeroDivisionError
   \<and> measurements_loop scanner_to_world particle_zero_covariance [((1, 0), (1, 0))] (Suc 0)
       (1 / 100) (diag2 0 0) 0 1 = Inl ZeroDivisionError"
proof -
  note inst = numerical_exception_aborts_step [where p = particle_zero_covariance
      and k = 0 and Qt = "diag2 0 0" and d = 0 and H = "Num ((1, 0), (0, 1))"
      and Ql = "((0, 0), (0, 0))" and z = "(1, 0)" and N = "Suc 0"
      and e = ZeroDivisionError and s2w = scanner_to_world and zs = "(1, 0)"
      and thr = "1 / 100" and ?obs1.0 = "[]" and ?w0.0 = 1 and q = particle_zero_covariance
      and w = 1 and ob = "((1, 0), (1, 0))" and ?obs2.0 = "[]"]
  have d: "linalg_det ((0, 0), (0, 0)) = 0" by (simp add: linalg_det_def)
  from inst H_Ql_zero_covariance d
  have w: "wl_likelihood_of_correspondence particle_zero_covariance (1, 0) 0 (diag2 0 0) 0
       = Inl ZeroDivisionError"
    by blast
  with inst
  have u: "update_particle scanner_to_world particle_zero_covariance (1, 0) (1, 0) (Suc 0)
       (1 / 100) (diag2 0 0) 0 = Inl ZeroDivisionError"
    by simp
  have "measurements_loop scanner_to_world particle_zero_covariance [] (Suc 0)
       (1 / 100) (diag2 0 0) 0 1 = Inr (particle_zero_covariance, 1)"
    by simp
  with inst u
  have "measurements_loop scanner_to_world particle_zero_covariance [((1, 0), (1, 0))] (Suc 0)
       (1 / 100) (diag2 0 0) 0 1 = Inl ZeroDivisionError"
    by simp
  with H_Ql_zero_covariance d w u show ?thesis by blast
qed

subsection \<open>Deep copies in the store\<close>

lemma nth_e_append: "a < length hp \<Longrightarrow> nth_e (hp @ ext) a = nth_e hp a"
  by (simp add: nth_e_def nth_append)

lemma copy_ok_leaf_append:
  "copy_ok_leaf n0 hp a y \<Longrightarrow> copy_ok_leaf n0 (hp @ ext) a y"
  by (auto simp: copy_ok_leaf_def nth_append split: pyobj.splits)

lemma copy_ok_append:
  assumes "copy_ok n0 hp a y"
  shows "copy_ok n0 (hp @ ext) a y"
proof -
  from assms have b: "a < n0" "n0 \<le> length hp" "y < length hp"
    by (simp_all add: copy_ok_def)
  then have n: "(hp @ ext) ! a = hp ! a" "(hp @ ext) ! y = hp ! y"
    by (simp_all add: nth_append)
  show ?thesis
  proof (cases "hp ! a")
    case (PyList es)
    with assms obtain es' where
      "n0 \<le> y" "hp ! y = PyList es'" "length es' = length es"
      "\<forall>i<length es. copy_ok_leaf n0 hp (es ! i) (es' ! i)"
      by (auto simp: copy_ok_def)
    then have "n0 \<le> y \<and> (\<exists>es'. (hp @ ext) ! y = PyList es' \<and> length es' = length es
                      \<and> (\<forall>i<length es. copy_ok_leaf n0 (hp @ ext) (es ! i) (es' ! i)))"
      using n copy_ok_leaf_append by auto
    with b n PyList show ?thesis by (simp add: copy_ok_def)
  qed (use assms b n in \<open>auto simp: copy_ok_def\<close>)
qed

lemma memo_ok_append: "memo_ok n0 hp memo \<Longrightarrow> memo_ok n0 (hp @ ext) memo"
  by (auto simp: memo_ok_def dest: copy_ok_append)

lemma copy_ok_leaf_is_copy_ok: "copy_ok_leaf n0 hp a y \<Longrightarrow> copy_ok n0 hp a y"
  by (auto simp: copy_ok_leaf_def copy_ok_def split: pyobj.splits)

lemma copy_ok_on_leaf:
  "copy_ok n0 hp a y \<Longrightarrow> leaf_value hp a \<noteq> None \<Longrightarrow> copy_ok_leaf n0 hp a y"
  by (auto simp: copy_ok_leaf_def copy_ok_def leaf_value_def nth_e_def
           split: pyobj.splits if_splits)

lemma deepcopy_leaf_ok:
  assumes m: "memo_ok n0 hp memo" and n: "n0 \<le> length hp" and a: "a < n0"
    and wf: "leaf_value hp a \<noteq> None"
  shows "\<exists>ext memo' y. deepcopy_leaf hp memo a = Inr (hp @ ext, memo', y)
           \<and> memo_ok n0 (hp @ ext) memo' \<and> copy_ok_leaf n0 (hp @ ext) a y"
proof (cases "memo a")
  case (Some y)
  with m have "copy_ok n0 hp a y" by (simp add: memo_ok_def)
  then have "copy_ok_leaf n0 hp a y" using wf by (rule copy_ok_on_leaf)
  with Some m show ?thesis
    by (intro exI [of _ "[]"] exI [of _ memo] exI [of _ y]) (simp add: deepcopy_leaf_def)
next
  case None
  from a n have al: "a < length hp" by simp
  from wf consider (arr) v where "hp ! a = Ndarray v" | (tup) v where "hp ! a = Tuple v"
    using al by (auto simp: leaf_value_def nth_e_def split: pyobj.splits)
  then show ?thesis
  proof cases
    case arr
    have c: "copy_ok_leaf n0 (hp @ [Ndarray v]) a (length hp)"
      using a n al arr by (simp add: copy_ok_leaf_def nth_append)
    have "memo_ok n0 (hp @ [Ndarray v]) (memo(a \<mapsto> length hp))"
      unfolding memo_ok_def
    proof (intro allI impI)
      fix b y assume "(memo(a \<mapsto> length hp)) b = Some y"
      then consider "b = a" "y = length hp" | "memo b = Some y"
        by (cases "b = a") simp_all
      then show "copy_ok n0 (hp @ [Ndarray v]) b y"
      proof cases
        case 1
        with c show ?thesis by (simp add: copy_ok_leaf_is_copy_ok)
      next
        case 2
        with m show ?thesis by (auto simp: memo_ok_def dest: copy_ok_append)
      qed
    qed
    with c None al arr show ?thesis
      by (intro exI [of _ "[Ndarray v]"] exI [of _ "memo(a \<mapsto> length hp)"]
          exI [of _ "length hp"]) (simp add: deepcopy_leaf_def nth_e_def)
  next
    case tup
    have c: "copy_ok_leaf n0 hp a a"
      using a n al tup by (simp add: copy_ok_leaf_def)
    have "memo_ok n0 hp (memo(a \<mapsto> a))"
      unfolding memo_ok_def
    proof (intro allI impI)
      fix b y assume "(memo(a \<mapsto> a)) b = Some y"
      then consider "b = a" "y = a" | "memo b = Some y"
        by (cases "b = a") simp_all
      then show "copy_ok n0 hp b y"
      proof cases
        case 1
        with c show ?thesis by (simp add: copy_ok_leaf_is_copy_ok)
      next
        case 2
        with m show ?thesis by (simp add: memo_ok_def)
      qed
    qed
    with c None al tup show ?thesis
      by (intro exI [of _ "[]"] exI [of _ "memo(a \<mapsto> a)"] exI [of _ a])
         (simp add: deepcopy_leaf_def nth_e_def)
  qed
qed

lemma leaf_value_append: "a < length hp \<Longrightarrow> leaf_value (hp @ ext) a = leaf_value hp a"
  by (simp add: leaf_value_def nth_e_append)

lemma leaf_value_valid: "leaf_value hp a \<noteq> None \<Longrightarrow> a < length hp"
  by (auto simp: leaf_value_def nth_e_def split: if_splits)

lemma those_Some_all:
  "those xs = Some ys \<Longrightarrow> \<forall>x\<in>set xs. x \<noteq> None"
  by (induction xs arbitrary: ys) (auto split: option.splits)

lemma deepcopy_elements_ok:
  assumes n: "n0 \<le> length hp"
    and es: "\<forall>e\<in>set es. e < n0 \<and> leaf_value hp e \<noteq> None"
    and m: "memo_ok n0 hp memo"
  shows "\<exists>ext memo' es'. deepcopy_elements hp memo es = Inr (hp @ ext, memo', es')
           \<and> memo_ok n0 (hp @ ext) memo' \<and> length es' = length es
           \<and> (\<forall>i<length es. copy_ok_leaf n0 (hp @ ext) (es ! i) (es' ! i))"
  using assms
proof (induction es arbitrary: hp memo)
  case Nil
  then show ?case by (intro exI [of _ "[]"]) simp
next
  case (Cons e es)
  from Cons.prems have e: "e < n0" "leaf_value hp e \<noteq> None" by simp_all
  from deepcopy_leaf_ok [OF Cons.prems(3) Cons.prems(1) e] obtain ext1 memo1 y where
    l: "deepcopy_leaf hp memo e = Inr (hp @ ext1, memo1, y)"
    and m1: "memo_ok n0 (hp @ ext1) memo1" and c: "copy_ok_leaf n0 (hp @ ext1) e y"
    by blast
  have n1: "n0 \<le> length (hp @ ext1)" using Cons.prems(1) by simp
  have es1: "\<forall>e\<in>set es. e < n0 \<and> leaf_value (hp @ ext1) e \<noteq> None"
    using Cons.prems(1,2) by (auto simp: leaf_value_append)
  from Cons.IH [OF n1 es1 m1] obtain ext2 memo2 es' where
    r: "deepcopy_elements (hp @ ext1) memo1 es = Inr ((hp @ ext1) @ ext2, memo2, es')"
    and m2: "memo_ok n0 ((hp @ ext1) @ ext2) memo2" and len: "length es' = length es"
    and cs: "\<forall>i<length es. copy_ok_leaf n0 ((hp @ ext1) @ ext2) (es ! i) (es' ! i)"
    by blast
  have "\<forall>i<length (e # es).
          copy_ok_leaf n0 (hp @ ext1 @ ext2) ((e # es) ! i) ((y # es') ! i)"
  proof (intro allI impI)
    fix i assume "i < length (e # es)"
    then show "copy_ok_leaf n0 (hp @ ext1 @ ext2) ((e # es) ! i) ((y # es') ! i)"
      using copy_ok_leaf_append [OF c, of ext2] cs by (cases i) simp_all
  qed
  with l r m2 len show ?case
    by (intro exI [of _ "ext1 @ ext2"] exI [of _ memo2] exI [of _ "y # es'"]) simp
qed

lemma deepcopy_list_ok:
  assumes n: "n0 \<le> length hp" and a: "a < n0" and obj: "hp ! a = PyList es"
    and es: "\<forall>e\<in>set es. e < n0 \<and> leaf_value hp e \<noteq> None"
    and m: "memo_ok n0 hp memo"
  shows "\<exists>ext memo' y. deepcopy_list hp memo a = Inr (hp @ ext, memo', y)
           \<and> memo_ok n0 (hp @ ext) memo' \<and> copy_ok n0 (hp @ ext) a y"
proof (cases "memo a")
  case (Some y)
  with m have "copy_ok n0 hp a y" by (simp add: memo_ok_def)
  with Some m show ?thesis
    by (intro exI [of _ "[]"] exI [of _ memo] exI [of _ y]) (simp add: deepcopy_list_def)
next
  case None
  from a n have al: "a < length hp" by simp
  from deepcopy_elements_ok [OF n es m] obtain ext memo1 es' where
    r: "deepcopy_elements hp memo es = Inr (hp @ ext, memo1, es')"
    and m1: "memo_ok n0 (hp @ ext) memo1" and len: "length es' = length es"
    and cs: "\<forall>i<length es. copy_ok_leaf n0 (hp @ ext) (es ! i) (es' ! i)"
    by blast
  let ?hp = "(hp @ ext) @ [PyList es']"
  let ?y = "length (hp @ ext)"
  have oa: "?hp ! a = PyList es" using al obj by (simp add: nth_append)
  have c: "copy_ok n0 ?hp a ?y"
    unfolding copy_ok_def
    using a n oa len cs copy_ok_leaf_append [of n0 "hp @ ext" _ _ "[PyList es']"]
    by auto
  have "memo_ok n0 ?hp (memo1(a \<mapsto> ?y))"
    unfolding memo_ok_def
  proof (intro allI impI)
    fix b y assume "(memo1(a \<mapsto> ?y)) b = Some y"
    then consider "b = a" "y = ?y" | "memo1 b = Some y"
      by (cases "b = a") simp_all
    then show "copy_ok n0 ?hp b y"
    proof cases
      case 1
      with c show ?thesis by simp
    next
      case 2
      with m1 have "copy_ok n0 (hp @ ext) b y" by (simp add: memo_ok_def)
      from copy_ok_append [OF this, of "[PyList es']"] show ?thesis by simp
    qed
  qed
  with c None al obj r show ?thesis
    by (intro exI [of _ "ext @ [PyList es']"] exI [of _ "memo1(a \<mapsto> ?y)"] exI [of _ ?y])
       (simp add: deepcopy_list_def nth_e_def)
qed

lemma is_tuple_append: "r < length hp \<Longrightarrow> is_tuple (hp @ ext) r = is_tuple hp r"
  by (simp add: is_tuple_def nth_e_append)

lemma leaf_value_Some_valid: "leaf_value hp a = Some v \<Longrightarrow> a < length hp"
  by (auto simp: leaf_value_def nth_e_def split: if_splits)

lemma copy_ok_leaf_facts:
  assumes "copy_ok_leaf n0 hp a y"
  shows "leaf_value hp y = leaf_value hp a" and "leaf_value hp a \<noteq> None"
    and "n0 \<le> y \<and> y < length hp \<and> \<not> is_tuple hp y \<or> y < n0 \<and> is_tuple hp y"
  using assms
  by (auto simp: copy_ok_leaf_def leaf_value_def is_tuple_def nth_e_def split: pyobj.splits)

lemma copy_ok_list_facts:
  assumes c: "copy_ok n0 hp a y" and obj: "hp ! a = PyList es"
  shows "n0 \<le> y \<and> y < length hp \<and> \<not> is_tuple hp y
    \<and> (\<exists>es'. hp ! y = PyList es'
          \<and> map (leaf_value hp) es' = map (leaf_value hp) es
          \<and> (\<forall>e\<in>set es'. n0 \<le> e \<and> e < length hp \<and> \<not> is_tuple hp e
                           \<or> e < n0 \<and> is_tuple hp e))"
proof -
  from c obj obtain es' where
    y: "n0 \<le> y" "y < length hp" "hp ! y = PyList es'" and len: "length es' = length es"
    and cs: "\<forall>i<length es. copy_ok_leaf n0 hp (es ! i) (es' ! i)"
    by (auto simp: copy_ok_def)
  have "map (leaf_value hp) es' = map (leaf_value hp) es"
  proof (rule nth_equalityI)
    show "length (map (leaf_value hp) es') = length (map (leaf_value hp) es)"
      using len by simp
  next
    fix i assume i: "i < length (map (leaf_value hp) es')"
    with len cs have "copy_ok_leaf n0 hp (es ! i) (es' ! i)" by simp
    from copy_ok_leaf_facts(1) [OF this] i len
    show "map (leaf_value hp) es' ! i = map (leaf_value hp) es ! i"
      by simp
  qed
  moreover have "\<forall>e\<in>set es'. n0 \<le> e \<and> e < length hp \<and> \<not> is_tuple hp e
                           \<or> e < n0 \<and> is_tuple hp e"
  proof
    fix e assume "e \<in> set es'"
    then obtain i where "i < length es'" "es' ! i = e" by (auto simp: in_set_conv_nth)
    with len cs copy_ok_leaf_facts(3) [of n0 hp "es ! i" e]
    show "n0 \<le> e \<and> e < length hp \<and> \<not> is_tuple hp e \<or> e < n0 \<and> is_tuple hp e"
      by auto
  qed
  moreover from y have "\<not> is_tuple hp y" by (simp add: is_tuple_def nth_e_def)
  ultimately show ?thesis using y by blast
qed

lemma list_value_SomeD:
  assumes "list_value hp a = Some lv"
  shows "\<exists>es. a < length hp \<and> hp ! a = PyList es
           \<and> those (map (leaf_value hp) es) = Some lv
           \<and> (\<forall>e\<in>set es. e < length hp \<and> leaf_value hp e \<noteq> None)"
proof -
  from assms obtain es where
    a: "a < length hp" "hp ! a = PyList es" and t: "those (map (leaf_value hp) es) = Some lv"
    by (auto simp: list_value_def nth_e_def split: if_splits pyobj.splits)
  from those_Some_all [OF t] have ne: "\<forall>e\<in>set es. leaf_value hp e \<noteq> None" by auto
  have "\<forall>e\<in>set es. e < length hp \<and> leaf_value hp e \<noteq> None"
  proof
    fix e assume "e \<in> set es"
    with ne have "leaf_value hp e \<noteq> None" by simp
    then show "e < length hp \<and> leaf_value hp e \<noteq> None"
      using leaf_value_valid by blast
  qed
  with a t show ?thesis by blast
qed

lemma particle_value_SomeD:
  assumes "particle_value hp x = Some (pv, lv, cv)"
  shows "\<exists>ap al ac. x < length hp \<and> hp ! x = Instance ap al ac
           \<and> leaf_value hp ap = Some pv \<and> list_value hp al = Some lv
           \<and> list_value hp ac = Some cv"
  using assms
  by (auto simp: particle_value_def nth_e_def split: if_splits pyobj.splits option.splits)

lemma refs_valid:
  assumes v: "particle_value hp x = Some v"
  shows "\<forall>r\<in>set (refs hp x). r < length hp"
proof -
  obtain pv lv cv where v3: "v = (pv, lv, cv)" by (cases v)
  from particle_value_SomeD [OF v [unfolded v3]] obtain ap al ac where
    x: "x < length hp" "hp ! x = Instance ap al ac"
    and p: "leaf_value hp ap = Some pv" and l: "list_value hp al = Some lv"
    and c: "list_value hp ac = Some cv"
    by blast
  from list_value_SomeD [OF l] obtain es where
    al: "al < length hp" "hp ! al = PyList es" "\<forall>e\<in>set es. e < length hp \<and> leaf_value hp e \<noteq> None"
    by blast
  from list_value_SomeD [OF c] obtain cs where
    ac: "ac < length hp" "hp ! ac = PyList cs" "\<forall>e\<in>set cs. e < length hp \<and> leaf_value hp e \<noteq> None"
    by blast
  from p have ap: "ap < length hp" by (rule leaf_value_Some_valid)
  have r: "refs hp x = x # ap # al # ac # es @ cs"
    using x al ac by (simp add: refs_def list_elements_def nth_e_def)
  show ?thesis unfolding r using x ap al ac by auto
qed

lemma particle_value_frame:
  assumes v: "particle_value hp x = Some v"
    and same: "\<forall>r\<in>set (refs hp x). r < length hp2 \<and> hp2 ! r = hp ! r"
  shows "particle_value hp2 x = Some v" and "refs hp2 x = refs hp x"
proof -
  obtain pv lv cv where v3: "v = (pv, lv, cv)" by (cases v)
  from particle_value_SomeD [OF v [unfolded v3]] obtain ap al ac where
    x: "x < length hp" "hp ! x = Instance ap al ac"
    and p: "leaf_value hp ap = Some pv" and l: "list_value hp al = Some lv"
    and c: "list_value hp ac = Some cv"
    by blast
  from list_value_SomeD [OF l] obtain es where
    al: "al < length hp" "hp ! al = PyList es" "those (map (leaf_value hp) es) = Some lv"
    by blast
  from list_value_SomeD [OF c] obtain cs where
    ac: "ac < length hp" "hp ! ac = PyList cs" "those (map (leaf_value hp) cs) = Some cv"
    by blast
  from p have ap: "ap < length hp" by (rule leaf_value_Some_valid)
  have r: "refs hp x = x # ap # al # ac # es @ cs"
    using x al ac by (simp add: refs_def list_elements_def nth_e_def)
  from same have s: "\<And>r. r \<in> set (x # ap # al # ac # es @ cs)
      \<Longrightarrow> r < length hp2 \<and> hp2 ! r = hp ! r"
    unfolding r by blast
  have ne: "nth_e hp2 r = nth_e hp r" if "r \<in> set (x # ap # al # ac # es @ cs)" for r
  proof -
    from refs_valid [OF v] that have "r < length hp" unfolding r by blast
    with s [OF that] show ?thesis by (simp add: nth_e_def)
  qed
  have lf: "leaf_value hp2 r = leaf_value hp r" if "r \<in> set (x # ap # al # ac # es @ cs)" for r
    using ne [OF that] by (simp add: leaf_value_def)
  have "list_value hp2 al = Some lv"
  proof -
    have "nth_e hp2 al = Inr (PyList es)" using ne [of al] al by (simp add: nth_e_def)
    then have "list_value hp2 al = those (map (leaf_value hp2) es)"
      by (simp add: list_value_def)
    also have "map (leaf_value hp2) es = map (leaf_value hp) es" using lf by simp
    finally show ?thesis using al(3) by simp
  qed
  moreover have "list_value hp2 ac = Some cv"
  proof -
    have "nth_e hp2 ac = Inr (PyList cs)" using ne [of ac] ac by (simp add: nth_e_def)
    then have "list_value hp2 ac = those (map (leaf_value hp2) cs)"
      by (simp add: list_value_def)
    also have "map (leaf_value hp2) cs = map (leaf_value hp) cs" using lf by simp
    finally show ?thesis using ac(3) by simp
  qed
  moreover have "leaf_value hp2 ap = Some pv" using lf [of ap] p by simp
  moreover have nx: "nth_e hp2 x = Inr (Instance ap al ac)"
    using ne [of x] x by (simp add: nth_e_def)
  ultimately show "particle_value hp2 x = Some v"
    by (simp add: particle_value_def v3)
  show "refs hp2 x = refs hp x"
    using nx ne [of al] ne [of ac] al ac r
    by (simp add: refs_def list_elements_def nth_e_def)
qed

lemma particle_value_append:
  assumes v: "particle_value hp x = Some v"
  shows "particle_value (hp @ ext) x = Some v" and "refs (hp @ ext) x = refs hp x"
proof -
  from refs_valid [OF v]
  have "\<forall>r\<in>set (refs hp x). r < length (hp @ ext) \<and> (hp @ ext) ! r = hp ! r"
    by (auto simp: nth_append)
  from particle_value_frame [OF v this]
  show "particle_value (hp @ ext) x = Some v" and "refs (hp @ ext) x = refs hp x" .
qed

lemma copied_list_value:
  assumes c: "copy_ok n0 H a y" and obj: "H ! a = PyList es"
    and lv: "those (map (leaf_value H) es) = Some lv"
  shows "list_value H y = Some lv"
    and "n0 \<le> y \<and> y < length H \<and> \<not> is_tuple H y"
    and "\<forall>e\<in>set (list_elements H y).
           n0 \<le> e \<and> e < length H \<and> \<not> is_tuple H e \<or> e < n0 \<and> is_tuple H e"
proof -
  from copy_ok_list_facts [OF c obj] obtain es' where
    y: "n0 \<le> y" "y < length H" "\<not> is_tuple H y" and oy: "H ! y = PyList es'"
    and m: "map (leaf_value H) es' = map (leaf_value H) es"
    and r: "\<forall>e\<in>set es'. n0 \<le> e \<and> e < length H \<and> \<not> is_tuple H e \<or> e < n0 \<and> is_tuple H e"
    by blast
  from y oy have ny: "nth_e H y = Inr (PyList es')" by (simp add: nth_e_def)
  then have "list_value H y = those (map (leaf_value H) es')" by (simp add: list_value_def)
  with m lv show "list_value H y = Some lv" by simp
  from y show "n0 \<le> y \<and> y < length H \<and> \<not> is_tuple H y" by simp
  from ny r show "\<forall>e\<in>set (list_elements H y).
           n0 \<le> e \<and> e < length H \<and> \<not> is_tuple H e \<or> e < n0 \<and> is_tuple H e"
    by (simp add: list_elements_def)
qed

lemma deepcopy_particle_ok:
  assumes v: "particle_value hp x = Some v"
  shows "\<exists>ext x'. deepcopy_particle hp x = Inr (hp @ ext, x')
           \<and> length hp \<le> x' \<and> particle_value (hp @ ext) x' = Some v
           \<and> (\<forall>r\<in>set (refs (hp @ ext) x').
                 length hp \<le> r \<and> r < length (hp @ ext) \<and> \<not> is_tuple (hp @ ext) r
                 \<or> r < length hp \<and> is_tuple (hp @ ext) r)"
proof -
  let ?n = "length hp"
  obtain pv lv cv where v3: "v = (pv, lv, cv)" by (cases v)
  from particle_value_SomeD [OF v [unfolded v3]] obtain ap al ac where
    x: "x < ?n" "hp ! x = Instance ap al ac"
    and p: "leaf_value hp ap = Some pv" and l: "list_value hp al = Some lv"
    and c: "list_value hp ac = Some cv"
    by blast
  from list_value_SomeD [OF l] obtain es where
    al: "al < ?n" "hp ! al = PyList es" "those (map (leaf_value hp) es) = Some lv"
      "\<forall>e\<in>set es. e < ?n \<and> leaf_value hp e \<noteq> None"
    by blast
  from list_value_SomeD [OF c] obtain cs where
    ac: "ac < ?n" "hp ! ac = PyList cs" "those (map (leaf_value hp) cs) = Some cv"
      "\<forall>e\<in>set cs. e < ?n \<and> leaf_value hp e \<noteq> None"
    by blast
  from p have ap: "ap < ?n" "leaf_value hp ap \<noteq> None"
    by (auto dest: leaf_value_Some_valid)
  have m0: "memo_ok ?n hp Map.empty" by (simp add: memo_ok_def)
  from deepcopy_leaf_ok [OF m0 _ ap] obtain ext1 memo1 ap' where
    s1: "deepcopy_leaf hp Map.empty ap = Inr (hp @ ext1, memo1, ap')"
    and m1: "memo_ok ?n (hp @ ext1) memo1" and c1: "copy_ok_leaf ?n (hp @ ext1) ap ap'"
    by auto
  define h1 where "h1 = hp @ ext1"
  have n1: "?n \<le> length h1" by (simp add: h1_def)
  have o1: "h1 ! al = PyList es" using al by (simp add: h1_def nth_append)
  have e1: "\<forall>e\<in>set es. e < ?n \<and> leaf_value h1 e \<noteq> None"
    using al(4) by (simp add: h1_def leaf_value_append)
  from deepcopy_list_ok [OF n1 al(1) o1 e1 m1 [folded h1_def]] obtain ext2 memo2 al' where
    s2: "deepcopy_list h1 memo1 al = Inr (h1 @ ext2, memo2, al')"
    and m2: "memo_ok ?n (h1 @ ext2) memo2" and c2: "copy_ok ?n (h1 @ ext2) al al'"
    by blast
  define h2 where "h2 = h1 @ ext2"
  have n2: "?n \<le> length h2" by (simp add: h2_def h1_def)
  have o2: "h2 ! ac = PyList cs" using ac by (simp add: h2_def h1_def nth_append)
  have e2: "\<forall>e\<in>set cs. e < ?n \<and> leaf_value h2 e \<noteq> None"
    using ac(4) by (simp add: h2_def h1_def leaf_value_append)
  from deepcopy_list_ok [OF n2 ac(1) o2 e2 m2 [folded h2_def]] obtain ext3 memo3 ac' where
    s3: "deepcopy_list h2 memo2 ac = Inr (h2 @ ext3, memo3, ac')"
    and c3: "copy_ok ?n (h2 @ ext3) ac ac'"
    by blast
  define h3 where "h3 = h2 @ ext3"
  define H where "H = h3 @ [Instance ap' al' ac']"
  have H: "H = hp @ (ext1 @ ext2 @ ext3 @ [Instance ap' al' ac'])"
    by (simp add: H_def h3_def h2_def h1_def)
  have run: "deepcopy_particle hp x = Inr (H, length h3)"
    using x s1 s2 s3
    by (simp add: deepcopy_particle_def nth_e_def h1_def h2_def h3_def H_def)
  have old: "\<And>a. a < ?n \<Longrightarrow> H ! a = hp ! a" "\<And>a. a < ?n \<Longrightarrow> leaf_value H a = leaf_value hp a"
    by (simp_all add: H leaf_value_append nth_append)
  have C1: "copy_ok_leaf ?n H ap ap'"
    using copy_ok_leaf_append [OF c1, of "ext2 @ ext3 @ [Instance ap' al' ac']"]
    by (simp add: H)
  have C2: "copy_ok ?n H al al'"
    using copy_ok_append [OF c2, of "ext3 @ [Instance ap' al' ac']"]
    by (simp add: H h1_def)
  have C3: "copy_ok ?n H ac ac'"
    using copy_ok_append [OF c3, of "[Instance ap' al' ac']"]
    by (simp add: H h2_def h1_def)
  have mapl: "those (map (leaf_value H) es) = Some lv"
  proof -
    have "map (leaf_value H) es = map (leaf_value hp) es" using al(4) old(2) by simp
    then show ?thesis by (simp only: al(3))
  qed
  have mapc: "those (map (leaf_value H) cs) = Some cv"
  proof -
    have "map (leaf_value H) cs = map (leaf_value hp) cs" using ac(4) old(2) by simp
    then show ?thesis by (simp only: ac(3))
  qed
  have Hal: "H ! al = PyList es" and Hac: "H ! ac = PyList cs"
    using al ac old(1) by simp_all
  note L = copied_list_value [OF C2 Hal mapl]
  note C = copied_list_value [OF C3 Hac mapc]
  note P = copy_ok_leaf_facts [OF C1]
  have x': "?n \<le> length h3" "length h3 < length H" "H ! length h3 = Instance ap' al' ac'"
    by (simp_all add: H_def h3_def h2_def h1_def)
  then have nx: "nth_e H (length h3) = Inr (Instance ap' al' ac')"
    by (simp add: nth_e_def)
  have pvH: "leaf_value H ap' = Some pv" using P(1) old(2) [OF ap(1)] p by simp
  have val: "particle_value H (length h3) = Some v"
    using nx pvH L(1) C(1) by (simp add: particle_value_def v3)
  have rf: "refs H (length h3)
      = length h3 # ap' # al' # ac' # list_elements H al' @ list_elements H ac'"
    using nx by (simp add: refs_def)
  have xt: "\<not> is_tuple H (length h3)" using nx by (simp add: is_tuple_def)
  have rng: "\<forall>r\<in>set (refs H (length h3)).
                 ?n \<le> r \<and> r < length H \<and> \<not> is_tuple H r \<or> r < ?n \<and> is_tuple H r"
    unfolding rf using x' xt P(3) L(2,3) C(2,3) by auto
  from run x'(1) val rng show ?thesis
    unfolding H by blast
qed

lemma mutable_refs_subset: "set (mutable_refs hp x) \<subseteq> set (refs hp x)"
  by (auto simp: mutable_refs_def)

lemma mutable_refs_append:
  assumes v: "particle_value hp x = Some v"
  shows "mutable_refs (hp @ ext) x = mutable_refs hp x"
proof -
  have "filter (\<lambda>a. \<not> is_tuple (hp @ ext) a) (refs hp x)
        = filter (\<lambda>a. \<not> is_tuple hp a) (refs hp x)"
    using refs_valid [OF v] by (intro filter_cong) (auto simp: is_tuple_append)
  then show ?thesis by (simp add: mutable_refs_def particle_value_append(2) [OF v])
qed

lemma resample_loop_heap:
  assumes src: "\<forall>p\<in>set ps. particle_value hp0 p \<noteq> None"
  shows "resample_loop deepcopy_particle ps ws M us is offset index hp acc
           = Some (Inr (hp', out))
     \<Longrightarrow> \<exists>ext. hp = hp0 @ ext
     \<Longrightarrow> \<forall>i<length acc. \<exists>k<length ps. particle_value hp (acc ! i) = particle_value hp0 (ps ! k)
     \<Longrightarrow> \<forall>i<length acc. \<forall>r\<in>set (mutable_refs hp (acc ! i)). length hp0 \<le> r
     \<Longrightarrow> \<forall>i<length acc. \<forall>j<length acc. j \<noteq> i \<longrightarrow>
           set (mutable_refs hp (acc ! i)) \<inter> set (refs hp (acc ! j)) = {}
     \<Longrightarrow> (\<exists>ext. hp' = hp0 @ ext)
         \<and> (\<forall>i<length out. \<exists>k<length ps.
                particle_value hp' (out ! i) = particle_value hp0 (ps ! k))
         \<and> (\<forall>i<length out. \<forall>r\<in>set (mutable_refs hp' (out ! i)). length hp0 \<le> r)
         \<and> (\<forall>i<length out. \<forall>j<length out. j \<noteq> i \<longrightarrow>
               set (mutable_refs hp' (out ! i)) \<inter> set (refs hp' (out ! j)) = {})"
proof (induction "is" arbitrary: offset index hp acc)
  case Nil
  then show ?case by simp
next
  case (Cons i0 "is")
  from Cons.prems(1) obtain off' idx' hp1 q where
    nth: "nth_e ps idx' = Inr (ps ! idx')" "idx' < length ps"
    and cp: "deepcopy_particle hp (ps ! idx') = Inr (hp1, q)"
    and rest: "resample_loop deepcopy_particle ps ws M us is off' idx' hp1 (acc @ [q])
                 = Some (Inr (hp', out))"
    by (auto simp: nth_e_def split: option.splits sum.splits prod.splits if_splits)
  from Cons.prems(2) obtain ext0 where hp: "hp = hp0 @ ext0" by blast
  from nth(2) have "ps ! idx' \<in> set ps" by simp
  with src have "particle_value hp0 (ps ! idx') \<noteq> None" by blast
  then obtain v where v0: "particle_value hp0 (ps ! idx') = Some v"
    by (cases "particle_value hp0 (ps ! idx')") simp_all
  then have v: "particle_value hp (ps ! idx') = Some v"
    unfolding hp by (rule particle_value_append(1))
  from deepcopy_particle_ok [OF v] cp obtain ext1 where
    hp1: "hp1 = hp @ ext1" and q: "length hp \<le> q" "particle_value hp1 q = Some v"
    and qr: "\<forall>r\<in>set (refs hp1 q).
                 length hp \<le> r \<and> r < length hp1 \<and> \<not> is_tuple hp1 r
                 \<or> r < length hp \<and> is_tuple hp1 r"
    by auto
  have accv: "\<exists>w. particle_value hp (acc ! i) = Some w" if "i < length acc" for i
  proof -
    from Cons.prems(3) that obtain k where
      "k < length ps" "particle_value hp (acc ! i) = particle_value hp0 (ps ! k)"
      by blast
    moreover from this(1) have "ps ! k \<in> set ps" by simp
    with src have "particle_value hp0 (ps ! k) \<noteq> None" by blast
    ultimately show ?thesis
      by (cases "particle_value hp0 (ps ! k)") (simp_all del: split_paired_Ex)
  qed
  have old_pv: "particle_value hp1 (acc ! i) = particle_value hp (acc ! i)"
    and old_refs: "refs hp1 (acc ! i) = refs hp (acc ! i)"
    and old_mut: "mutable_refs hp1 (acc ! i) = mutable_refs hp (acc ! i)"
    and old_valid: "\<forall>r\<in>set (refs hp (acc ! i)). r < length hp"
    if "i < length acc" for i
  proof -
    from accv [OF that] obtain w where w: "particle_value hp (acc ! i) = Some w" by blast
    show "particle_value hp1 (acc ! i) = particle_value hp (acc ! i)"
      using particle_value_append(1) [OF w, of ext1] w by (simp add: hp1)
    show "refs hp1 (acc ! i) = refs hp (acc ! i)"
      using particle_value_append(2) [OF w, of ext1] by (simp add: hp1)
    show "mutable_refs hp1 (acc ! i) = mutable_refs hp (acc ! i)"
      using mutable_refs_append [OF w, of ext1] by (simp add: hp1)
    show "\<forall>r\<in>set (refs hp (acc ! i)). r < length hp"
      by (rule refs_valid [OF w])
  qed
  have qmut: "\<forall>r\<in>set (mutable_refs hp1 q). length hp \<le> r"
    using qr by (auto simp: mutable_refs_def)
  have A: "\<exists>ext. hp1 = hp0 @ ext" using hp hp1 by simp
  have B: "\<forall>i<length (acc @ [q]). \<exists>k<length ps.
             particle_value hp1 ((acc @ [q]) ! i) = particle_value hp0 (ps ! k)"
  proof (intro allI impI)
    fix i assume i: "i < length (acc @ [q])"
    show "\<exists>k<length ps. particle_value hp1 ((acc @ [q]) ! i) = particle_value hp0 (ps ! k)"
    proof (cases "i < length acc")
      case True
      with Cons.prems(3) old_pv [OF True] show ?thesis by (simp add: nth_append)
    next
      case False
      with i have "(acc @ [q]) ! i = q" by (simp add: nth_append)
      with q(2) v0 nth(2) show ?thesis by auto
    qed
  qed
  have C: "\<forall>i<length (acc @ [q]). \<forall>r\<in>set (mutable_refs hp1 ((acc @ [q]) ! i)).
             length hp0 \<le> r"
  proof (intro allI impI)
    fix i assume i: "i < length (acc @ [q])"
    show "\<forall>r\<in>set (mutable_refs hp1 ((acc @ [q]) ! i)). length hp0 \<le> r"
    proof (cases "i < length acc")
      case True
      with Cons.prems(4) old_mut [OF True] show ?thesis by (simp add: nth_append)
    next
      case False
      with i have "(acc @ [q]) ! i = q" by (simp add: nth_append)
      with qmut hp show ?thesis by auto
    qed
  qed
  have D: "\<forall>i<length (acc @ [q]). \<forall>j<length (acc @ [q]). j \<noteq> i \<longrightarrow>
             set (mutable_refs hp1 ((acc @ [q]) ! i)) \<inter> set (refs hp1 ((acc @ [q]) ! j)) = {}"
  proof (intro allI impI)
    fix i j assume i: "i < length (acc @ [q])" and j: "j < length (acc @ [q])"
      and ne: "j \<noteq> i"
    consider (oo) "i < length acc" "j < length acc"
      | (on) "i < length acc" "j = length acc"
      | (no) "i = length acc" "j < length acc"
      using i j ne by (simp) arith
    then show "set (mutable_refs hp1 ((acc @ [q]) ! i))
                 \<inter> set (refs hp1 ((acc @ [q]) ! j)) = {}"
    proof cases
      case oo
      with Cons.prems(5) ne old_mut [OF oo(1)] old_refs [OF oo(2)] show ?thesis
        by (simp add: nth_append)
    next
      case on
      have "set (mutable_refs hp (acc ! i)) \<inter> set (refs hp1 q) = {}"
      proof (rule ccontr)
        assume "set (mutable_refs hp (acc ! i)) \<inter> set (refs hp1 q) \<noteq> {}"
        then obtain r where r: "r \<in> set (mutable_refs hp (acc ! i))" "r \<in> set (refs hp1 q)"
          by blast
        from r(1) have "r \<in> set (refs hp (acc ! i))" "\<not> is_tuple hp r"
          by (simp_all add: mutable_refs_def)
        with old_valid [OF on(1)] have "r < length hp" "\<not> is_tuple hp1 r"
          by (simp_all add: hp1 is_tuple_append)
        with qr r(2) show False by auto
      qed
      with on old_mut [OF on(1)] show ?thesis by (simp add: nth_append)
    next
      case no
      have "set (mutable_refs hp1 q) \<inter> set (refs hp (acc ! j)) = {}"
        using qmut old_valid [OF no(2)] by fastforce
      with no old_refs [OF no(2)] show ?thesis by (simp add: nth_append)
    qed
  qed
  from Cons.IH [OF rest A B C D] show ?case .
qed

lemma resample_heap_returns:
  assumes pos: "\<forall>w\<in>set ws. 0 < w" and len: "length ws = length ps" and ne: "ps \<noteq> []"
    and start: "start < length ps"
    and src: "\<forall>p\<in>set ps. particle_value hp p \<noteq> None"
  shows "\<exists>hp' outs. resample_heap hp ps ws start us = Some (Inr (hp', outs))
           \<and> length outs = length ps"
proof -
  have copy: "\<exists>s' q. deepcopy_particle s p = Inr (s', q) \<and> (\<exists>ext. s' = hp @ ext)"
    if "\<exists>ext. s = hp @ ext" and "p \<in> set ps" for s p
  proof -
    from that(1) obtain ext where s: "s = hp @ ext" by blast
    from src that(2) obtain v where "particle_value hp p = Some v"
      by (cases "particle_value hp p") auto
    then have "particle_value s p = Some v" unfolding s by (rule particle_value_append(1))
    from deepcopy_particle_ok [OF this] s show ?thesis by auto
  qed
  from pos have nn: "\<forall>w\<in>set ws. 0 \<le> w" by (auto intro: less_imp_le)
  have "\<exists>ext. hp = hp @ ext" by simp
  from resample_with_returns [of ws ps "\<lambda>s. \<exists>ext. s = hp @ ext" deepcopy_particle hp start us,
      OF nn len ne copy this start]
  obtain s' out where
    "resample_with deepcopy_particle hp ps ws start us = Some (Inr (s', out))"
    "length out = length ps"
    by blast
  then show ?thesis by (simp add: resample_heap_def)
qed

lemma resample_store:
  "resample_heap store_two_particles [5, 9] [2, 1] 0 draws_zero
     = Some (Inr (store_resampled, [14, 19]))"
  by (simp add: resample_heap_def resample_with_def wheel.simps uniform_def draws_zero_def
      nth_e_def deepcopy_particle_def deepcopy_list_def deepcopy_leaf_def
      store_two_particles_def store_resampled_def)

lemma store_wf:
  "\<forall>p\<in>set [5, 9]. particle_value store_two_particles p \<noteq> None"
  by (simp add: particle_value_def leaf_value_def list_value_def nth_e_def
      store_two_particles_def)

subsection \<open>The particles that resampling returns share no mutable object\<close>

text \<open>
  C9. Let \<^verbatim>\<open>resample\<close> run on a store in which every particle of the filter is an instance
  with a pose, a list of positions and a list of covariances, and let it return. Then every
  output particle holds the same numbers as a source particle (a full copy); every object of
  it that can be mutated (the instance, its arrays and its lists; all but tuples, which are
  immutable) was allocated by the resampling, so it is no object of a source particle; and
  for any two outputs, also two copied from the same source index, no mutable object of one
  is reached from the other, so that whatever is written into the mutable objects of one
  output, and whatever is allocated, the other output holds the numbers it held.
\<close>

theorem resampled_particles_independent:
  assumes run: "resample_heap hp ps ws start us = Some (Inr (hp', outs))"
    and src: "\<forall>p\<in>set ps. particle_value hp p \<noteq> None"
  shows "\<forall>i<length outs.
           (\<exists>k<length ps. particle_value hp' (outs ! i) = particle_value hp (ps ! k))
         \<and> (\<forall>r\<in>set (mutable_refs hp' (outs ! i)). length hp \<le> r)
         \<and> (\<forall>j<length outs. j \<noteq> i \<longrightarrow>
               set (mutable_refs hp' (outs ! i)) \<inter> set (refs hp' (outs ! j)) = {}
               \<and> (\<forall>hp''. length hp' \<le> length hp''
                      \<and> (\<forall>a<length hp'. a \<notin> set (mutable_refs hp' (outs ! i))
                             \<longrightarrow> hp'' ! a = hp' ! a)
                    \<longrightarrow> particle_value hp'' (outs ! j) = particle_value hp' (outs ! j)))"
proof -
  from run obtain M where
    loop: "resample_loop deepcopy_particle ps ws M us [0..<length ps] 0 start hp []
             = Some (Inr (hp', outs))"
    by (auto simp: resample_heap_def resample_with_def split: sum.splits)
  have "\<exists>ext. hp = hp @ ext" by simp
  from resample_loop_heap [OF src loop this] have
    val: "\<forall>i<length outs. \<exists>k<length ps.
            particle_value hp' (outs ! i) = particle_value hp (ps ! k)"
    and new: "\<forall>i<length outs. \<forall>r\<in>set (mutable_refs hp' (outs ! i)). length hp \<le> r"
    and sep: "\<forall>i<length outs. \<forall>j<length outs. j \<noteq> i \<longrightarrow>
               set (mutable_refs hp' (outs ! i)) \<inter> set (refs hp' (outs ! j)) = {}"
    by simp_all
  have frame: "particle_value hp'' (outs ! j) = particle_value hp' (outs ! j)"
    if i: "i < length outs" and j: "j < length outs" and ne: "j \<noteq> i"
      and big: "length hp' \<le> length hp''"
      and same: "\<forall>a<length hp'. a \<notin> set (mutable_refs hp' (outs ! i))
                   \<longrightarrow> hp'' ! a = hp' ! a"
    for i j hp''
  proof -
    from val j obtain k where k: "k < length ps"
      "particle_value hp' (outs ! j) = particle_value hp (ps ! k)"
      by blast
    from k(1) have "ps ! k \<in> set ps" by simp
    with src have "particle_value hp (ps ! k) \<noteq> None" by blast
    with k(2) obtain v where v: "particle_value hp' (outs ! j) = Some v"
      by (cases "particle_value hp (ps ! k)") (simp_all del: split_paired_Ex)
    have "\<forall>r\<in>set (refs hp' (outs ! j)). r < length hp'' \<and> hp'' ! r = hp' ! r"
    proof
      fix r assume r: "r \<in> set (refs hp' (outs ! j))"
      with refs_valid [OF v] have rl: "r < length hp'" by simp
      from sep i j ne r have "r \<notin> set (mutable_refs hp' (outs ! i))" by blast
      with same rl big show "r < length hp'' \<and> hp'' ! r = hp' ! r" by simp
    qed
    from particle_value_frame(1) [OF v this] v show ?thesis by simp
  qed
  show ?thesis
  proof (intro allI impI conjI)
    fix i assume "i < length outs"
    with val show "\<exists>k<length ps. particle_value hp' (outs ! i) = particle_value hp (ps ! k)"
      by simp
  next
    fix i assume "i < length outs"
    with new show "\<forall>r\<in>set (mutable_refs hp' (outs ! i)). length hp \<le> r" by simp
  next
    fix i j assume "i < length outs" "j < length outs" "j \<noteq> i"
    with sep show "set (mutable_refs hp' (outs ! i)) \<inter> set (refs hp' (outs ! j)) = {}"
      by simp
  next
    fix i j hp''
    assume "i < length outs" "j < length outs" "j \<noteq> i"
      and "length hp' \<le> length hp''
           \<and> (\<forall>a<length hp'. a \<notin> set (mutable_refs hp' (outs ! i))
                  \<longrightarrow> hp'' ! a = hp' ! a)"
    then show "particle_value hp'' (outs ! j) = particle_value hp' (outs ! j)"
      using frame [of i j hp''] by simp
  qed
qed

theorem resampled_particles_independent_witness:
  "resample_heap store_two_particles [5, 9] [2, 1] 0 draws_zero
     = Some (Inr (store_resampled, [14, 19]))
   \<and> particle_value store_two_particles 5 \<noteq> None
   \<and> particle_value store_two_particles 9 \<noteq> None
   \<and> set (mutable_refs store_resampled 14) \<inter> set (refs store_resampled 19) = {}
   \<and> particle_value (store_resampled[12 := Ndarray [9, 9, 9, 9]]) 19
       = particle_value store_resampled 19"
proof -
  note inst = resampled_particles_independent [OF resample_store store_wf]
  have m: "mutable_refs store_resampled 14 = [14, 10, 11, 13, 12]"
    by (simp add: mutable_refs_def refs_def list_elements_def is_tuple_def nth_e_def
        store_resampled_def store_two_particles_def)
  have i0: "(0::nat) < length [14, 19 :: nat]" and j1: "(1::nat) < length [14, 19 :: nat]"
    by simp_all
  have ne: "(1::nat) \<noteq> 0" by simp
  note at0 = inst [rule_format, OF i0, THEN conjunct2, THEN conjunct2, rule_format, OF j1 ne]
  from at0 [THEN conjunct1] have sep: "set (mutable_refs store_resampled ([14, 19] ! 0))
      \<inter> set (refs store_resampled ([14, 19] ! 1)) = {}"
    by simp
  have len: "length store_resampled = 20"
    by (simp add: store_resampled_def store_two_particles_def)
  have pre: "length store_resampled \<le> length (store_resampled[12 := Ndarray [9, 9, 9, 9]])
      \<and> (\<forall>a<length store_resampled.
             a \<notin> set (mutable_refs store_resampled ([14, 19] ! 0))
             \<longrightarrow> store_resampled[12 := Ndarray [9, 9, 9, 9]] ! a = store_resampled ! a)"
    by (simp add: m)
  from at0 [THEN conjunct2, rule_format, OF pre]
  have fr: "particle_value (store_resampled[12 := Ndarray [9, 9, 9, 9]]) ([14, 19] ! 1)
       = particle_value store_resampled ([14, 19] ! 1)" .
  from sep have sep': "set (mutable_refs store_resampled 14) \<inter> set (refs store_resampled 19)
      = {}"
    by simp
  from fr have fr': "particle_value (store_resampled[12 := Ndarray [9, 9, 9, 9]]) 19
       = particle_value store_resampled 19"
    by simp
  from store_wf have wf5: "particle_value store_two_particles 5 \<noteq> None"
    and wf9: "particle_value store_two_particles 9 \<noteq> None"
    by simp_all
  from resample_store wf5 wf9 sep' fr' show ?thesis by (intro conjI)
qed



end
